(* ===== verification/Prelude.thy ===== *)
theory Prelude
  imports "HOL-Library.Word" "HOL-Library.List_Lexorder"
begin

text \<open>
  Shared vocabulary of the development.

  \<^item> Rust's fixed-width integers are machine words (\<open>u8\<close> \<dots> \<open>u64\<close>); \<open>usize\<close> is \<open>nat\<close>, with the
    64-bit limit \<open>usize_max\<close> written out wherever the source checks for overflow.
  \<^item> A Rust computation that may return \<open>Err\<close> or panic is a value of \<open>outcome\<close>: \<open>Ok\<close>, \<open>Err\<close> or
    \<open>Panic\<close>, composed with \<open>obind\<close> (the \<open>?\<close> operator). Slicing, indexing and copying out of range
    panic in Rust, so they are partial operations here and every theorem that a routine does not
    panic is a real statement.
  \<^item> Big-endian integers (\<open>to_be_bytes\<close>, \<open>from_be_bytes\<close>) and the lemmas on consecutive fields of a
    byte sequence that the index format rests on.
\<close>

unbundle bit_operations_syntax

named_theorems outcome_simps "rewriting of the outcome monad"
named_theorems layout_simps "lengths and positions of encoded fields"
named_theorems panic_free "routines that cannot panic"

type_synonym u8 = "8 word"
type_synonym u16 = "16 word"
type_synonym u32 = "32 word"
type_synonym u64 = "64 word"
type_synonym bytes = "u8 list"

definition usize_max :: nat where
  "usize_max = 2 ^ 64 - 1"

section \<open>Outcomes: results and panics\<close>

datatype ('e, 'a) outcome = Ok 'a | Err 'e | Panic

fun obind :: "('e, 'a) outcome \<Rightarrow> ('a \<Rightarrow> ('e, 'b) outcome) \<Rightarrow> ('e, 'b) outcome" where
  "obind (Ok x) f = f x"
| "obind (Err e) f = Err e"
| "obind Panic f = Panic"

fun map_err :: "('e \<Rightarrow> 'f) \<Rightarrow> ('e, 'a) outcome \<Rightarrow> ('f, 'a) outcome" where
  "map_err g (Ok x) = Ok x"
| "map_err g (Err e) = Err (g e)"
| "map_err g Panic = Panic"

fun map_ok :: "('a \<Rightarrow> 'b) \<Rightarrow> ('e, 'a) outcome \<Rightarrow> ('e, 'b) outcome" where
  "map_ok f (Ok x) = Ok (f x)"
| "map_ok f (Err e) = Err e"
| "map_ok f Panic = Panic"

fun ok_option :: "('e, 'a) outcome \<Rightarrow> 'a option" where
  "ok_option (Ok x) = Some x"
| "ok_option (Err e) = None"
| "ok_option Panic = None"

fun is_ok :: "('e, 'a) outcome \<Rightarrow> bool" where
  "is_ok (Ok x) = True"
| "is_ok (Err e) = False"
| "is_ok Panic = False"

text \<open>\<open>Option::unwrap\<close> / \<open>expect\<close>, and the conversion \<open>ok_or\<close>.\<close>

fun unwrap :: "'a option \<Rightarrow> ('e, 'a) outcome" where
  "unwrap (Some x) = Ok x"
| "unwrap None = Panic"

fun ok_or :: "'e \<Rightarrow> 'a option \<Rightarrow> ('e, 'a) outcome" where
  "ok_or e (Some x) = Ok x"
| "ok_or e None = Err e"

fun lift_sum :: "'e + 'a \<Rightarrow> ('e, 'a) outcome" where
  "lift_sum (Inr x) = Ok x"
| "lift_sum (Inl e) = Err e"

definition assert_that :: "bool \<Rightarrow> ('e, unit) outcome" where
  "assert_that b = (if b then Ok () else Panic)"

lemma obind_Ok_iff [outcome_simps]: "obind r f = Ok y \<longleftrightarrow> (\<exists>x. r = Ok x \<and> f x = Ok y)"
  by (cases r) auto

lemma obind_Panic_iff [outcome_simps]: "obind r f = Panic \<longleftrightarrow> r = Panic \<or> (\<exists>x. r = Ok x \<and> f x = Panic)"
  by (cases r) auto

lemma obind_Err_iff [outcome_simps]:
  "obind r f = Err e \<longleftrightarrow> r = Err e \<or> (\<exists>x. r = Ok x \<and> f x = Err e)"
  by (cases r) auto

lemma obind_assoc: "obind (obind r f) g = obind r (\<lambda>x. obind (f x) g)"
  by (cases r) auto

lemma obind_cong [fundef_cong]:
  "r = s \<Longrightarrow> (\<And>x. s = Ok x \<Longrightarrow> f x = g x) \<Longrightarrow> obind r f = obind s g"
  by (cases s) auto

lemma map_err_iff [outcome_simps]:
  "map_err g r = Ok x \<longleftrightarrow> r = Ok x"
  "map_err g r = Panic \<longleftrightarrow> r = Panic"
  "map_err g r = Err e' \<longleftrightarrow> (\<exists>e. r = Err e \<and> e' = g e)"
  by (cases r; auto)+

lemma map_ok_iff [outcome_simps]:
  "map_ok f r = Ok y \<longleftrightarrow> (\<exists>x. r = Ok x \<and> y = f x)"
  "map_ok f r = Panic \<longleftrightarrow> r = Panic"
  "map_ok f r = Err e \<longleftrightarrow> r = Err e"
  by (cases r; auto)+

lemma ok_or_iff [outcome_simps]:
  "ok_or e r = Ok x \<longleftrightarrow> r = Some x"
  "ok_or e r = Err e' \<longleftrightarrow> r = None \<and> e' = e"
  "ok_or e r = Panic \<longleftrightarrow> False"
  by (cases r; auto)+

lemma lift_sum_iff [outcome_simps]:
  "lift_sum r = Ok x \<longleftrightarrow> r = Inr x"
  "lift_sum r = Err e \<longleftrightarrow> r = Inl e"
  "lift_sum r = Panic \<longleftrightarrow> False"
  by (cases r; auto)+

lemma unwrap_iff [outcome_simps]:
  "unwrap r = Ok x \<longleftrightarrow> r = Some x"
  "unwrap r = Panic \<longleftrightarrow> r = None"
  "unwrap r = Err e \<longleftrightarrow> False"
  by (cases r; auto)+

lemma assert_that_iff [outcome_simps]:
  "assert_that b = Ok u \<longleftrightarrow> b"
  "assert_that b = Panic \<longleftrightarrow> \<not> b"
  "assert_that b = Err e \<longleftrightarrow> False"
  by (auto simp: assert_that_def)

lemma obind_no_panic [panic_free]:
  "r \<noteq> Panic \<Longrightarrow> (\<And>x. r = Ok x \<Longrightarrow> f x \<noteq> Panic) \<Longrightarrow> obind r f \<noteq> Panic"
  by (cases r) auto

text \<open>A Hoare-style judgement: the computation does not panic, and a result satisfies \<open>Q\<close>.\<close>

definition ensures :: "('a \<Rightarrow> bool) \<Rightarrow> ('e, 'a) outcome \<Rightarrow> bool" where
  "ensures Q r \<longleftrightarrow> r \<noteq> Panic \<and> (\<forall>x. r = Ok x \<longrightarrow> Q x)"

lemma ensures_simps [simp]: "ensures Q (Ok x) \<longleftrightarrow> Q x" "ensures Q (Err e)" "\<not> ensures Q Panic"
  by (auto simp: ensures_def)

lemma ensures_obind [panic_free]:
  "r \<noteq> Panic \<Longrightarrow> (\<And>x. r = Ok x \<Longrightarrow> ensures Q (f x)) \<Longrightarrow> ensures Q (obind r f)"
  by (cases r) auto

lemma ensures_bind: "ensures P r \<Longrightarrow> (\<And>x. P x \<Longrightarrow> ensures Q (f x)) \<Longrightarrow> ensures Q (obind r f)"
  by (cases r) auto

lemma ensures_no_panic: "ensures Q r \<Longrightarrow> r \<noteq> Panic"
  by (auto simp: ensures_def)

section \<open>Slices\<close>

text \<open>
  \<open>&xs[a..b]\<close>, \<open>&xs[a..]\<close>, \<open>xs[i]\<close>, \<open>xs[i] = v\<close> and \<open>dst[i..i + src.len()].copy_from_slice(src)\<close>,
  each of which panics outside the bounds; \<open>usize\<close> subtraction panics below zero.
\<close>

definition slice_range :: "nat \<Rightarrow> nat \<Rightarrow> 'a list \<Rightarrow> ('e, 'a list) outcome" where
  "slice_range a b xs = (if a \<le> b \<and> b \<le> length xs then Ok (take (b - a) (drop a xs)) else Panic)"

definition slice_from :: "nat \<Rightarrow> 'a list \<Rightarrow> ('e, 'a list) outcome" where
  "slice_from a xs = (if a \<le> length xs then Ok (drop a xs) else Panic)"

definition index_at :: "'a list \<Rightarrow> nat \<Rightarrow> ('e, 'a) outcome" where
  "index_at xs i = (if i < length xs then Ok (xs ! i) else Panic)"

definition store_at :: "'a list \<Rightarrow> nat \<Rightarrow> 'a \<Rightarrow> ('e, 'a list) outcome" where
  "store_at xs i v = (if i < length xs then Ok (xs[i := v]) else Panic)"

definition copy_at :: "nat \<Rightarrow> 'a list \<Rightarrow> 'a list \<Rightarrow> ('e, 'a list) outcome" where
  "copy_at i src dst =
     (if i + length src \<le> length dst
      then Ok (take i dst @ src @ drop (i + length src) dst) else Panic)"

definition usize_sub :: "nat \<Rightarrow> nat \<Rightarrow> ('e, nat) outcome" where
  "usize_sub a b = (if b \<le> a then Ok (a - b) else Panic)"

lemma slice_range_iff [outcome_simps]:
  "slice_range a b xs = Ok ys \<longleftrightarrow> a \<le> b \<and> b \<le> length xs \<and> ys = take (b - a) (drop a xs)"
  "slice_range a b xs = Panic \<longleftrightarrow> \<not> (a \<le> b \<and> b \<le> length xs)"
  "slice_range a b xs = Err e \<longleftrightarrow> False"
  by (auto simp: slice_range_def)

lemma slice_from_iff [outcome_simps]:
  "slice_from a xs = Ok ys \<longleftrightarrow> a \<le> length xs \<and> ys = drop a xs"
  "slice_from a xs = Panic \<longleftrightarrow> length xs < a"
  "slice_from a xs = Err e \<longleftrightarrow> False"
  by (auto simp: slice_from_def)

lemma index_at_iff [outcome_simps]:
  "index_at xs i = Ok y \<longleftrightarrow> i < length xs \<and> y = xs ! i"
  "index_at xs i = Panic \<longleftrightarrow> length xs \<le> i"
  "index_at xs i = Err e \<longleftrightarrow> False"
  by (auto simp: index_at_def)

lemma store_at_iff [outcome_simps]:
  "store_at xs i v = Ok ys \<longleftrightarrow> i < length xs \<and> ys = xs[i := v]"
  "store_at xs i v = Panic \<longleftrightarrow> length xs \<le> i"
  "store_at xs i v = Err e \<longleftrightarrow> False"
  by (auto simp: store_at_def)

section \<open>Fields of a byte sequence\<close>

text \<open>The field of width \<open>w\<close> with index \<open>i\<close> in a concatenation of fields of that width.\<close>

lemma take_drop_concat_fixed:
  assumes "\<And>x. x \<in> set xs \<Longrightarrow> length (f x) = w" and "i < length xs"
  shows "take w (drop (i * w) (concat (map f xs) @ rest)) = f (xs ! i)"
  using assms
proof (induction xs arbitrary: i)
  case Nil
  then show ?case by simp
next
  case (Cons x xs)
  then show ?case by (cases i) (auto simp: add.commute)
qed

lemma length_concat_fixed [layout_simps]:
  "(\<And>x. x \<in> set xs \<Longrightarrow> length (f x) = w) \<Longrightarrow> length (concat (map f xs)) = length xs * w"
  by (induction xs) auto

section \<open>Big-endian integers\<close>

lemma unat_u8_less: "unat (b :: u8) < 256"
  using unsigned_less [of b] by simp

fun be_bytes :: "nat \<Rightarrow> nat \<Rightarrow> bytes" where
  "be_bytes 0 v = []"
| "be_bytes (Suc n) v = be_bytes n (v div 256) @ [of_nat v]"

definition be_value :: "bytes \<Rightarrow> nat" where
  "be_value bs = foldl (\<lambda>acc b. 256 * acc + unat b) 0 bs"

definition to_be_bytes :: "'a::len word \<Rightarrow> bytes" where
  "to_be_bytes w = be_bytes (LENGTH('a) div 8) (unat w)"

definition from_be_bytes :: "bytes \<Rightarrow> 'a::len word" where
  "from_be_bytes bs = of_nat (be_value bs)"

lemma length_be_bytes [simp, layout_simps]: "length (be_bytes n v) = n"
  by (induction n arbitrary: v) auto

lemma length_to_be_bytes [layout_simps]: "length (to_be_bytes (w :: 'a::len word)) = LENGTH('a) div 8"
  by (simp add: to_be_bytes_def)

lemma length_to_be_bytes_u [simp, layout_simps]:
  "length (to_be_bytes (a :: u8)) = 1" "length (to_be_bytes (b :: u16)) = 2"
  "length (to_be_bytes (c :: u32)) = 4" "length (to_be_bytes (d :: u64)) = 8"
  by (simp_all add: to_be_bytes_def)

lemma unat_of_nat_small: "n < 2 ^ LENGTH('a) \<Longrightarrow> unat (of_nat n :: 'a::len word) = n"
  by (simp add: unsigned_of_nat take_bit_nat_eq_self)

lemma to_be_bytes_of_nat:
  "n < 2 ^ LENGTH('a) \<Longrightarrow> to_be_bytes (of_nat n :: 'a::len word) = be_bytes (LENGTH('a) div 8) n"
  by (simp add: to_be_bytes_def unsigned_of_nat take_bit_nat_eq_self)

lemma be_value_snoc [simp]: "be_value (bs @ [b]) = 256 * be_value bs + unat b"
  by (simp add: be_value_def)

lemma be_value_Nil [simp]: "be_value [] = 0"
  by (simp add: be_value_def)

lemma be_value_be_bytes: "be_value (be_bytes n v) = v mod 256 ^ n"
proof (induction n arbitrary: v)
  case 0
  then show ?case by simp
next
  case (Suc n)
  have "v mod (256 * 256 ^ n) = 256 * (v div 256 mod 256 ^ n) + v mod 256"
    by (rule mod_mult2_eq)
  then show ?case using Suc by (simp add: unat_of_nat)
qed

lemma be_value_bound: "be_value bs < 256 ^ length bs"
proof (induction bs rule: rev_induct)
  case Nil
  then show ?case by simp
next
  case (snoc b bs)
  have "unat b < 256" by (rule unat_u8_less)
  with snoc show ?case by simp
qed

lemma be_bytes_be_value: "be_bytes (length bs) (be_value bs) = bs"
proof (induction bs rule: rev_induct)
  case Nil
  then show ?case by simp
next
  case (snoc b bs)
  have "unat b < 256" by (rule unat_u8_less)
  then have "(256 * be_value bs + unat b) div 256 = be_value bs" by simp
  moreover have "of_nat (256 * be_value bs + unat b) = b"
  proof -
    have "(of_nat (256 * be_value bs + unat b) :: u8) = of_nat 256 * of_nat (be_value bs) + b"
      by simp
    also have "(of_nat 256 :: u8) = 0" by simp
    finally show ?thesis by simp
  qed
  ultimately show ?case using snoc by simp
qed

lemma from_to_be_bytes:
  assumes "8 dvd LENGTH('a::len)"
  shows "from_be_bytes (to_be_bytes (w :: 'a word)) = w"
proof -
  from assms obtain k where k: "LENGTH('a) = 8 * k" by blast
  have "(256 :: nat) ^ k = 2 ^ (8 * k)"
    by (simp add: power_mult)
  then show ?thesis
    using k unsigned_less [of w, where ?'a = nat] by (simp add: from_be_bytes_def to_be_bytes_def be_value_be_bytes)
qed

end
