(* ===== verification/Std_Fs.thy ===== *)
theory Std_Fs
  imports Prelude "HOL-Library.AList"
begin

text \<open>
  What the program uses of the standard library's \<open>std::path\<close>, \<open>std::fs\<close>, \<open>std::io\<close> and
  \<open>core::str\<close>, for a Unix target.

  \<^item> Text is a \<open>string\<close> whose characters are the bytes of its UTF-8 encoding (\<open>as_bytes\<close>);
    \<open>from_utf8\<close> is the strict decoder.
  \<^item> A path is the string the program builds, joined with \<open>Path::join\<close>. An access resolves it to a
    \<open>key\<close>, the list of directory entries from the root, with \<open>.\<close>, \<open>..\<close> and repeated separators
    removed; relative paths start at the working directory, which is the root of the modelled tree.
    Symbolic links are not modelled.
  \<^item> The file system is an association list from keys to files and directories, with a fault
    function that lets any operation on any key fail: every theorem holds for every pattern of
    I/O failures. Operations that change the state return the state also when they fail.
  \<^item> An open file is a snapshot of its contents and a position. Renaming another file over its name
    does not change it, as on Unix.
\<close>

section \<open>Text\<close>

definition as_bytes :: "string \<Rightarrow> bytes" where
  "as_bytes s = map of_char s"

definition of_bytes :: "bytes \<Rightarrow> string" where
  "of_bytes bs = map (\<lambda>b. char_of (unat b)) bs"

definition in_range :: "u8 \<Rightarrow> u8 \<Rightarrow> u8 \<Rightarrow> bool" where
  "in_range lo hi b \<longleftrightarrow> lo \<le> b \<and> b \<le> hi"

abbreviation cont_byte :: "u8 \<Rightarrow> bool" where
  "cont_byte \<equiv> in_range 0x80 0xBF"

fun utf8_valid :: "bytes \<Rightarrow> bool" where
  "utf8_valid [] = True"
| "utf8_valid (b # bs) =
     (if b < 0x80 then utf8_valid bs
      else if in_range 0xC2 0xDF b then
        (case bs of b1 # bs1 \<Rightarrow> cont_byte b1 \<and> utf8_valid bs1 | _ \<Rightarrow> False)
      else if in_range 0xE0 0xEF b then
        (case bs of b1 # b2 # bs2 \<Rightarrow>
           (if b = 0xE0 then in_range 0xA0 0xBF b1
            else if b = 0xED then in_range 0x80 0x9F b1 else cont_byte b1)
           \<and> cont_byte b2 \<and> utf8_valid bs2
         | _ \<Rightarrow> False)
      else if in_range 0xF0 0xF4 b then
        (case bs of b1 # b2 # b3 # bs3 \<Rightarrow>
           (if b = 0xF0 then in_range 0x90 0xBF b1
            else if b = 0xF4 then in_range 0x80 0x8F b1 else cont_byte b1)
           \<and> cont_byte b2 \<and> cont_byte b3 \<and> utf8_valid bs3
         | _ \<Rightarrow> False)
      else False)"

definition from_utf8 :: "bytes \<Rightarrow> string option" where
  "from_utf8 bs = (if utf8_valid bs then Some (of_bytes bs) else None)"

text \<open>A Rust string: text whose bytes are valid UTF-8.\<close>

definition rust_str :: "string \<Rightarrow> bool" where
  "rust_str s \<longleftrightarrow> utf8_valid (as_bytes s)"

lemma unat_of_char [simp]: "unat (of_char c :: u8) = of_char c"
proof -
  have "(of_char c :: u8) = of_nat (of_char c)" by (rule of_nat_of_char [symmetric])
  then have "unat (of_char c :: u8) = take_bit 8 (of_char c)"
    by (simp only: unsigned_of_nat) simp
  also have "\<dots> = of_char c"
    using nat_of_char_less_256 [of c] by (simp add: take_bit_nat_eq_self)
  finally show ?thesis .
qed

lemma of_bytes_as_bytes [simp]: "of_bytes (as_bytes s) = s"
  by (simp add: of_bytes_def as_bytes_def comp_def)

lemma length_as_bytes [simp]: "length (as_bytes s) = length s"
  by (simp add: as_bytes_def)

lemma from_utf8_as_bytes: "rust_str s \<Longrightarrow> from_utf8 (as_bytes s) = Some s"
  by (simp add: from_utf8_def rust_str_def)

section \<open>Paths\<close>

type_synonym path = string
type_synonym key = "string list"

definition is_absolute :: "path \<Rightarrow> bool" where
  "is_absolute p = (case p of c # _ \<Rightarrow> c = CHR ''/'' | [] \<Rightarrow> False)"

definition path_join :: "path \<Rightarrow> path \<Rightarrow> path" where
  "path_join a b =
     (if is_absolute b then b
      else if a = [] \<or> last a = CHR ''/'' then a @ b
      else a @ ''/'' @ b)"

fun split_path :: "path \<Rightarrow> string list" where
  "split_path [] = [[]]"
| "split_path (c # cs) =
     (if c = CHR ''/'' then [] # split_path cs
      else (case split_path cs of w # ws \<Rightarrow> (c # w) # ws | [] \<Rightarrow> [[c]]))"

definition path_components :: "path \<Rightarrow> string list" where
  "path_components p = filter (\<lambda>c. c \<noteq> [] \<and> c \<noteq> ''.'') (split_path p)"

definition resolve :: "string list \<Rightarrow> key" where
  "resolve cs = foldl (\<lambda>k c. if c = ''..'' then butlast k else k @ [c]) [] cs"

definition path_key :: "path \<Rightarrow> key" where
  "path_key p = resolve (path_components p)"

text \<open>\<open>Path::parent\<close>, resolved; \<open>None\<close> when the path has no component.\<close>

definition parent_key :: "path \<Rightarrow> key option" where
  "parent_key p =
     (if path_components p = [] then None else Some (resolve (butlast (path_components p))))"

text \<open>A name that denotes an entry of the directory it is joined to.\<close>

definition plain_name :: "string \<Rightarrow> bool" where
  "plain_name n \<longleftrightarrow> n \<noteq> [] \<and> n \<noteq> ''.'' \<and> n \<noteq> ''..'' \<and> CHR ''/'' \<notin> set n"

section \<open>File system\<close>

datatype io_error =
  NotFound | PermissionDenied | AlreadyExists | NotADirectory | IsADirectory | InvalidInput
  | InvalidData | UnexpectedEof | OtherIo nat

datatype fs_op =
  OpStat | OpOpen | OpRead | OpReadDir | OpDirEntry | OpCreateDir | OpRemove | OpTempfile | OpWrite
  | OpRename

datatype node = File bytes | Dir

record fs =
  fs_nodes :: "(key \<times> node) list"
  fs_fault :: "fs_op \<Rightarrow> key \<Rightarrow> io_error option"

definition node_at :: "fs \<Rightarrow> key \<Rightarrow> node option" where
  "node_at s k = (if k = [] then Some Dir else map_of (fs_nodes s) k)"

definition set_node :: "key \<Rightarrow> node \<Rightarrow> fs \<Rightarrow> fs" where
  "set_node k n s = s\<lparr>fs_nodes := AList.update k n (fs_nodes s)\<rparr>"

definition del_node :: "key \<Rightarrow> fs \<Rightarrow> fs" where
  "del_node k s = s\<lparr>fs_nodes := AList.delete k (fs_nodes s)\<rparr>"

definition file_at :: "fs \<Rightarrow> key \<Rightarrow> bytes option" where
  "file_at s k = (case node_at s k of Some (File b) \<Rightarrow> Some b | _ \<Rightarrow> None)"

text \<open>\<open>Path::exists\<close>: false also when the path cannot be examined.\<close>

definition fs_exists :: "fs \<Rightarrow> path \<Rightarrow> bool" where
  "fs_exists s p =
     (fs_fault s OpStat (path_key p) = None \<and> node_at s (path_key p) \<noteq> None)"

definition fs_read :: "fs \<Rightarrow> path \<Rightarrow> (io_error, bytes) outcome" where
  "fs_read s p =
     (case fs_fault s OpOpen (path_key p) of
        Some e \<Rightarrow> Err e
      | None \<Rightarrow>
          (case node_at s (path_key p) of
             None \<Rightarrow> Err NotFound
           | Some Dir \<Rightarrow> Err IsADirectory
           | Some (File b) \<Rightarrow>
               (case fs_fault s OpRead (path_key p) of Some e \<Rightarrow> Err e | None \<Rightarrow> Ok b)))"

definition fs_read_to_string :: "fs \<Rightarrow> path \<Rightarrow> (io_error, string) outcome" where
  "fs_read_to_string s p = obind (fs_read s p) (\<lambda>b. ok_or InvalidData (from_utf8 b))"

text \<open>The entries of a directory, each of which may fail to be read on its own.\<close>

definition fs_read_dir :: "fs \<Rightarrow> path \<Rightarrow> (io_error, (io_error + string) list) outcome" where
  "fs_read_dir s p =
     (let k = path_key p in
      case fs_fault s OpReadDir k of
        Some e \<Rightarrow> Err e
      | None \<Rightarrow>
          (case node_at s k of
             None \<Rightarrow> Err NotFound
           | Some (File _) \<Rightarrow> Err NotADirectory
           | Some Dir \<Rightarrow>
               Ok (map (\<lambda>c. case fs_fault s OpDirEntry c of Some e \<Rightarrow> Inl e | None \<Rightarrow> Inr (last c))
                     (filter (\<lambda>c. c \<noteq> [] \<and> butlast c = k) (map fst (fs_nodes s))))))"

fun prefix_keys :: "key \<Rightarrow> key list" where
  "prefix_keys [] = []"
| "prefix_keys (c # cs) = [c] # map ((#) c) (prefix_keys cs)"

text \<open>
  \<open>fs::create_dir_all\<close> makes the missing directories from the outside in; those made before one fails
  stay.
\<close>

fun make_dirs :: "key list \<Rightarrow> fs \<Rightarrow> (io_error, unit) outcome \<times> fs" where
  "make_dirs [] s = (Ok (), s)"
| "make_dirs (q # qs) s =
     (case node_at s q of
        Some Dir \<Rightarrow> make_dirs qs s
      | Some (File _) \<Rightarrow> (Err (if qs = [] then AlreadyExists else NotADirectory), s)
      | None \<Rightarrow>
          (case fs_fault s OpCreateDir q of
             Some e \<Rightarrow> (Err e, s)
           | None \<Rightarrow> make_dirs qs (set_node q Dir s)))"

definition fs_create_dir_all :: "path \<Rightarrow> fs \<Rightarrow> (io_error, unit) outcome \<times> fs" where
  "fs_create_dir_all p s = make_dirs (prefix_keys (path_key p)) s"

definition fs_remove_file :: "path \<Rightarrow> fs \<Rightarrow> (io_error, unit) outcome \<times> fs" where
  "fs_remove_file p s =
     (let k = path_key p in
      case fs_fault s OpRemove k of
        Some e \<Rightarrow> (Err e, s)
      | None \<Rightarrow>
          (case node_at s k of
             None \<Rightarrow> (Err NotFound, s)
           | Some Dir \<Rightarrow> (Err IsADirectory, s)
           | Some (File _) \<Rightarrow> (Ok (), del_node k s)))"

section \<open>Open files\<close>

record file_handle =
  fh_data :: "io_error + bytes"
  fh_meta :: "io_error + nat"
  fh_pos :: nat

definition file_open :: "fs \<Rightarrow> path \<Rightarrow> (io_error, file_handle) outcome" where
  "file_open s p =
     (let k = path_key p in
      case fs_fault s OpOpen k of
        Some e \<Rightarrow> Err e
      | None \<Rightarrow>
          (case node_at s k of
             None \<Rightarrow> Err NotFound
           | Some Dir \<Rightarrow> Ok \<lparr>fh_data = Inl IsADirectory, fh_meta = Inr 0, fh_pos = 0\<rparr>
           | Some (File b) \<Rightarrow>
               Ok \<lparr>fh_data = (case fs_fault s OpRead k of Some e \<Rightarrow> Inl e | None \<Rightarrow> Inr b),
                   fh_meta = (case fs_fault s OpStat k of Some e \<Rightarrow> Inl e | None \<Rightarrow> Inr (length b)),
                   fh_pos = 0\<rparr>))"

text \<open>\<open>Read::read_exact\<close> into a buffer of \<open>n\<close> bytes; an empty buffer needs no read at all.\<close>

definition read_exact :: "file_handle \<Rightarrow> nat \<Rightarrow> (io_error, bytes \<times> file_handle) outcome" where
  "read_exact h n =
     (if n = 0 then Ok ([], h)
      else case fh_data h of
        Inl e \<Rightarrow> Err e
      | Inr b \<Rightarrow>
          if fh_pos h + n \<le> length b
          then Ok (take n (drop (fh_pos h) b), h\<lparr>fh_pos := fh_pos h + n\<rparr>)
          else Err UnexpectedEof)"

text \<open>\<open>Seek::seek(SeekFrom::Start(off))\<close>: the offset is passed to the system as an \<open>i64\<close>.\<close>

definition seek_start :: "file_handle \<Rightarrow> u64 \<Rightarrow> (io_error, file_handle) outcome" where
  "seek_start h off =
     (if unat off < 2 ^ 63 then Ok (h\<lparr>fh_pos := unat off\<rparr>) else Err InvalidInput)"

text \<open>
  \<open>Read::read\<close> into a buffer of \<open>n\<close> bytes returns at least one and at most \<open>n\<close> of the bytes that
  are left, and none only at the end; \<open>short\<close> is how many the system chooses to return.
\<close>

definition file_read :: "(nat \<Rightarrow> nat) \<Rightarrow> file_handle \<Rightarrow> nat \<Rightarrow> (io_error, bytes \<times> file_handle) outcome" where
  "file_read short h n =
     (case fh_data h of
        Inl e \<Rightarrow> Err e
      | Inr b \<Rightarrow>
          let left = length b - fh_pos h; k = min (min n left) (max 1 (short (fh_pos h)))
          in Ok (take k (drop (fh_pos h) b), h\<lparr>fh_pos := fh_pos h + k\<rparr>))"

section \<open>Lemmas\<close>

lemma node_at_set_node [simp]:
  "k \<noteq> [] \<Longrightarrow> node_at (set_node k n s) k' = (if k' = k then Some n else node_at s k')"
  by (auto simp: node_at_def set_node_def update_conv')

lemma node_at_del_node [simp]:
  "k \<noteq> [] \<Longrightarrow> node_at (del_node k s) k' = (if k' = k then None else node_at s k')"
  by (auto simp: node_at_def del_node_def delete_conv')

lemma fs_fault_updates [simp]:
  "fs_fault (set_node k n s) = fs_fault s" "fs_fault (del_node k s) = fs_fault s"
  by (simp_all add: set_node_def del_node_def)

lemma split_path_neq_Nil [simp]: "split_path p \<noteq> []"
  by (induction p) (auto split: list.splits)

lemma split_path_append_sep: "split_path (a @ CHR ''/'' # b) = split_path a @ split_path b"
proof (induction a)
  case Nil
  then show ?case by simp
next
  case (Cons c a)
  then show ?case by (auto split: list.splits simp: append_eq_Cons_conv)
qed

lemma split_path_plain: "CHR ''/'' \<notin> set n \<Longrightarrow> split_path n = [n]"
  by (induction n) auto

lemma plain_name_not_absolute: "plain_name n \<Longrightarrow> \<not> is_absolute n"
  by (cases n) (auto simp: plain_name_def is_absolute_def)

lemma path_components_snoc:
  assumes "plain_name n"
  shows "path_components (path_join d n) = path_components d @ [n]"
proof (cases "d = [] \<or> last d = CHR ''/''")
  case True
  then consider "d = []" | d' where "d = d' @ [CHR ''/'']"
    by (metis append_butlast_last_id)
  then show ?thesis
  proof cases
    case 1
    then show ?thesis using assms
      by (simp add: path_join_def plain_name_not_absolute path_components_def split_path_plain plain_name_def)
  next
    case 2
    then show ?thesis using assms split_path_append_sep [of d' "[]"] split_path_append_sep [of d' n]
      by (simp add: path_join_def plain_name_not_absolute path_components_def split_path_plain plain_name_def)
  qed
next
  case False
  then show ?thesis using assms split_path_append_sep [of d n]
    by (simp add: path_join_def plain_name_not_absolute path_components_def split_path_plain plain_name_def)
qed

text \<open>A plain name joined to a directory is an entry of that directory.\<close>

lemma path_key_join: "plain_name n \<Longrightarrow> path_key (path_join d n) = path_key d @ [n]"
  by (simp add: path_key_def path_components_snoc resolve_def) (simp add: plain_name_def)

lemma parent_key_join: "plain_name n \<Longrightarrow> parent_key (path_join d n) = Some (path_key d)"
  by (simp add: parent_key_def path_components_snoc path_key_def)

lemma read_exact_Ok_iff:
  "read_exact h n = Ok (bs, h') \<longleftrightarrow>
     (n = 0 \<and> bs = [] \<and> h' = h) \<or>
     (n \<noteq> 0 \<and> (\<exists>b. fh_data h = Inr b \<and> fh_pos h + n \<le> length b
        \<and> bs = take n (drop (fh_pos h) b) \<and> h' = h\<lparr>fh_pos := fh_pos h + n\<rparr>))"
  by (auto simp: read_exact_def split: sum.splits if_splits)

lemma read_exact_length: "read_exact h n = Ok (bs, h') \<Longrightarrow> length bs = n"
  by (auto simp: read_exact_Ok_iff)

lemma read_exact_data:
  "read_exact h n = Ok (bs, h') \<Longrightarrow> fh_data h' = fh_data h \<and> fh_meta h' = fh_meta h"
  by (auto simp: read_exact_Ok_iff)

lemma no_panic_io [panic_free, simp]:
  "fs_read s p \<noteq> Panic" "file_open s p \<noteq> Panic" "read_exact h n \<noteq> Panic"
  "seek_start h off \<noteq> Panic" "file_read short h n \<noteq> Panic" "fs_read_dir s p \<noteq> Panic"
  by (auto simp: fs_read_def file_open_def read_exact_def seek_start_def file_read_def
      fs_read_dir_def Let_def split: option.splits node.splits sum.splits)

end
