(* ===== verification/Sha256.thy ===== *)
theory Sha256
  imports Prelude
begin

text \<open>
  The self-contained SHA-256 of \<open>upki/src/sha256.rs\<close>: the incremental \<open>Context\<close> with its block
  buffer (\<open>Blockwise\<close>), the padding, and the compression function over a 16-word window of the
  message schedule. The reference is the FIPS 180-4 definition: padding of the whole message and
  the 64-word schedule. The main results are that every sequence of \<open>update\<close> calls followed by
  \<open>finish\<close> returns the reference hash of the concatenated input, panics exactly when the bit length
  does not fit the \<open>usize\<close> counter, and that no slice operation on the way is out of range.
\<close>

section \<open>Compression function\<close>

definition ch :: "u32 \<Rightarrow> u32 \<Rightarrow> u32 \<Rightarrow> u32" where
  "ch x y z = (x AND y) XOR (NOT x AND z)"

definition maj :: "u32 \<Rightarrow> u32 \<Rightarrow> u32 \<Rightarrow> u32" where
  "maj x y z = (x AND y) XOR (x AND z) XOR (y AND z)"

definition bsig0 :: "u32 \<Rightarrow> u32" where
  "bsig0 x = word_rotr 2 x XOR word_rotr 13 x XOR word_rotr 22 x"

definition bsig1 :: "u32 \<Rightarrow> u32" where
  "bsig1 x = word_rotr 6 x XOR word_rotr 11 x XOR word_rotr 25 x"

definition ssig0 :: "u32 \<Rightarrow> u32" where
  "ssig0 x = word_rotr 7 x XOR word_rotr 18 x XOR drop_bit 3 x"

definition ssig1 :: "u32 \<Rightarrow> u32" where
  "ssig1 x = word_rotr 17 x XOR word_rotr 19 x XOR drop_bit 10 x"

text \<open>The table of round constants, in the eight rows of \<open>sha256.rs\<close>.\<close>

definition K :: "u32 list" where
  "K = concat [
     [0x428a2f98, 0x71374491, 0xb5c0fbcf, 0xe9b5dba5, 0x3956c25b, 0x59f111f1, 0x923f82a4, 0xab1c5ed5],
     [0xd807aa98, 0x12835b01, 0x243185be, 0x550c7dc3, 0x72be5d74, 0x80deb1fe, 0x9bdc06a7, 0xc19bf174],
     [0xe49b69c1, 0xefbe4786, 0x0fc19dc6, 0x240ca1cc, 0x2de92c6f, 0x4a7484aa, 0x5cb0a9dc, 0x76f988da],
     [0x983e5152, 0xa831c66d, 0xb00327c8, 0xbf597fc7, 0xc6e00bf3, 0xd5a79147, 0x06ca6351, 0x14292967],
     [0x27b70a85, 0x2e1b2138, 0x4d2c6dfc, 0x53380d13, 0x650a7354, 0x766a0abb, 0x81c2c92e, 0x92722c85],
     [0xa2bfe8a1, 0xa81a664b, 0xc24b8b70, 0xc76c51a3, 0xd192e819, 0xd6990624, 0xf40e3585, 0x106aa070],
     [0x19a4c116, 0x1e376c08, 0x2748774c, 0x34b0bcb5, 0x391c0cb3, 0x4ed8aa4a, 0x5b9cca4f, 0x682e6ff3],
     [0x748f82ee, 0x78a5636f, 0x84c87814, 0x8cc70208, 0x90befffa, 0xa4506ceb, 0xbef9a3f7, 0xc67178f2]]"

text \<open>The working variables \<open>a\<close> to \<open>h\<close>, and one iteration of the loop \<open>for t in 0..64\<close>.\<close>

type_synonym vars = "u32 \<times> u32 \<times> u32 \<times> u32 \<times> u32 \<times> u32 \<times> u32 \<times> u32"

definition schedule_word :: "bytes \<Rightarrow> nat \<Rightarrow> u32 list \<Rightarrow> u32" where
  "schedule_word block t w =
     (if t < 16 then from_be_bytes (take 4 (drop (t * 4) block))
      else ssig1 (w ! ((t - 2) mod 16)) + w ! ((t - 7) mod 16)
           + ssig0 (w ! ((t - 15) mod 16)) + w ! ((t - 16) mod 16))"

fun round_vars :: "u32 \<Rightarrow> u32 \<Rightarrow> vars \<Rightarrow> vars" where
  "round_vars k w_t (a, b, c, d, e, f, g, h) =
     (let t1 = h + bsig1 e + ch e f g + k + w_t;
          t2 = bsig0 a + maj a b c
      in (t1 + t2, a, b, c, d + t1, e, f, g))"

fun compress_step :: "bytes \<Rightarrow> nat \<Rightarrow> u32 list \<times> vars \<Rightarrow> u32 list \<times> vars" where
  "compress_step block t (w, v) =
     (let w_t = schedule_word block t w in (w[t mod 16 := w_t], round_vars (K ! t) w_t v))"

fun load_vars :: "u32 list \<Rightarrow> vars" where
  "load_vars s = (s ! 0, s ! 1, s ! 2, s ! 3, s ! 4, s ! 5, s ! 6, s ! 7)"

fun add_vars :: "u32 list \<Rightarrow> vars \<Rightarrow> u32 list" where
  "add_vars s (a, b, c, d, e, f, g, h) =
     [s ! 0 + a, s ! 1 + b, s ! 2 + c, s ! 3 + d, s ! 4 + e, s ! 5 + f, s ! 6 + g, s ! 7 + h]"

definition sha256_compress_block :: "u32 list \<Rightarrow> bytes \<Rightarrow> u32 list" where
  "sha256_compress_block state block =
     add_vars state (snd (fold (compress_step block) [0..<64] (replicate 16 0, load_vars state)))"

function chunks_exact :: "nat \<Rightarrow> 'a list \<Rightarrow> 'a list list" where
  "chunks_exact n xs =
     (if n = 0 \<or> length xs < n then [] else take n xs # chunks_exact n (drop n xs))"
  by pat_completeness auto
termination
  by (relation "measure (\<lambda>(n, xs). length xs)") auto

declare chunks_exact.simps [simp del]

definition sha256_compress_blocks :: "u32 list \<Rightarrow> bytes \<Rightarrow> u32 list" where
  "sha256_compress_blocks state blocks = foldl sha256_compress_block state (chunks_exact 64 blocks)"

section \<open>Buffering and padding\<close>

abbreviation (input) BLOCK_SZ :: nat where
  "BLOCK_SZ \<equiv> 64"

abbreviation (input) OUTPUT_SZ :: nat where
  "OUTPUT_SZ \<equiv> 32"

record blockwise =
  bw_buffer :: bytes
  bw_used :: nat

definition blockwise_new :: blockwise where
  "blockwise_new = \<lparr>bw_buffer = replicate BLOCK_SZ 0, bw_used = 0\<rparr>"

definition add_leading :: "blockwise \<Rightarrow> bytes \<Rightarrow> ('e, blockwise \<times> bytes) outcome" where
  "add_leading b bs =
     (if bw_used b = 0 then Ok (b, bs)
      else obind (usize_sub BLOCK_SZ (bw_used b)) (\<lambda>space.
        let n = min (length bs) space; taken = take n bs; returned = drop n bs
        in obind (copy_at (bw_used b) taken (bw_buffer b)) (\<lambda>buf.
             Ok (b\<lparr>bw_buffer := buf, bw_used := bw_used b + n\<rparr>, returned))))"

definition take_block :: "blockwise \<Rightarrow> blockwise \<times> bytes option" where
  "take_block b =
     (if bw_used b = BLOCK_SZ then (b\<lparr>bw_used := 0\<rparr>, Some (bw_buffer b)) else (b, None))"

definition add_trailing :: "blockwise \<Rightarrow> bytes \<Rightarrow> ('e, blockwise) outcome" where
  "add_trailing b trailing =
     obind (copy_at 0 trailing (bw_buffer b)) (\<lambda>buf.
       Ok (b\<lparr>bw_buffer := buf, bw_used := bw_used b + length trailing\<rparr>))"

datatype final_blocks = One bytes | Two bytes bytes

fun final_as_ref :: "final_blocks \<Rightarrow> bytes" where
  "final_as_ref (One one) = one"
| "final_as_ref (Two first second) = first @ second"

definition md_pad_with_length ::
  "blockwise \<Rightarrow> bytes \<Rightarrow> ('e, blockwise \<times> final_blocks) outcome" where
  "md_pad_with_length b length_bits =
     obind (usize_sub BLOCK_SZ (bw_used b)) (\<lambda>space.
       if 1 + length length_bits > space
       then
         obind (add_leading b [0x80]) (\<lambda>(b1, _).
         obind (add_leading b1 (replicate BLOCK_SZ 0)) (\<lambda>(b2, _).
           case take_block b2 of (b3, full) \<Rightarrow>
             obind (unwrap full) (\<lambda>first.
             obind (usize_sub BLOCK_SZ (length length_bits)) (\<lambda>at.
             obind (copy_at at length_bits (replicate BLOCK_SZ 0)) (\<lambda>second.
               Ok (b3, Two first second))))))
       else
         obind (slice_from (bw_used b) (bw_buffer b)) (\<lambda>trailer.
         obind (usize_sub (length trailer) (length length_bits)) (\<lambda>padding.
         obind (usize_sub padding 1) (\<lambda>zeroes.
           let buf = take (bw_used b) (bw_buffer b) @ [0x80] @ replicate zeroes 0x00 @ length_bits
           in Ok (b\<lparr>bw_buffer := buf, bw_used := 0\<rparr>, One buf)))))"

section \<open>Context\<close>

type_synonym digest = bytes

record sha_context =
  ctx_h :: "u32 list"
  ctx_blockwise :: blockwise
  ctx_nblocks :: nat

definition initial_h :: "u32 list" where
  "initial_h = [0x6a09e667, 0xbb67ae85, 0x3c6ef372, 0xa54ff53a,
                0x510e527f, 0x9b05688c, 0x1f83d9ab, 0x5be0cd19]"

definition context_new :: sha_context where
  "context_new = \<lparr>ctx_h = initial_h, ctx_blockwise = blockwise_new, ctx_nblocks = 0\<rparr>"

text \<open>The \<open>debug_assert!\<close>s are kept as panics: the theorems below show that they never fire.\<close>

definition update_blocks :: "sha_context \<Rightarrow> bytes \<Rightarrow> ('e, sha_context) outcome" where
  "update_blocks c blocks =
     obind (assert_that (length blocks mod BLOCK_SZ = 0)) (\<lambda>_.
       if blocks \<noteq> []
       then Ok (c\<lparr>ctx_h := sha256_compress_blocks (ctx_h c) blocks,
                  ctx_nblocks := min usize_max (ctx_nblocks c + length blocks div BLOCK_SZ)\<rparr>)
       else Ok c)"

text \<open>The second half of \<open>update\<close>: the whole blocks of what is left, then the remainder.\<close>

definition update_rest :: "sha_context \<Rightarrow> bytes \<Rightarrow> ('e, sha_context) outcome" where
  "update_rest c rest =
     (let whole_len = length rest - (length rest AND (BLOCK_SZ - 1));
          whole_blocks = take whole_len rest; remainder = drop whole_len rest
      in obind (update_blocks c whole_blocks) (\<lambda>c1.
         obind (add_trailing (ctx_blockwise c1) remainder) (\<lambda>b.
           Ok (c1\<lparr>ctx_blockwise := b\<rparr>))))"

definition context_update :: "sha_context \<Rightarrow> bytes \<Rightarrow> ('e, sha_context) outcome" where
  "context_update c bs =
     (if bw_used (ctx_blockwise c) = 0 \<and> length bs mod BLOCK_SZ = 0 then update_blocks c bs
      else
        obind (add_leading (ctx_blockwise c) bs) (\<lambda>(b1, rest).
          case take_block b1 of (b2, full) \<Rightarrow>
            obind (case full of
                     Some block \<Rightarrow> update_blocks (c\<lparr>ctx_blockwise := b2\<rparr>) block
                   | None \<Rightarrow> Ok (c\<lparr>ctx_blockwise := b2\<rparr>)) (\<lambda>c2. update_rest c2 rest)))"

definition checked_mul :: "nat \<Rightarrow> nat \<Rightarrow> nat option" where
  "checked_mul a b = (if a * b \<le> usize_max then Some (a * b) else None)"

definition checked_add :: "nat \<Rightarrow> nat \<Rightarrow> nat option" where
  "checked_add a b = (if a + b \<le> usize_max then Some (a + b) else None)"

definition context_finish :: "sha_context \<Rightarrow> ('e, digest) outcome" where
  "context_finish c =
     obind (unwrap (Option.bind (checked_mul (ctx_nblocks c) BLOCK_SZ)
                      (\<lambda>n. checked_add n (bw_used (ctx_blockwise c))))) (\<lambda>total.
     obind (unwrap (checked_mul total 8)) (\<lambda>bits.
     obind (md_pad_with_length (ctx_blockwise c) (to_be_bytes (of_nat bits :: u64))) (\<lambda>(b, last_blocks).
     obind (update_blocks (c\<lparr>ctx_blockwise := b\<rparr>) (final_as_ref last_blocks)) (\<lambda>c2.
       Ok (concat (map to_be_bytes (ctx_h c2)))))))"

text \<open>Feeding a sequence of slices, as \<open>impl From<&[&[u8]]> for Digest\<close> does.\<close>

fun feed :: "('c \<Rightarrow> bytes \<Rightarrow> ('e, 'c) outcome) \<Rightarrow> 'c \<Rightarrow> bytes list \<Rightarrow> ('e, 'c) outcome" where
  "feed upd c [] = Ok c"
| "feed upd c (s # slices) = obind (upd c s) (\<lambda>c'. feed upd c' slices)"

definition digest_from :: "bytes list \<Rightarrow> ('e, digest) outcome" where
  "digest_from slices = obind (feed context_update context_new slices) context_finish"

section \<open>Reference: FIPS 180-4\<close>

fun fips_W :: "bytes \<Rightarrow> nat \<Rightarrow> u32" where
  "fips_W block t =
     (if t < 16 then from_be_bytes (take 4 (drop (4 * t) block))
      else ssig1 (fips_W block (t - 2)) + fips_W block (t - 7)
           + ssig0 (fips_W block (t - 15)) + fips_W block (t - 16))"

declare fips_W.simps [simp del]

definition fips_compress :: "u32 list \<Rightarrow> bytes \<Rightarrow> u32 list" where
  "fips_compress H block =
     add_vars H (fold (\<lambda>t. round_vars (K ! t) (fips_W block t)) [0..<64] (load_vars H))"

definition fips_pad :: "bytes \<Rightarrow> bytes" where
  "fips_pad msg =
     msg @ [0x80] @ replicate ((119 - length msg mod 64) mod 64) 0
         @ be_bytes 8 (8 * length msg)"

definition fips_sha256 :: "bytes \<Rightarrow> bytes" where
  "fips_sha256 msg =
     concat (map to_be_bytes (foldl fips_compress initial_h (chunks_exact 64 (fips_pad msg))))"


section \<open>The windowed schedule is the full schedule\<close>

lemma length_K [simp]: "length K = 64"
  by (simp add: K_def)

definition window :: "bytes \<Rightarrow> nat \<Rightarrow> u32 list \<Rightarrow> bool" where
  "window block t w \<longleftrightarrow> length w = 16 \<and> (\<forall>i. i < t \<and> t \<le> i + 16 \<longrightarrow> w ! (i mod 16) = fips_W block i)"

lemma window_schedule_word:
  assumes "window block t w"
  shows "schedule_word block t w = fips_W block t"
proof (cases "t < 16")
  case True
  then show ?thesis by (simp add: schedule_word_def fips_W.simps [of block t] mult.commute)
next
  case False
  with assms have "w ! ((t - k) mod 16) = fips_W block (t - k)" if "1 \<le> k" "k \<le> 16" for k
    using that unfolding window_def by auto
  from this [of 2] this [of 7] this [of 15] this [of 16] False show ?thesis
    by (simp add: schedule_word_def fips_W.simps [of block t])
qed

lemma window_step:
  assumes "window block t w"
  shows "window block (Suc t) (w[t mod 16 := fips_W block t])"
  unfolding window_def
proof (intro conjI allI impI)
  show "length (w[t mod 16 := fips_W block t]) = 16"
    using assms by (simp add: window_def)
next
  fix i assume i: "i < Suc t \<and> Suc t \<le> i + 16"
  show "w[t mod 16 := fips_W block t] ! (i mod 16) = fips_W block i"
  proof (cases "i = t")
    case True
    then show ?thesis using assms by (simp add: window_def)
  next
    case False
    have "t mod 16 \<noteq> i mod 16"
    proof
      assume "t mod 16 = i mod 16"
      with i have "16 dvd t - i" by (simp add: mod_eq_dvd_iff_nat)
      with i False show False by (auto dest: dvd_imp_le)
    qed
    then show ?thesis using assms i False by (simp add: window_def)
  qed
qed

lemma fold_compress_step:
  "window block 0 w \<Longrightarrow>
   \<exists>w'. fold (compress_step block) [0..<n] (w, v)
        = (w', fold (\<lambda>t. round_vars (K ! t) (fips_W block t)) [0..<n] v) \<and> window block n w'"
proof (induction n)
  case 0
  then show ?case by simp
next
  case (Suc n)
  then obtain w' where
    "fold (compress_step block) [0..<n] (w, v)
       = (w', fold (\<lambda>t. round_vars (K ! t) (fips_W block t)) [0..<n] v)"
    and "window block n w'" by blast
  then show ?case
    using window_step [of block n w'] by (simp add: window_schedule_word Let_def)
qed

theorem compress_block_eq_fips: "sha256_compress_block H block = fips_compress H block"
proof -
  have "window block 0 (replicate 16 0)" by (simp add: window_def)
  from fold_compress_step [OF this, of 64 "load_vars H"] show ?thesis
    by (auto simp: sha256_compress_block_def fips_compress_def simp del: load_vars.simps)
qed

section \<open>Blocks\<close>

lemma chunks_exact_short [simp]: "length xs < n \<Longrightarrow> chunks_exact n xs = []"
  by (subst chunks_exact.simps) simp

lemma chunks_exact_Nil [simp]: "chunks_exact n [] = []"
  by (subst chunks_exact.simps) auto

lemma chunks_exact_one:
  "0 < n \<Longrightarrow> length xs = n \<Longrightarrow> chunks_exact n (xs @ ys) = xs # chunks_exact n ys"
  by (simp add: chunks_exact.simps [of n "xs @ ys"])

lemma chunks_exact_append:
  "0 < n \<Longrightarrow> n dvd length xs \<Longrightarrow> chunks_exact n (xs @ ys) = chunks_exact n xs @ chunks_exact n ys"
proof (induction n xs rule: chunks_exact.induct)
  case (1 n xs)
  show ?case
  proof (cases "xs = []")
    case True
    then show ?thesis by simp
  next
    case False
    with "1.prems" have len: "n \<le> length xs" by (auto dest: dvd_imp_le)
    with "1.prems" have "n dvd length (drop n xs)" by (auto intro: dvd_diff_nat)
    with "1" len have "chunks_exact n (drop n xs @ ys) = chunks_exact n (drop n xs) @ chunks_exact n ys"
      by simp
    then show ?thesis
      using len "1.prems" chunks_exact_one [of n "take n xs" "drop n xs @ ys"]
        chunks_exact_one [of n "take n xs" "drop n xs"]
      by (simp flip: append_assoc)
  qed
qed

lemma chunks_exact_lengths: "block \<in> set (chunks_exact n xs) \<Longrightarrow> length block = n"
proof (induction n xs rule: chunks_exact.induct)
  case (1 n xs)
  then show ?case by (subst (asm) chunks_exact.simps) (auto split: if_splits)
qed

lemma compress_blocks_append:
  "64 dvd length xs \<Longrightarrow>
   sha256_compress_blocks H (xs @ ys) = sha256_compress_blocks (sha256_compress_blocks H xs) ys"
  by (simp add: sha256_compress_blocks_def chunks_exact_append)

lemma compress_blocks_Nil [simp]: "sha256_compress_blocks H [] = H"
  by (simp add: sha256_compress_blocks_def)

lemma length_compress_block [simp]: "length (sha256_compress_block H block) = 8"
proof -
  have "length (add_vars s v) = 8" for s v
    by (cases "(s, v)" rule: add_vars.cases) simp
  then show ?thesis by (simp add: sha256_compress_block_def)
qed

lemma length_compress_blocks: "length H = 8 \<Longrightarrow> length (sha256_compress_blocks H bs) = 8"
proof -
  assume "length H = 8"
  then have "length (foldl sha256_compress_block H blocks) = 8" for blocks
    by (induction blocks arbitrary: H) auto
  then show ?thesis by (simp add: sha256_compress_blocks_def)
qed

section \<open>Streaming interface\<close>

text \<open>
  What a client of a streaming hash relies on: a state represents the bytes absorbed so far,
  absorbing more never fails, and finishing gives a value that depends on the absorbed bytes only.
  Every client of \<open>Context\<close> (the certificate key, \<open>Digest::from\<close>, the file hasher) goes through it.
\<close>

locale hash_stream =
  fixes init :: "'c"
    and upd :: "'c \<Rightarrow> bytes \<Rightarrow> ('e, 'c) outcome"
    and fin :: "'c \<Rightarrow> ('e, digest) outcome"
    and represents :: "'c \<Rightarrow> bytes \<Rightarrow> bool"
    and spec :: "bytes \<Rightarrow> ('e, digest) outcome"
  assumes represents_init: "represents init []"
    and represents_upd: "represents c m \<Longrightarrow> \<exists>c'. upd c bs = Ok c' \<and> represents c' (m @ bs)"
    and fin_spec: "represents c m \<Longrightarrow> fin c = spec m"
begin

lemma represents_feed:
  "represents c m \<Longrightarrow> \<exists>c'. feed upd c slices = Ok c' \<and> represents c' (m @ concat slices)"
proof (induction slices arbitrary: c m)
  case Nil
  then show ?case by simp
next
  case (Cons s slices)
  from represents_upd [OF Cons.prems, of s] obtain c' where
    "upd c s = Ok c'" "represents c' (m @ s)" by blast
  with Cons.IH [of c' "m @ s"] show ?case by simp
qed

lemma feed_fin: "obind (feed upd init slices) fin = spec (concat slices)"
  using represents_feed [OF represents_init, of slices] fin_spec by auto

lemma chunking_irrelevant:
  "concat xs = concat ys \<Longrightarrow> obind (feed upd init xs) fin = obind (feed upd init ys) fin"
  by (simp add: feed_fin)

end

section \<open>The context implements the streaming interface\<close>

definition ctx_parts :: "sha_context \<Rightarrow> bytes \<Rightarrow> bytes \<Rightarrow> bool" where
  "ctx_parts c blocks tail \<longleftrightarrow>
     64 dvd length blocks \<and> length tail < 64
     \<and> length (bw_buffer (ctx_blockwise c)) = 64
     \<and> bw_used (ctx_blockwise c) = length tail
     \<and> take (length tail) (bw_buffer (ctx_blockwise c)) = tail
     \<and> ctx_h c = sha256_compress_blocks initial_h blocks
     \<and> ctx_nblocks c = min usize_max (length blocks div 64)"

definition ctx_represents :: "sha_context \<Rightarrow> bytes \<Rightarrow> bool" where
  "ctx_represents c m \<longleftrightarrow> (\<exists>blocks tail. m = blocks @ tail \<and> ctx_parts c blocks tail)"

lemma ctx_represents_new: "ctx_represents context_new []"
  by (auto simp: ctx_represents_def ctx_parts_def context_new_def blockwise_new_def
      sha256_compress_blocks_def)

lemma ctx_parts_update_blocks:
  assumes "ctx_parts c blocks []" and "64 dvd length bs"
  shows "\<exists>c'. update_blocks c bs = (Ok c' :: ('e, sha_context) outcome) \<and> ctx_parts c' (blocks @ bs) []"
proof -
  from assms(1) have "64 dvd length blocks" by (simp add: ctx_parts_def)
  with assms show ?thesis
    by (auto simp: update_blocks_def assert_that_def ctx_parts_def compress_blocks_append)
qed

lemma nat_and_63: "(n :: nat) AND 63 = n mod 64"
proof -
  have "(63 :: nat) = mask 6" by (simp add: mask_eq_exp_minus_1)
  then have "n AND 63 = take_bit 6 n" by (simp only: take_bit_eq_mask)
  then show ?thesis by (simp add: take_bit_eq_mod)
qed

lemma whole_len: "length (take (length rest - (length rest AND 63)) rest) mod 64 = 0"
  by (simp add: nat_and_63 minus_mod_eq_mult_div)

lemma ctx_parts_trailing:
  assumes "ctx_parts c blocks []" and "length r < 64"
  shows "\<exists>b. add_trailing (ctx_blockwise c) r = (Ok b :: ('e, blockwise) outcome) \<and> ctx_parts (c\<lparr>ctx_blockwise := b\<rparr>) blocks r"
  using assms by (auto simp: add_trailing_def copy_at_def ctx_parts_def)

lemma ctx_parts_update_rest:
  assumes "ctx_parts c blocks []"
  shows "\<exists>c' tail' blocks'. update_rest c rest = (Ok c' :: ('e, sha_context) outcome)
           \<and> ctx_parts c' blocks' tail' \<and> blocks' @ tail' = blocks @ rest"
proof -
  let ?wl = "length rest - (length rest AND 63)"
  have "64 dvd length (take ?wl rest)"
    using whole_len [of rest] by (simp add: mod_eq_0_iff_dvd)
  from ctx_parts_update_blocks [OF assms(1) this] obtain c1 where
    c1: "update_blocks c (take ?wl rest) = (Ok c1 :: ('e, sha_context) outcome)"
      "ctx_parts c1 (blocks @ take ?wl rest) []" by blast
  have "length (drop ?wl rest) < 64"
    by (simp add: nat_and_63)
  from ctx_parts_trailing [OF c1(2) this] obtain b where
    "add_trailing (ctx_blockwise c1) (drop ?wl rest) = (Ok b :: ('e, blockwise) outcome)"
    and "ctx_parts (c1\<lparr>ctx_blockwise := b\<rparr>) (blocks @ take ?wl rest) (drop ?wl rest)" by blast
  moreover from this c1 have
    "update_rest c rest = (Ok (c1\<lparr>ctx_blockwise := b\<rparr>) :: ('e, sha_context) outcome)"
    by (simp add: update_rest_def Let_def)
  ultimately show ?thesis by fastforce
qed

lemma context_update_empty_buffer:
  assumes parts: "ctx_parts c blocks []"
  shows "\<exists>c' tail' blocks'. context_update c bs = (Ok c' :: ('e, sha_context) outcome)
           \<and> ctx_parts c' blocks' tail' \<and> blocks' @ tail' = blocks @ bs"
proof (cases "64 dvd length bs")
  case True
  with ctx_parts_update_blocks [OF parts True] parts show ?thesis
    by (fastforce simp: context_update_def ctx_parts_def mod_eq_0_iff_dvd)
next
  case False
  with parts have "context_update c bs = (update_rest c bs :: ('e, sha_context) outcome)"
    by (simp add: context_update_def add_leading_def take_block_def ctx_parts_def mod_eq_0_iff_dvd)
  with ctx_parts_update_rest [OF parts, of bs] show ?thesis by simp
qed

lemma context_update_partial:
  assumes parts: "ctx_parts c blocks tail" and ne: "tail \<noteq> []" and fits: "length tail + length bs < 64"
  shows "\<exists>c'. context_update c bs = (Ok c' :: ('e, sha_context) outcome) \<and> ctx_parts c' blocks (tail @ bs)"
proof -
  let ?b = "ctx_blockwise c"
  have "length tail < 64" "length (bw_buffer ?b) = 64" "bw_used ?b = length tail"
    "take (length tail) (bw_buffer ?b) = tail"
    using parts by (auto simp: ctx_parts_def)
  with ne fits parts show ?thesis
    by (auto simp: context_update_def add_leading_def take_block_def add_trailing_def copy_at_def
        usize_sub_def update_rest_def update_blocks_def assert_that_def ctx_parts_def Let_def)
qed

lemma context_update_fills:
  assumes parts: "ctx_parts c blocks tail" and ne: "tail \<noteq> []" and full: "64 \<le> length tail + length bs"
  shows "\<exists>c' tail' blocks'. context_update c bs = (Ok c' :: ('e, sha_context) outcome)
           \<and> ctx_parts c' blocks' tail' \<and> blocks' @ tail' = blocks @ tail @ bs"
proof -
  let ?b = "ctx_blockwise c" and ?n = "64 - length tail"
  let ?block = "tail @ take ?n bs" and ?rest = "drop ?n bs"
  let ?b1 = "?b\<lparr>bw_buffer := ?block, bw_used := 64\<rparr>" and ?b2 = "?b\<lparr>bw_buffer := ?block, bw_used := 0\<rparr>"
  have buf: "length tail < 64" "length (bw_buffer ?b) = 64" "bw_used ?b = length tail"
    "take (length tail) (bw_buffer ?b) = tail" "64 dvd length blocks"
    using parts by (auto simp: ctx_parts_def)
  have len: "length ?block = 64" using buf full by simp
  have "min (length bs) ?n = ?n" using full by simp
  then have lead: "add_leading ?b bs = (Ok (?b1, ?rest) :: ('e, blockwise \<times> bytes) outcome)"
    using buf ne by (simp add: add_leading_def usize_sub_def copy_at_def Let_def)
  let ?c2 = "c\<lparr>ctx_blockwise := ?b2,
               ctx_h := sha256_compress_blocks (ctx_h c) ?block,
               ctx_nblocks := min usize_max (ctx_nblocks c + 1)\<rparr>"
  have blk: "update_blocks (c\<lparr>ctx_blockwise := ?b2\<rparr>) ?block = (Ok ?c2 :: ('e, sha_context) outcome)"
    using len ne by (simp add: update_blocks_def assert_that_def)
  have "ctx_parts ?c2 (blocks @ ?block) []"
    using parts len buf by (simp add: ctx_parts_def compress_blocks_append)
  from ctx_parts_update_rest [OF this, of ?rest] obtain c' tail' blocks' where
    "update_rest ?c2 ?rest = (Ok c' :: ('e, sha_context) outcome)"
    "ctx_parts c' blocks' tail'" "blocks' @ tail' = (blocks @ ?block) @ ?rest" by blast
  moreover have "bw_used ?b \<noteq> 0" using buf ne by simp
  moreover from this lead blk have
    "context_update c bs = (update_rest ?c2 ?rest :: ('e, sha_context) outcome)"
    by (simp add: context_update_def take_block_def)
  moreover have "(blocks @ ?block) @ ?rest = blocks @ tail @ bs" by simp
  ultimately show ?thesis by metis
qed

lemma ctx_represents_update:
  assumes "ctx_represents c m"
  shows "\<exists>c'. context_update c bs = (Ok c' :: ('e, sha_context) outcome) \<and> ctx_represents c' (m @ bs)"
proof -
  from assms obtain blocks tail where m: "m = blocks @ tail" and parts: "ctx_parts c blocks tail"
    by (auto simp: ctx_represents_def)
  consider "tail = []" | "tail \<noteq> []" "length tail + length bs < 64" | "tail \<noteq> []" "64 \<le> length tail + length bs"
    by linarith
  then have "\<exists>c' tail' blocks'. context_update c bs = (Ok c' :: ('e, sha_context) outcome)
      \<and> ctx_parts c' blocks' tail' \<and> blocks' @ tail' = blocks @ tail @ bs"
  proof cases
    case 1
    with context_update_empty_buffer [of c blocks bs] parts show ?thesis by simp
  next
    case 2
    from context_update_partial [OF parts this] show ?thesis by fastforce
  next
    case 3
    from context_update_fills [OF parts this] show ?thesis by fastforce
  qed
  with m show ?thesis unfolding ctx_represents_def by (metis append_assoc)
qed

section \<open>Finishing is the reference hash\<close>

lemma pad_zeroes:
  "u \<le> 55 \<Longrightarrow> (119 - u) mod 64 = (55 - u :: nat)"
  "55 < u \<Longrightarrow> u < 64 \<Longrightarrow> (119 - u) mod 64 = (119 - u :: nat)"
proof -
  assume "u \<le> 55"
  then have "119 - u = 64 + (55 - u)" "55 - u < 64" by simp_all
  then show "(119 - u) mod 64 = 55 - u" by (simp only: mod_add_self1 mod_less)
qed simp

lemma pad_one_block:
  assumes "length (bw_buffer b) = 64" and "bw_used b \<le> 55" and "length lb = 8"
  shows "\<exists>b'. md_pad_with_length b lb =
    (Ok (b', One (take (bw_used b) (bw_buffer b) @ [0x80] @ replicate (55 - bw_used b) 0 @ lb))
     :: ('e, blockwise \<times> final_blocks) outcome)"
proof -
  have "\<not> 64 - bw_used b < 9" "Suc 0 \<le> 56 - bw_used b" "bw_used b \<le> 64" "8 \<le> 64 - bw_used b"
    using assms(2) by simp_all
  with assms show ?thesis
    by (simp add: md_pad_with_length_def usize_sub_def slice_from_def Let_def)
qed

lemma pad_two_blocks:
  assumes "length (bw_buffer b) = 64" and "55 < bw_used b" "bw_used b < 64" and "length lb = 8"
  shows "\<exists>b'. md_pad_with_length b lb =
    (Ok (b', Two (take (bw_used b) (bw_buffer b) @ [0x80] @ replicate (63 - bw_used b) 0)
                 (replicate 56 0 @ lb)) :: ('e, blockwise \<times> final_blocks) outcome)"
proof -
  let ?u = "bw_used b"
  define b1 where "b1 = b\<lparr>bw_buffer := take ?u (bw_buffer b) @ [0x80] @ drop (Suc ?u) (bw_buffer b), bw_used := Suc ?u\<rparr>"
  have l1: "add_leading b [0x80] = (Ok (b1, []) :: ('e, blockwise \<times> bytes) outcome)"
    using assms by (simp add: add_leading_def usize_sub_def copy_at_def b1_def min_def)
  define b2 where "b2 = b1\<lparr>bw_buffer := take ?u (bw_buffer b) @ [0x80] @ replicate (63 - ?u) 0, bw_used := 64\<rparr>"
  have "\<exists>r. add_leading b1 (replicate 64 0) = (Ok (b2, r) :: ('e, blockwise \<times> bytes) outcome)"
    using assms by (simp add: add_leading_def usize_sub_def copy_at_def b1_def b2_def)
  then obtain r where l2: "add_leading b1 (replicate 64 0) = (Ok (b2, r) :: ('e, blockwise \<times> bytes) outcome)"
    by blast
  have "64 - ?u < 9" using assms by simp
  with l1 l2 assms show ?thesis
    by (simp add: md_pad_with_length_def usize_sub_def take_block_def copy_at_def b2_def)
qed

lemma pad_blocks:
  assumes "length (bw_buffer b) = 64" and "bw_used b < 64" and "length lb = 8"
  shows "\<exists>b' last_blocks. md_pad_with_length b lb
           = (Ok (b', last_blocks) :: ('e, blockwise \<times> final_blocks) outcome)
     \<and> final_as_ref last_blocks =
         take (bw_used b) (bw_buffer b) @ [0x80] @ replicate ((119 - bw_used b) mod 64) 0 @ lb"
proof (cases "bw_used b \<le> 55")
  case True
  with pad_one_block [OF assms(1) True assms(3)] pad_zeroes(1) [OF True] show ?thesis
    by fastforce
next
  case False
  then have "replicate (119 - bw_used b) (0 :: u8) = replicate (63 - bw_used b) 0 @ replicate 56 0"
    using assms(2) by (simp flip: replicate_add)
  with pad_two_blocks [OF assms(1) _ assms(2,3)] pad_zeroes(2) [OF _ assms(2)] False show ?thesis
    by fastforce
qed

lemma padded_length: "64 dvd length (fips_pad msg)"
proof -
  define q r where "q = length msg div 64" and "r = length msg mod 64"
  have len: "length msg = 64 * q + r" and r: "r < 64" by (simp_all add: q_def r_def)
  have "length (fips_pad msg) = length msg + 9 + (119 - r) mod 64"
    by (simp add: fips_pad_def r_def)
  also have "\<dots> = 64 * q + (r + 9 + (119 - r) mod 64)" using len by simp
  also have "\<dots> = 64 * q + 64 \<or> \<dots> = 64 * q + 128"
    using r by (cases "r \<le> 55") (simp_all add: pad_zeroes)
  finally show ?thesis by (elim disjE) (simp_all only: dvd_add dvd_triv_left dvd_refl, simp_all)
qed

lemma compress_blocks_eq_fips:
  "sha256_compress_blocks H bs = foldl fips_compress H (chunks_exact 64 bs)"
proof -
  have "sha256_compress_block = fips_compress"
    by (intro ext) (rule compress_block_eq_fips)
  then show ?thesis by (simp add: sha256_compress_blocks_def)
qed

text \<open>What hashing returns: the reference hash while the bit count fits \<open>usize\<close>, else a panic.\<close>

definition sha256_outcome :: "bytes \<Rightarrow> ('e, digest) outcome" where
  "sha256_outcome msg = (if 8 * length msg \<le> usize_max then Ok (fips_sha256 msg) else Panic)"

lemma finish_bits:
  assumes "ctx_parts c blocks tail"
  shows "Option.bind (Option.bind (checked_mul (ctx_nblocks c) 64)
           (\<lambda>n. checked_add n (bw_used (ctx_blockwise c)))) (\<lambda>total. checked_mul total 8)
         = (if 8 * length (blocks @ tail) \<le> usize_max then Some (8 * length (blocks @ tail)) else None)"
proof -
  have nb: "ctx_nblocks c = min usize_max (length blocks div 64)"
    and u: "bw_used (ctx_blockwise c) = length tail" and dv: "64 dvd length blocks"
    using assms by (auto simp: ctx_parts_def)
  have pos: "0 < usize_max" by (simp add: usize_max_def)
  show ?thesis
  proof (cases "length blocks div 64 \<le> usize_max")
    case True
    with nb dv have "ctx_nblocks c * 64 = length blocks" by simp
    with u show ?thesis by (auto simp: checked_mul_def checked_add_def)
  next
    case False
    with nb have "ctx_nblocks c = usize_max" by simp
    moreover have "usize_max < 8 * (length blocks + length tail)"
    proof -
      from False have "usize_max < length blocks div 64" by simp
      also have "\<dots> \<le> length blocks" by (rule div_le_dividend)
      also have "\<dots> \<le> 8 * (length blocks + length tail)" by simp
      finally show ?thesis .
    qed
    ultimately show ?thesis using pos by (simp add: checked_mul_def)
  qed
qed

lemma final_blocks_state:
  assumes parts: "ctx_parts c blocks tail" and fits: "8 * length (blocks @ tail) \<le> usize_max"
  defines "lb \<equiv> to_be_bytes (of_nat (8 * length (blocks @ tail)) :: u64)"
  shows "\<exists>b last_blocks c2.
           md_pad_with_length (ctx_blockwise c) lb
             = (Ok (b, last_blocks) :: ('e, blockwise \<times> final_blocks) outcome)
         \<and> update_blocks (c\<lparr>ctx_blockwise := b\<rparr>) (final_as_ref last_blocks)
             = (Ok c2 :: ('e, sha_context) outcome)
         \<and> ctx_h c2 = sha256_compress_blocks initial_h (fips_pad (blocks @ tail))"
proof -
  let ?b = "ctx_blockwise c" and ?m = "blocks @ tail"
  have buf: "length (bw_buffer ?b) = 64" "bw_used ?b = length tail" "length tail < 64"
    "take (length tail) (bw_buffer ?b) = tail" "64 dvd length blocks"
    and h: "ctx_h c = sha256_compress_blocks initial_h blocks"
    using parts by (auto simp: ctx_parts_def)
  have lb: "lb = be_bytes 8 (8 * length ?m)"
    unfolding lb_def using fits
    by (subst to_be_bytes_of_nat) (simp_all add: usize_max_def del: of_nat_mult of_nat_add)
  have tail_mod: "length ?m mod 64 = length tail" using buf by (auto elim!: dvdE)
  have "bw_used ?b < 64" "length lb = 8" using buf lb by simp_all
  from pad_blocks [OF buf(1) this] obtain b last_blocks where
    pad: "md_pad_with_length ?b lb = (Ok (b, last_blocks) :: ('e, blockwise \<times> final_blocks) outcome)"
    and "final_as_ref last_blocks = take (bw_used ?b) (bw_buffer ?b) @ [0x80]
           @ replicate ((119 - bw_used ?b) mod 64) 0 @ lb"
    by blast
  then have ref: "final_as_ref last_blocks = tail @ [0x80] @ replicate ((119 - length tail) mod 64) 0 @ lb"
    by (simp only: buf)
  have padded: "fips_pad ?m = blocks @ final_as_ref last_blocks"
    by (simp only: fips_pad_def ref lb tail_mod append_assoc)
  then have "length (final_as_ref last_blocks) mod 64 = 0"
    using padded_length [of ?m] buf(5) by (simp add: dvd_eq_mod_eq_0 [symmetric] dvd_add_right_iff)
  with ref h have "\<exists>c2. update_blocks (c\<lparr>ctx_blockwise := b\<rparr>) (final_as_ref last_blocks)
      = (Ok c2 :: ('e, sha_context) outcome)
      \<and> ctx_h c2 = sha256_compress_blocks (sha256_compress_blocks initial_h blocks) (final_as_ref last_blocks)"
    by (simp add: update_blocks_def assert_that_def)
  with pad padded buf(5) show ?thesis by (metis compress_blocks_append)
qed

lemma context_finish_spec:
  assumes "ctx_represents c m"
  shows "context_finish c = (sha256_outcome m :: ('e, digest) outcome)"
proof -
  from assms obtain blocks tail where m: "m = blocks @ tail" and parts: "ctx_parts c blocks tail"
    by (auto simp: ctx_represents_def)
  show ?thesis
  proof (cases "8 * length m \<le> usize_max")
    case True
    with finish_bits [OF parts] m obtain total where
      "Option.bind (checked_mul (ctx_nblocks c) 64) (\<lambda>n. checked_add n (bw_used (ctx_blockwise c))) = Some total"
      "checked_mul total 8 = Some (8 * length m)"
      by (auto simp: bind_eq_Some_conv)
    moreover from final_blocks_state [OF parts] True m obtain b last_blocks c2 where
      "md_pad_with_length (ctx_blockwise c) (to_be_bytes (of_nat (8 * length m) :: u64))
         = (Ok (b, last_blocks) :: ('e, blockwise \<times> final_blocks) outcome)"
      "update_blocks (c\<lparr>ctx_blockwise := b\<rparr>) (final_as_ref last_blocks) = (Ok c2 :: ('e, sha_context) outcome)"
      "ctx_h c2 = sha256_compress_blocks initial_h (fips_pad m)"
      by blast
    ultimately show ?thesis using True
      by (simp add: context_finish_def sha256_outcome_def fips_sha256_def compress_blocks_eq_fips
          del: of_nat_mult)
  next
    case False
    with finish_bits [OF parts] m show ?thesis
      by (cases "Option.bind (checked_mul (ctx_nblocks c) 64)
                   (\<lambda>n. checked_add n (bw_used (ctx_blockwise c)))")
         (simp_all add: context_finish_def sha256_outcome_def)
  qed
qed

interpretation sha: hash_stream context_new context_update context_finish ctx_represents sha256_outcome
  by unfold_locales (use ctx_represents_new ctx_represents_update context_finish_spec in blast)+

lemma length_fips_sha256: "length (fips_sha256 m) = 32"
proof -
  have "length (foldl fips_compress H bs) = 8" if "length H = 8" for H bs
    using that
  proof (induction bs arbitrary: H)
    case (Cons b bs)
    have "length (fips_compress H b) = 8"
      by (simp flip: compress_block_eq_fips)
    with Cons show ?case by simp
  qed simp
  moreover have "length initial_h = 8" by (simp add: initial_h_def)
  ultimately show ?thesis
    by (simp add: fips_sha256_def length_concat comp_def sum_list_triv)
qed

lemma digest_from_eq: "digest_from slices = sha256_outcome (concat slices)"
  unfolding digest_from_def by (rule sha.feed_fin)

section \<open>The constants\<close>

text \<open>
  The first 64 primes with the integer part of their cube root, and the first 8 with that of their
  square root; \<open>w\<close> is the first 32 bits of the fractional part of the \<open>e\<close>-th root of \<open>p\<close> when
  \<open>c + w / 2\<^sup>3\<^sup>2\<close> is that root rounded down.
\<close>

definition prime_cube_roots :: "(int \<times> int) list" where
  "prime_cube_roots =
     [(2, 1), (3, 1), (5, 1), (7, 1), (11, 2), (13, 2), (17, 2), (19, 2), (23, 2), (29, 3), (31, 3),
      (37, 3), (41, 3), (43, 3), (47, 3), (53, 3), (59, 3), (61, 3), (67, 4), (71, 4), (73, 4), (79,
      4), (83, 4), (89, 4), (97, 4), (101, 4), (103, 4), (107, 4), (109, 4), (113, 4), (127, 5),
      (131, 5), (137, 5), (139, 5), (149, 5), (151, 5), (157, 5), (163, 5), (167, 5), (173, 5), (179,
      5), (181, 5), (191, 5), (193, 5), (197, 5), (199, 5), (211, 5), (223, 6), (227, 6), (229, 6),
      (233, 6), (239, 6), (241, 6), (251, 6), (257, 6), (263, 6), (269, 6), (271, 6), (277, 6), (281,
      6), (283, 6), (293, 6), (307, 6), (311, 6)]"

definition prime_square_roots :: "(int \<times> int) list" where
  "prime_square_roots = [(2, 1), (3, 1), (5, 2), (7, 2), (11, 3), (13, 3), (17, 4), (19, 4)]"

definition root_bits :: "nat \<Rightarrow> int \<times> int \<Rightarrow> u32 \<Rightarrow> bool" where
  "root_bits e pc w \<longleftrightarrow>
     (let m = snd pc * 2 ^ 32 + uint w
      in m ^ e \<le> fst pc * 2 ^ (32 * e) \<and> fst pc * 2 ^ (32 * e) < (m + 1) ^ e)"

section \<open>Properties\<close>

text \<open>
  The compression routine, which keeps a rolling window of sixteen schedule words and computes
  them between the rounds, is the compression function of FIPS 180-4.
\<close>

lemma compress_block_is_fips: "sha256_compress_block H block = fips_compress H block"
  by (rule compress_block_eq_fips)

text \<open>
  C5: hashing a message in any number of slices of any length gives the SHA-256 digest of their
  concatenation, as long as its bit count fits a \<open>usize\<close>; beyond that it panics. In particular the
  digest does not depend on how the message is cut into slices.
\<close>

theorem digest_from_is_sha256:
  "digest_from slices = (if 8 * length (concat slices) \<le> usize_max then Ok (fips_sha256 (concat slices)) else Panic)"
  by (simp add: digest_from_eq sha256_outcome_def)

text \<open>
  The round constants and the initial state are the ones FIPS 180-4 derives: the first 32 bits of
  the fractional parts of the cube roots of the first 64 primes, and of the square roots of the
  first 8.
\<close>

lemma sha256_constants:
  "list_all2 (root_bits 3) prime_cube_roots K \<and> list_all2 (root_bits 2) prime_square_roots initial_h"
  by (simp add: prime_cube_roots_def prime_square_roots_def K_def initial_h_def root_bits_def Let_def)

end
