(* ===== verification/Revocation.thy ===== *)
theory Revocation
  imports Std_Fs Sha256
begin

text \<open>
  The revocation API of \<open>upki/src/revocation/mod.rs\<close>: manifests, the input of a revocation check and
  how it is built from a certificate chain, the textual forms of serials and timestamps, the
  verdicts with their exit codes, and the error type with its \<open>source\<close> and \<open>Display\<close>.

  The certificate parser (\<open>webpki\<close>) and the base64 decoder are other crates: they are arguments of
  the definitions, the former as the record \<open>webpki\<close> of the operations that are called. A boxed
  error of another crate is its text (\<open>ExtCause\<close>).
\<close>

section \<open>Errors\<close>

datatype cause = IoCause io_error | MsgCause string | Utf8Cause | ExtCause string

datatype rev_error =
  CreateDirectory io_error path
| FileWrite io_error path
| FileDecode cause "path option"
| FileRead io_error "path option"
| HashMismatch path
| IndexDecode cause
| HttpFetch cause string
| InvalidBase64 cause string
| InvalidEndEntityCertificate cause
| InvalidIntermediateCertificate cause nat
| InvalidLength nat nat string
| InvalidSctEncoding
| InvalidSctInCertificate cause
| InvalidTimestamp string string
| ManifestEncode cause path
| NoIssuer
| Outdated nat
| RemoveFile io_error path
| TooFewCertificates

fun error_source :: "rev_error \<Rightarrow> cause option" where
  "error_source (CreateDirectory e _) = Some (IoCause e)"
| "error_source (FileWrite e _) = Some (IoCause e)"
| "error_source (FileDecode e _) = Some e"
| "error_source (FileRead e _) = Some (IoCause e)"
| "error_source (HashMismatch _) = None"
| "error_source (IndexDecode e) = Some e"
| "error_source (HttpFetch e _) = Some e"
| "error_source (InvalidBase64 e _) = Some e"
| "error_source (InvalidEndEntityCertificate e) = Some e"
| "error_source (InvalidIntermediateCertificate e _) = Some e"
| "error_source (InvalidLength _ _ _) = None"
| "error_source InvalidSctEncoding = None"
| "error_source (InvalidSctInCertificate e) = Some e"
| "error_source (InvalidTimestamp _ _) = None"
| "error_source (ManifestEncode e _) = Some e"
| "error_source NoIssuer = None"
| "error_source (Outdated _) = None"
| "error_source (RemoveFile e _) = Some (IoCause e)"
| "error_source TooFewCertificates = None"

text \<open>Decimal text of a number, and the inverse \<open>u64::from_str\<close>.\<close>

fun show_nat :: "nat \<Rightarrow> string" where
  "show_nat n =
     (if n < 10 then [char_of (48 + n)] else show_nat (n div 10) @ [char_of (48 + n mod 10)])"

declare show_nat.simps [simp del]

text \<open>
  \<open>Display\<close>; \<open>dbg\<close> is the \<open>{:?}\<close> formatting of a path (quoted and escaped by the standard library).
\<close>

fun error_display :: "(path \<Rightarrow> string) \<Rightarrow> rev_error \<Rightarrow> string" where
  "error_display dbg (CreateDirectory _ p) = ''cannot create directory '' @ dbg p"
| "error_display dbg (FileWrite _ p) = ''cannot write file '' @ dbg p"
| "error_display dbg (FileDecode _ (Some p)) = ''cannot decode file '' @ dbg p"
| "error_display dbg (FileDecode _ None) = ''cannot decode file''"
| "error_display dbg (FileRead _ (Some p)) = ''cannot read file '' @ dbg p"
| "error_display dbg (FileRead _ None) = ''cannot read file''"
| "error_display dbg (HashMismatch p) = ''hash mismatch for file '' @ dbg p"
| "error_display dbg (IndexDecode _) = ''cannot decode index file''"
| "error_display dbg (HttpFetch _ url) = ''HTTP fetch error for URL '' @ url"
| "error_display dbg (InvalidBase64 _ cx) = ''invalid base64 for '' @ cx"
| "error_display dbg (InvalidEndEntityCertificate _) = ''invalid end-entity certificate''"
| "error_display dbg (InvalidIntermediateCertificate _ i) =
     ''invalid intermediate certificate at index '' @ show_nat i"
| "error_display dbg (InvalidLength expected actual cx) =
     ''invalid length for '' @ cx @ '': expected '' @ show_nat expected @ '', got '' @ show_nat actual"
| "error_display dbg InvalidSctEncoding = ''invalid SCT encoding: no '' @ [char_of (39::nat)] @ '':'' @ [char_of (39::nat)] @ '' found''"
| "error_display dbg (InvalidSctInCertificate _) = ''invalid SCT in certificate''"
| "error_display dbg (InvalidTimestamp input cx) =
     ''invalid timestamp for '' @ cx @ '': '' @ [char_of (39::nat)] @ input @ [char_of (39::nat)]"
| "error_display dbg (ManifestEncode _ p) = ''cannot encode manifest file at '' @ dbg p"
| "error_display dbg NoIssuer = ''no issuer found for end-entity certificate''"
| "error_display dbg (Outdated n) = ''cache is outdated, '' @ show_nat n @ '' bytes need downloading''"
| "error_display dbg (RemoveFile _ p) = ''cannot remove file '' @ dbg p"
| "error_display dbg TooFewCertificates = ''certificate chain must contain at least 2 certificates''"

section \<open>Manifests and configuration data\<close>

record manifest_file =
  mf_filename :: string
  mf_size :: nat
  mf_hash :: bytes

record manifest =
  m_generated_at :: u64
  m_comment :: string
  m_files :: "manifest_file list"

record revocation_config =
  rc_fetch_url :: string

definition revocation_config_default :: revocation_config where
  "revocation_config_default = \<lparr>rc_fetch_url = ''https://upki.rustls.dev/revocation/''\<rparr>"

text \<open>
  \<open>introduce\<close> logs the manifest; it fails when the timestamp, cast to \<open>i64\<close>, has no calendar date
  according to \<open>chrono\<close> (the argument \<open>to_rfc3339\<close>).
\<close>

definition introduce :: "(int \<Rightarrow> string option) \<Rightarrow> manifest \<Rightarrow> (rev_error, unit) outcome" where
  "introduce to_rfc3339 m =
     (case to_rfc3339 (sint (m_generated_at m)) of
        Some _ \<Rightarrow> Ok ()
      | None \<Rightarrow> Err (InvalidTimestamp (show_nat (unat (m_generated_at m))) ''manifest generated (in s)''))"

section \<open>Verdicts\<close>

datatype revocation_status = NotCoveredByRevocationData | CertainlyRevoked | NotRevoked

definition EXIT_CODE_REVOCATION_REVOKED :: u8 where
  "EXIT_CODE_REVOCATION_REVOKED = 2"

definition EXIT_SUCCESS :: u8 where
  "EXIT_SUCCESS = 0"

text \<open>The \<open>{:?}\<close> form of a verdict is its name; \<open>to_cli\<close> gives what is printed and the exit code.\<close>

fun status_debug :: "revocation_status \<Rightarrow> string" where
  "status_debug NotCoveredByRevocationData = ''NotCoveredByRevocationData''"
| "status_debug CertainlyRevoked = ''CertainlyRevoked''"
| "status_debug NotRevoked = ''NotRevoked''"

definition to_cli :: "revocation_status \<Rightarrow> string \<times> u8" where
  "to_cli st =
     (status_debug st,
      case st of
        NotRevoked \<Rightarrow> EXIT_SUCCESS
      | NotCoveredByRevocationData \<Rightarrow> EXIT_SUCCESS
      | CertainlyRevoked \<Rightarrow> EXIT_CODE_REVOCATION_REVOKED)"

section \<open>Textual inputs\<close>

record ct_timestamp =
  ct_log_id :: bytes
  ct_time :: u64

definition cert_serial_from_str ::
  "(string \<Rightarrow> string + bytes) \<Rightarrow> string \<Rightarrow> (rev_error, bytes) outcome" where
  "cert_serial_from_str b64 value =
     (case b64 value of
        Inr bs \<Rightarrow> Ok bs
      | Inl e \<Rightarrow> Err (InvalidBase64 (ExtCause e) ''certificate serial''))"

fun split_once :: "char \<Rightarrow> string \<Rightarrow> (string \<times> string) option" where
  "split_once c [] = None"
| "split_once c (x # xs) =
     (if x = c then Some ([], xs)
      else map_option (\<lambda>(a, b). (x # a, b)) (split_once c xs))"

definition is_digit :: "char \<Rightarrow> bool" where
  "is_digit c \<longleftrightarrow> 48 \<le> (of_char c :: nat) \<and> of_char c \<le> (57 :: nat)"

definition digits_value :: "string \<Rightarrow> nat" where
  "digits_value s = foldl (\<lambda>acc c. 10 * acc + (of_char c - 48)) 0 s"

text \<open>\<open>u64::from_str\<close>: an optional \<open>+\<close>, then at least one digit and nothing else, within range.\<close>

definition parse_u64 :: "string \<Rightarrow> u64 option" where
  "parse_u64 s =
     (let ds = (case s of c # cs \<Rightarrow> if c = CHR ''+'' then cs else s | [] \<Rightarrow> [])
      in if ds = [] \<or> \<not> list_all is_digit ds then None
         else if digits_value ds < 2 ^ 64 then Some (of_nat (digits_value ds)) else None)"

definition ct_timestamp_from_str ::
  "(string \<Rightarrow> string + bytes) \<Rightarrow> string \<Rightarrow> (rev_error, ct_timestamp) outcome" where
  "ct_timestamp_from_str b64 value =
     (case split_once CHR '':'' value of
        None \<Rightarrow> Err InvalidSctEncoding
      | Some (log_id, issuance_timestamp) \<Rightarrow>
          obind (map_err (\<lambda>e. InvalidBase64 (ExtCause e) ''CT log ID'') (lift_sum (b64 log_id))) (\<lambda>bs.
          obind (if length bs = 32 then Ok bs else Err (InvalidLength 32 (length bs) ''CT log ID'')) (\<lambda>log.
          obind (ok_or (InvalidTimestamp issuance_timestamp ''CT timestamp (in ms)'')
                   (parse_u64 issuance_timestamp)) (\<lambda>ts.
            Ok \<lparr>ct_log_id = log, ct_time = ts\<rparr>))))"

section \<open>The input of a revocation check\<close>

record revocation_check_input =
  in_cert_serial :: bytes
  in_issuer_spki_hash :: bytes
  in_sct_timestamps :: "ct_timestamp list"
  in_issuer_serial_hash :: bytes

definition input_new ::
  "bytes \<Rightarrow> bytes \<Rightarrow> ct_timestamp list \<Rightarrow> ('e, revocation_check_input) outcome" where
  "input_new serial issuer_spki_hash scts =
     obind (context_update context_new issuer_spki_hash) (\<lambda>c1.
     obind (context_update c1 serial) (\<lambda>c2.
     obind (context_finish c2) (\<lambda>d.
       Ok \<lparr>in_cert_serial = serial, in_issuer_spki_hash = issuer_spki_hash,
           in_sct_timestamps = scts, in_issuer_serial_hash = d\<rparr>)))"

record crlite_key =
  key_issuer :: bytes
  key_serial :: bytes
  key_hash :: bytes

definition input_key :: "revocation_check_input \<Rightarrow> crlite_key" where
  "input_key i =
     \<lparr>key_issuer = in_issuer_spki_hash i, key_serial = in_cert_serial i,
      key_hash = in_issuer_serial_hash i\<rparr>"

text \<open>
  What is called of \<open>webpki\<close>: parsing an end-entity certificate and its issuer name, serial and
  embedded SCTs; reading a certificate as a trust anchor, with its subject and the
  \<open>SubjectPublicKeyInfo\<close> of that anchor.
\<close>

record ('ee, 'ta) webpki =
  wp_end_entity :: "bytes \<Rightarrow> string + 'ee"
  wp_issuer :: "'ee \<Rightarrow> bytes"
  wp_serial :: "'ee \<Rightarrow> bytes"
  wp_scts :: "'ee \<Rightarrow> string + (string + ct_timestamp) list"
  wp_anchor :: "bytes \<Rightarrow> string + 'ta"
  wp_subject :: "'ta \<Rightarrow> bytes"
  wp_spki :: "'ta \<Rightarrow> bytes"

fun find_issuer_from ::
  "('ee, 'ta) webpki \<Rightarrow> bytes \<Rightarrow> nat \<Rightarrow> bytes list \<Rightarrow> (rev_error, 'ta) outcome" where
  "find_issuer_from wp name i [] = Err NoIssuer"
| "find_issuer_from wp name i (c # candidates) =
     (case wp_anchor wp c of
        Inl e \<Rightarrow> Err (InvalidIntermediateCertificate (ExtCause e) i)
      | Inr root \<Rightarrow>
          if wp_subject wp root = name then Ok root
          else find_issuer_from wp name (Suc i) candidates)"

definition find_issuer ::
  "('ee, 'ta) webpki \<Rightarrow> bytes \<Rightarrow> bytes list \<Rightarrow> (rev_error, 'ta) outcome" where
  "find_issuer wp name candidates = find_issuer_from wp name 0 candidates"

fun collect_scts :: "(string + ct_timestamp) list \<Rightarrow> (rev_error, ct_timestamp list) outcome" where
  "collect_scts [] = Ok []"
| "collect_scts (ts # rest) =
     (case ts of
        Inl e \<Rightarrow> Err (InvalidSctInCertificate (ExtCause e))
      | Inr t \<Rightarrow> obind (collect_scts rest) (\<lambda>scts. Ok (t # scts)))"

definition from_certificates ::
  "('ee, 'ta) webpki \<Rightarrow> bytes list \<Rightarrow> (rev_error, revocation_check_input) outcome" where
  "from_certificates wp certificates =
     (case certificates of
        [] \<Rightarrow> Err TooFewCertificates
      | ee_der # rest \<Rightarrow>
          obind (map_err (\<lambda>e. InvalidEndEntityCertificate (ExtCause e)) (lift_sum (wp_end_entity wp ee_der))) (\<lambda>ee.
          obind (find_issuer wp (wp_issuer wp ee) rest) (\<lambda>issuer.
          obind (digest_from [wp_spki wp issuer]) (\<lambda>issuer_spki_hash.
          obind (map_err (\<lambda>e. InvalidEndEntityCertificate (ExtCause e)) (lift_sum (wp_scts wp ee))) (\<lambda>iter.
          obind (collect_scts iter) (\<lambda>sct_timestamps.
            input_new (wp_serial wp ee) issuer_spki_hash sct_timestamps))))))"

section \<open>Lemmas\<close>

lemma input_new_eq:
  "(input_new serial issuer scts :: ('e, revocation_check_input) outcome) =
     (if 8 * (length issuer + length serial) \<le> usize_max
      then Ok \<lparr>in_cert_serial = serial, in_issuer_spki_hash = issuer, in_sct_timestamps = scts,
               in_issuer_serial_hash = fips_sha256 (issuer @ serial)\<rparr>
      else Panic)"
proof -
  have "obind (feed context_update context_new [issuer, serial]) context_finish
      = (sha256_outcome (issuer @ serial) :: ('e, digest) outcome)"
    using sha.feed_fin [of "[issuer, serial]"] by simp
  then have "obind (context_update context_new issuer) (\<lambda>c1. obind (context_update c1 serial) context_finish)
      = (sha256_outcome (issuer @ serial) :: ('e, digest) outcome)"
    by (simp add: obind_assoc)
  moreover have "(input_new serial issuer scts :: ('e, revocation_check_input) outcome) = obind (obind (context_update context_new issuer)
      (\<lambda>c1. obind (context_update c1 serial) context_finish)) (\<lambda>d.
       Ok \<lparr>in_cert_serial = serial, in_issuer_spki_hash = issuer, in_sct_timestamps = scts, in_issuer_serial_hash = d\<rparr>)"
    by (simp add: input_new_def obind_assoc)
  ultimately show ?thesis by (simp add: sha256_outcome_def algebra_simps)
qed

lemma show_nat_digits: "list_all is_digit (show_nat n) \<and> show_nat n \<noteq> [] \<and> digits_value (show_nat n) = n"
proof (induction n rule: show_nat.induct)
  case (1 n)
  have digit: "is_digit (char_of (48 + d))" "(of_char (char_of (48 + d)) :: nat) - 48 = d" if "d < 10" for d :: nat
    using that by (simp_all add: is_digit_def)
  show ?case
  proof (cases "n < 10")
    case True
    then show ?thesis by (subst (1 2 3) show_nat.simps) (simp add: digit digits_value_def)
  next
    case False
    with 1 have "list_all is_digit (show_nat (n div 10))" "digits_value (show_nat (n div 10)) = n div 10"
      by simp_all
    with False show ?thesis
      by (subst (1 2 3) show_nat.simps) (simp add: digit digits_value_def)
  qed
qed

lemma digit_not_plus: "is_digit c \<Longrightarrow> c \<noteq> CHR ''+''"
  by (auto simp: is_digit_def)

lemma parse_show_u64: "parse_u64 (show_nat (unat w)) = Some w"
proof -
  obtain c cs where cs: "show_nat (unat w) = c # cs"
    using show_nat_digits [of "unat w"] by (cases "show_nat (unat w)") auto
  with show_nat_digits [of "unat w"] have "c \<noteq> CHR ''+''" by (auto dest: digit_not_plus)
  with cs show_nat_digits [of "unat w"] unsigned_less [of w, where ?'a = nat] show ?thesis
    by (simp add: parse_u64_def)
qed

lemma split_once_append: "c \<notin> set a \<Longrightarrow> split_once c (a @ c # b) = Some (a, b)"
  by (induction a) auto

definition not_issuer :: "('ee, 'ta) webpki \<Rightarrow> bytes \<Rightarrow> bytes \<Rightarrow> bool" where
  "not_issuer wp name c = (case wp_anchor wp c of Inr root \<Rightarrow> wp_subject wp root \<noteq> name | Inl _ \<Rightarrow> False)"

lemma find_issuer_from_eq:
  "find_issuer_from wp name i candidates =
     (case dropWhile (not_issuer wp name) candidates of
        [] \<Rightarrow> Err NoIssuer
      | c # _ \<Rightarrow>
          (case wp_anchor wp c of
             Inl e \<Rightarrow> Err (InvalidIntermediateCertificate (ExtCause e)
                        (i + length (takeWhile (not_issuer wp name) candidates)))
           | Inr root \<Rightarrow> Ok root))"
proof (induction candidates arbitrary: i)
  case (Cons c candidates)
  show ?case
  proof (cases "not_issuer wp name c")
    case True
    then obtain root where "wp_anchor wp c = Inr root" "wp_subject wp root \<noteq> name"
      by (auto simp: not_issuer_def split: sum.splits)
    with Cons [of "Suc i"] True show ?thesis
      by (cases "dropWhile (not_issuer wp name) candidates")
         (simp_all split: sum.split del: dropWhile_eq_Nil_conv)
  next
    case False
    then show ?thesis by (auto simp: not_issuer_def split: sum.splits)
  qed
qed simp

lemma collect_scts_Ok_iff: "collect_scts ts = Ok scts \<longleftrightarrow> ts = map Inr scts"
proof (induction ts arbitrary: scts)
  case (Cons t ts)
  then show ?case by (cases t; cases scts) (auto simp: outcome_simps)
qed auto

section \<open>Properties\<close>

text \<open>
  The issuer of an end-entity certificate is the first candidate whose subject is the issuer
  name. A candidate before it that cannot be read as a trust anchor is reported with its position,
  candidates after it are never read, and there is no issuer when all candidates are readable and
  none has the name.
\<close>

lemma find_issuer_first_match:
  "find_issuer wp name candidates =
     (case dropWhile (not_issuer wp name) candidates of
        [] \<Rightarrow> Err NoIssuer
      | c # _ \<Rightarrow>
          (case wp_anchor wp c of
             Inl e \<Rightarrow> Err (InvalidIntermediateCertificate (ExtCause e)
                        (length (takeWhile (not_issuer wp name) candidates)))
           | Inr root \<Rightarrow> Ok root))"
  unfolding find_issuer_def find_issuer_from_eq add_0 by (rule refl)

lemma find_issuer_Ok_iff:
  "find_issuer wp name candidates = Ok issuer \<longleftrightarrow>
    (\<exists>before c after. candidates = before @ c # after \<and> list_all (not_issuer wp name) before
       \<and> wp_anchor wp c = Inr issuer \<and> wp_subject wp issuer = name)"
  (is "?lhs \<longleftrightarrow> ?rhs")
proof
  assume ?lhs
  then obtain c after where d: "dropWhile (not_issuer wp name) candidates = c # after" and c: "wp_anchor wp c = Inr issuer"
    by (auto simp: find_issuer_first_match split: list.splits sum.splits)
  moreover have "\<not> not_issuer wp name c" using d by (simp add: dropWhile_eq_Cons_conv)
  then have "wp_subject wp issuer = name" using c by (simp add: not_issuer_def)
  moreover have "candidates = takeWhile (not_issuer wp name) candidates @ c # after"
    using takeWhile_dropWhile_id [of "not_issuer wp name" candidates] d by simp
  moreover have "list_all (not_issuer wp name) (takeWhile (not_issuer wp name) candidates)"
    by (auto simp: list_all_iff dest: set_takeWhileD)
  ultimately show ?rhs by blast
next
  assume ?rhs
  then obtain before c after where c: "candidates = before @ c # after" "list_all (not_issuer wp name) before"
    "wp_anchor wp c = Inr issuer" "wp_subject wp issuer = name" by blast
  then have "dropWhile (not_issuer wp name) candidates = c # after"
    by (simp add: list_all_iff dropWhile_append2 not_issuer_def)
  with c(3) show ?lhs by (simp add: find_issuer_first_match)
qed

text \<open>
  C38: how a chain becomes the input of a check. This succeeds exactly when the first certificate can
  be parsed; among the others there is one whose subject is the issuer name of the first, and each
  certificate before it can be read and has another subject (those after it are not read); all SCTs of
  the first can be parsed; and the data is short enough to be hashed. The input then holds the serial,
  the SHA-256 digest of the key information of that issuer, the timestamps of all SCTs, and the
  digest of the issuer hash followed by the serial, which is the key CRLite filters are queried with.
\<close>

theorem from_certificates_input:
  "from_certificates wp certificates = Ok input \<longleftrightarrow>
    (\<exists>ee_der before issuer_der after ee issuer scts.
        certificates = ee_der # before @ issuer_der # after \<and> wp_end_entity wp ee_der = Inr ee
      \<and> list_all (\<lambda>c. \<exists>ta. wp_anchor wp c = Inr ta \<and> wp_subject wp ta \<noteq> wp_issuer wp ee) before
      \<and> wp_anchor wp issuer_der = Inr issuer \<and> wp_subject wp issuer = wp_issuer wp ee
      \<and> wp_scts wp ee = Inr (map Inr scts)
      \<and> 8 * length (wp_spki wp issuer) \<le> usize_max \<and> 8 * (32 + length (wp_serial wp ee)) \<le> usize_max
      \<and> input = \<lparr>in_cert_serial = wp_serial wp ee,
                 in_issuer_spki_hash = fips_sha256 (wp_spki wp issuer), in_sct_timestamps = scts,
                 in_issuer_serial_hash = fips_sha256 (fips_sha256 (wp_spki wp issuer) @ wp_serial wp ee)\<rparr>)"
proof -
  have not_issuer: "not_issuer wp name = (\<lambda>c. \<exists>ta. wp_anchor wp c = Inr ta \<and> wp_subject wp ta \<noteq> name)" for name
    by (auto simp: fun_eq_iff not_issuer_def split: sum.split)
  have "from_certificates wp certificates = Ok input \<longleftrightarrow>
    (\<exists>ee_der rest ee issuer scts.
        certificates = ee_der # rest \<and> wp_end_entity wp ee_der = Inr ee
      \<and> find_issuer wp (wp_issuer wp ee) rest = Ok issuer \<and> wp_scts wp ee = Inr (map Inr scts)
      \<and> 8 * length (wp_spki wp issuer) \<le> usize_max \<and> 8 * (32 + length (wp_serial wp ee)) \<le> usize_max
      \<and> input = \<lparr>in_cert_serial = wp_serial wp ee,
                 in_issuer_spki_hash = fips_sha256 (wp_spki wp issuer), in_sct_timestamps = scts,
                 in_issuer_serial_hash = fips_sha256 (fips_sha256 (wp_spki wp issuer) @ wp_serial wp ee)\<rparr>)"
    by (cases certificates)
       (auto simp: from_certificates_def outcome_simps input_new_eq digest_from_eq sha256_outcome_def
          collect_scts_Ok_iff length_fips_sha256 split: if_splits)
  then show ?thesis unfolding find_issuer_Ok_iff not_issuer by blast
qed

text \<open>
  The error for a chain that is too short is given for an empty chain only. A chain of the
  end-entity certificate alone, which the message of that error excludes too, is reported as having
  no issuer.
\<close>

lemma short_chains:
  "(from_certificates wp certificates = Err TooFewCertificates \<longleftrightarrow> certificates = [])
   \<and> (from_certificates wp [ee_der] = Err NoIssuer \<longleftrightarrow> (\<exists>ee. wp_end_entity wp ee_der = Inr ee))"
proof -
  have "find_issuer_from wp name i cs \<noteq> Err TooFewCertificates" for name i cs
    by (induction cs arbitrary: i) (auto split: sum.splits)
  moreover have "collect_scts ts \<noteq> Err TooFewCertificates" for ts
    by (induction ts) (auto simp: outcome_simps split: sum.splits)
  ultimately show ?thesis
    by (cases certificates)
       (auto simp: from_certificates_def find_issuer_def outcome_simps input_new_eq digest_from_eq sha256_outcome_def
          split: if_splits)
qed

text \<open>
  C39: a serial and timestamp given as text are read back: the base64 text of a 32-byte log id, a
  colon and the decimal time in milliseconds give that timestamp, for every 64-bit time.
\<close>

theorem ct_timestamp_roundtrip:
  assumes "b64 enc = Inr log_id" and "length log_id = 32" and "CHR '':'' \<notin> set enc"
  shows "ct_timestamp_from_str b64 (enc @ '':'' @ show_nat (unat time)) = Ok \<lparr>ct_log_id = log_id, ct_time = time\<rparr>"
  using assms by (simp add: ct_timestamp_from_str_def split_once_append parse_show_u64)

theorem ct_timestamp_roundtrip_witness:
  "ct_timestamp_from_str (\<lambda>s. Inr (as_bytes s)) (replicate 32 CHR ''A'' @ '':'' @ show_nat (unat (1700000000000 :: u64)))
   = Ok \<lparr>ct_log_id = replicate 32 65, ct_time = 1700000000000\<rparr>"
  by (rule ct_timestamp_roundtrip) (simp_all add: as_bytes_def)

end
