(* ===== verification/Config.thy ===== *)
theory Config
  imports Revocation
begin

text \<open>
  The configuration of \<open>upki/src/lib.rs\<close>: where the configuration file is searched, how it is
  loaded, the default configuration, and the library's error type. The platform directories
  (\<open>directories::ProjectDirs\<close>) and the TOML decoder are other crates and are fields of
  \<open>environment\<close>; the build target selects the \<open>platform\<close> module (the Windows one is in
  the theory \<open>Windows\<close>, since paths are Unix paths here).
\<close>

record config =
  cfg_cache_dir :: path
  cfg_revocation :: revocation_config

datatype config_path = Specified path | Default path

datatype upki_error =
  ConfigError string path
| ConfigFileRead io_error path
| NoCacheDirectoryFound
| NoConfigDirectoryFound
| NoValidHomeDirectory
| RevocationError rev_error

datatype target = TargetApple | TargetUnix

record environment =
  env_target :: target
  env_project_dirs :: "(path \<times> path) option" \<comment> \<open>cache and configuration directory\<close>
  env_toml :: "string \<Rightarrow> string + config"

definition PREFIX :: string where
  "PREFIX = ''upki''"

definition BUNDLE_ID :: string where
  "BUNDLE_ID = ''dev.rustls.upki''"

definition CONFIG_FILE :: string where
  "CONFIG_FILE = ''config.toml''"

definition system_config_dir :: "environment \<Rightarrow> (upki_error, path) outcome" where
  "system_config_dir env =
     (case env_target env of
        TargetApple \<Rightarrow> Ok (path_join ''/Library/Application Support'' PREFIX)
      | TargetUnix \<Rightarrow> Ok (path_join ''/etc'' PREFIX))"

definition system_cache_dir :: "environment \<Rightarrow> (upki_error, path) outcome" where
  "system_cache_dir env =
     (case env_target env of
        TargetApple \<Rightarrow> Ok (path_join ''/Library/Caches'' BUNDLE_ID)
      | TargetUnix \<Rightarrow> Ok (path_join ''/var/cache'' PREFIX))"

definition project_dirs :: "environment \<Rightarrow> (upki_error, path \<times> path) outcome" where
  "project_dirs env = ok_or NoValidHomeDirectory (env_project_dirs env)"

definition config_path_new ::
  "environment \<Rightarrow> fs \<Rightarrow> path option \<Rightarrow> (upki_error, config_path) outcome" where
  "config_path_new env s specified =
     (case specified of
        Some f \<Rightarrow> Ok (Specified f)
      | None \<Rightarrow>
          obind (project_dirs env) (\<lambda>(_, config_dir).
            let user = path_join config_dir CONFIG_FILE in
            if fs_exists s user then Ok (Default user)
            else obind (system_config_dir env) (\<lambda>dir.
              let system = path_join dir CONFIG_FILE in
              if fs_exists s system then Ok (Default system) else Ok (Default user))))"

fun config_path_as_ref :: "config_path \<Rightarrow> path" where
  "config_path_as_ref (Specified p) = p"
| "config_path_as_ref (Default p) = p"

definition config_try_default :: "environment \<Rightarrow> fs \<Rightarrow> (upki_error, config) outcome" where
  "config_try_default env s =
     obind (project_dirs env) (\<lambda>(user_cache, _).
     obind (if fs_exists s user_cache then Ok user_cache
            else obind (system_cache_dir env) (\<lambda>system_cache.
              if fs_exists s system_cache then Ok system_cache else Ok user_cache)) (\<lambda>cache_dir.
       Ok \<lparr>cfg_cache_dir = cache_dir, cfg_revocation = revocation_config_default\<rparr>))"

definition config_from_file :: "environment \<Rightarrow> fs \<Rightarrow> path \<Rightarrow> (upki_error, config) outcome" where
  "config_from_file env s p =
     obind (map_err (\<lambda>e. ConfigFileRead e p) (fs_read_to_string s p)) (\<lambda>content.
       map_err (\<lambda>e. ConfigError e p) (lift_sum (env_toml env content)))"

fun config_from_file_or_user_default ::
  "environment \<Rightarrow> fs \<Rightarrow> config_path \<Rightarrow> (upki_error, config) outcome" where
  "config_from_file_or_user_default env s (Default p) =
     (if fs_exists s p then config_from_file env s p else config_try_default env s)"
| "config_from_file_or_user_default env s (Specified p) = config_from_file env s p"

definition revocation_cache_dir :: "config \<Rightarrow> path" where
  "revocation_cache_dir c = path_join (cfg_cache_dir c) ''revocation''"

fun upki_error_source :: "upki_error \<Rightarrow> (cause + rev_error) option" where
  "upki_error_source (ConfigError e _) = Some (Inl (ExtCause e))"
| "upki_error_source (ConfigFileRead e _) = Some (Inl (IoCause e))"
| "upki_error_source NoCacheDirectoryFound = None"
| "upki_error_source NoConfigDirectoryFound = None"
| "upki_error_source NoValidHomeDirectory = None"
| "upki_error_source (RevocationError e) = Some (Inr e)"

text \<open>\<open>Display\<close>; \<open>Path::display\<close> prints the path as it is.\<close>

fun upki_error_display :: "upki_error \<Rightarrow> string" where
  "upki_error_display (ConfigError _ p) = ''failed to parse config file at '' @ p"
| "upki_error_display (ConfigFileRead _ p) = ''failed to read config file at '' @ p"
| "upki_error_display NoCacheDirectoryFound = ''no cache directory could be found''"
| "upki_error_display NoConfigDirectoryFound = ''no configuration directory could be found''"
| "upki_error_display NoValidHomeDirectory =
     ''could not determine user'' @ [char_of (39::nat)] @ ''s home directory''"
| "upki_error_display (RevocationError _) = ''revocation error''"

lemma path_key_revocation_cache_dir:
  "path_key (revocation_cache_dir c) = path_key (cfg_cache_dir c) @ [''revocation'']"
  unfolding revocation_cache_dir_def by (rule path_key_join) (simp add: plain_name_def)

lemma config_no_panic: "config_path_new env s p \<noteq> Panic" "config_from_file_or_user_default env s cp \<noteq> Panic"
proof -
  have "fs_read s q \<noteq> Panic" for q
    by (auto simp: fs_read_def split: option.splits node.splits)
  then show "config_path_new env s p \<noteq> Panic" "config_from_file_or_user_default env s cp \<noteq> Panic"
    by (cases cp; auto simp: config_path_new_def config_from_file_def config_try_default_def outcome_simps Let_def
        project_dirs_def system_config_dir_def system_cache_dir_def fs_read_to_string_def
        split: target.splits option.splits if_splits)+
qed

section \<open>Properties\<close>

text \<open>The first of two candidate paths that exists, else the first.\<close>

definition first_existing :: "fs \<Rightarrow> path \<Rightarrow> path \<Rightarrow> path" where
  "first_existing s user system = (case find (fs_exists s) [user, system] of Some p \<Rightarrow> p | None \<Rightarrow> user)"

text \<open>
  The search order of the configuration. A path that is specified is used as it is; otherwise
  the user's configuration file is preferred to the system's, and is the default when neither
  exists. The cache directory of the default configuration is chosen the same way. Without a home
  directory both fail.
\<close>

lemma config_search_order:
  "config_path_new env s specified =
     (case specified of
        Some p \<Rightarrow> Ok (Specified p)
      | None \<Rightarrow>
          (case env_project_dirs env of
             None \<Rightarrow> Err NoValidHomeDirectory
           | Some (_, dir) \<Rightarrow>
               Ok (Default (first_existing s (path_join dir CONFIG_FILE)
                 (case env_target env of
                    TargetApple \<Rightarrow> ''/Library/Application Support/upki/config.toml''
                  | TargetUnix \<Rightarrow> ''/etc/upki/config.toml'')))))
   \<and> config_try_default env s =
     (case env_project_dirs env of
        None \<Rightarrow> Err NoValidHomeDirectory
      | Some (cache, _) \<Rightarrow>
          Ok \<lparr>cfg_cache_dir = first_existing s cache
                (case env_target env of
                   TargetApple \<Rightarrow> ''/Library/Caches/dev.rustls.upki''
                 | TargetUnix \<Rightarrow> ''/var/cache/upki''),
              cfg_revocation = revocation_config_default\<rparr>)"
  by (auto simp: config_path_new_def config_try_default_def project_dirs_def system_config_dir_def
      system_cache_dir_def first_existing_def Let_def path_join_def is_absolute_def PREFIX_def
      BUNDLE_ID_def CONFIG_FILE_def split: option.splits target.splits)

text \<open>
  Loading through a configuration path. A missing file at a default location gives the default
  configuration, a missing file at a specified location is an error, and a file that exists is
  decoded in both cases; its contents must be UTF-8 text.
\<close>

lemma config_load_cases:
  "(node_at s (path_key p) = None \<longrightarrow>
      config_from_file_or_user_default env s (Default p) = config_try_default env s
      \<and> (fs_fault s OpOpen (path_key p) = None \<longrightarrow>
           config_from_file_or_user_default env s (Specified p) = Err (ConfigFileRead NotFound p)))
   \<and> (file_at s (path_key p) = Some b \<and> fs_fault s OpOpen (path_key p) = None
      \<and> fs_fault s OpRead (path_key p) = None \<and> fs_fault s OpStat (path_key p) = None \<longrightarrow>
      (\<forall>cp \<in> {Default p, Specified p}. config_from_file_or_user_default env s cp =
        (case from_utf8 b of
           None \<Rightarrow> Err (ConfigFileRead InvalidData p)
         | Some text \<Rightarrow> map_err (\<lambda>e. ConfigError e p) (lift_sum (env_toml env text)))))"
  by (auto simp: fs_exists_def config_from_file_def fs_read_to_string_def fs_read_def file_at_def
      split: option.splits node.splits)

definition sample_env :: environment where
  "sample_env =
     \<lparr>env_target = TargetUnix, env_project_dirs = Some (''/home/u/cache'', ''/home/u/config''),
      env_toml = (\<lambda>t. if t = '''' then Inl ''missing field'' else
        Inr \<lparr>cfg_cache_dir = t, cfg_revocation = revocation_config_default\<rparr>)\<rparr>"

lemma config_load_cases_witness:
  "config_from_file_or_user_default sample_env \<lparr>fs_nodes = [], fs_fault = (\<lambda>_ _. None)\<rparr> (Specified ''/nowhere'')
     = Err (ConfigFileRead NotFound ''/nowhere'')
   \<and> config_from_file_or_user_default sample_env
       \<lparr>fs_nodes = [([''c''], File (as_bytes ''/data''))], fs_fault = (\<lambda>_ _. None)\<rparr> (Default ''/c'')
     = Ok \<lparr>cfg_cache_dir = ''/data'', cfg_revocation = revocation_config_default\<rparr>"
proof (intro conjI)
  have k: "path_key ''/nowhere'' = [''nowhere'']" "path_key ''/c'' = [''c'']" by code_simp+
  show "config_from_file_or_user_default sample_env \<lparr>fs_nodes = [], fs_fault = (\<lambda>_ _. None)\<rparr> (Specified ''/nowhere'')
     = Err (ConfigFileRead NotFound ''/nowhere'')"
    by (rule config_load_cases [THEN conjunct1, rule_format, THEN conjunct2, rule_format])
       (simp_all add: k node_at_def)
  have u: "from_utf8 (as_bytes ''/data'') = Some ''/data''" by code_simp
  show "config_from_file_or_user_default sample_env
       \<lparr>fs_nodes = [([''c''], File (as_bytes ''/data''))], fs_fault = (\<lambda>_ _. None)\<rparr> (Default ''/c'')
     = Ok \<lparr>cfg_cache_dir = ''/data'', cfg_revocation = revocation_config_default\<rparr>"
    using config_load_cases [of "\<lparr>fs_nodes = [([''c''], File (as_bytes ''/data''))], fs_fault = (\<lambda>_ _. None)\<rparr>"
        "''/c''" sample_env "as_bytes ''/data''"]
    by (simp add: k file_at_def node_at_def u) (simp add: sample_env_def)
qed

end
