(* ===== verification/Index.thy ===== *)
theory Index
  imports Config
begin

text \<open>
  The revocation index of \<open>upki/src/revocation/index.rs\<close>: the reader of the header and tables
  (\<open>Index::from_cache\<close>), the writer (\<open>Index::write\<close>), the binary search over the log directory and
  the revocation check (\<open>Index::check\<close>) that loads only the filters covering a certificate.

  The CRLite filter crate is the argument \<open>crlite\<close>, a record of the three operations called on it:
  decoding a filter, its universe (the logs and timestamp intervals it covers) and the membership
  query. Both index versions (\<open>upkiidx0\<close> with \<open>u8\<close> filter indices, \<open>upkiidx1\<close> with \<open>u16\<close>) are
  modelled, and every slice operation can panic.
\<close>

section \<open>Layout constants\<close>

definition HEADER_SIZE_V1 :: nat where "HEADER_SIZE_V1 = 8 + 2 + 4"
definition HEADER_SIZE_V0 :: nat where "HEADER_SIZE_V0 = 8 + 1 + 4"
definition FILENAME_SIZE :: nat where "FILENAME_SIZE = 32"
definition LOG_DIR_ENTRY_SIZE :: nat where "LOG_DIR_ENTRY_SIZE = 32 + 8 + 2"
definition ENTRY_SIZE_V1 :: nat where "ENTRY_SIZE_V1 = 2 + 8 + 8"
definition ENTRY_SIZE_V0 :: nat where "ENTRY_SIZE_V0 = 1 + 8 + 8"
definition INDEX_BIN :: string where "INDEX_BIN = ''index.bin''"
definition INDEX_MAGIC_V1 :: bytes where "INDEX_MAGIC_V1 = as_bytes ''upkiidx1''"
definition INDEX_MAGIC_V0 :: bytes where "INDEX_MAGIC_V0 = as_bytes ''upkiidx0''"

lemmas layout_consts = HEADER_SIZE_V1_def HEADER_SIZE_V0_def FILENAME_SIZE_def
  LOG_DIR_ENTRY_SIZE_def ENTRY_SIZE_V1_def ENTRY_SIZE_V0_def

section \<open>Reading big-endian fields\<close>

text \<open>The trait \<open>FromBeBytes<N>\<close>, at the four integer types that implement it.\<close>

definition read_be :: "bytes \<Rightarrow> (rev_error, 'a::len word \<times> bytes) outcome" where
  "read_be data =
     (let n = LENGTH('a) div 8
      in if n \<le> length data then Ok (from_be_bytes (take n data), drop n data)
         else Err (IndexDecode (MsgCause ''unexpected end of index data'')))"

section \<open>The CRLite filter interface\<close>

datatype crlite_status = Good | NotEnrolled | NotCovered | Revoked

record 'c crlite =
  cl_from_bytes :: "bytes \<Rightarrow> string + 'c"
  cl_universe :: "'c \<Rightarrow> (bytes \<times> u64 \<times> u64) list"
  cl_contains :: "'c \<Rightarrow> crlite_key \<Rightarrow> (bytes \<times> u64) list \<Rightarrow> crlite_status"

section \<open>Loading the index\<close>

record index =
  ix_cache_dir :: path
  ix_num_filenames :: nat
  ix_num_logs :: nat
  ix_logs_offset :: nat
  ix_entry_size :: nat
  ix_tables :: bytes
  ix_file :: file_handle

definition index_io :: "(io_error, 'a) outcome \<Rightarrow> (rev_error, 'a) outcome" where
  "index_io r = map_err (\<lambda>e. IndexDecode (IoCause e)) r"

definition read_num_filenames :: "nat \<Rightarrow> bytes \<Rightarrow> (rev_error, nat \<times> bytes) outcome" where
  "read_num_filenames entry_size data =
     (if entry_size = ENTRY_SIZE_V0
      then map_ok (\<lambda>(w, rest). (unat (w :: u8), rest)) (read_be data)
      else map_ok (\<lambda>(w, rest). (unat (w :: u16), rest)) (read_be data))"

definition from_cache :: "config \<Rightarrow> fs \<Rightarrow> (rev_error, index) outcome" where
  "from_cache config s =
     (let cache_dir = revocation_cache_dir config; index_path = path_join cache_dir INDEX_BIN in
      obind (map_err (\<lambda>e. FileRead e (Some index_path)) (file_open s index_path)) (\<lambda>file.
      obind (index_io (read_exact file 8)) (\<lambda>(magic, file).
      obind (if magic = INDEX_MAGIC_V1 then Ok (HEADER_SIZE_V1, ENTRY_SIZE_V1)
             else if magic = INDEX_MAGIC_V0 then Ok (HEADER_SIZE_V0, ENTRY_SIZE_V0)
             else Err (IndexDecode (MsgCause ''invalid index magic''))) (\<lambda>(header_size, entry_size).
      obind (index_io (read_exact file (header_size - 8))) (\<lambda>(header, file).
      obind (read_num_filenames entry_size header) (\<lambda>(num_filenames, data).
      obind (read_be data) (\<lambda>(num_logs :: u32, _).
      let logs_offset = num_filenames * FILENAME_SIZE;
          tables_len = logs_offset + unat num_logs * LOG_DIR_ENTRY_SIZE
      in obind (map_err (\<lambda>e. FileRead e (Some index_path)) (lift_sum (fh_meta file))) (\<lambda>file_len.
         if header_size + tables_len > file_len
         then Err (IndexDecode (MsgCause ''index tables truncated''))
         else obind (index_io (read_exact file tables_len)) (\<lambda>(tables, file).
           Ok \<lparr>ix_cache_dir = cache_dir, ix_num_filenames = num_filenames, ix_num_logs = unat num_logs,
               ix_logs_offset = logs_offset, ix_entry_size = entry_size, ix_tables = tables,
               ix_file = file\<rparr>)))))))))"

section \<open>Checking a certificate\<close>

datatype cmp_order = Less | Equal | Greater

definition slice_cmp :: "bytes \<Rightarrow> bytes \<Rightarrow> cmp_order" where
  "slice_cmp a b = (if a < b then Less else if a = b then Equal else Greater)"

function log_search :: "bytes \<Rightarrow> bytes \<Rightarrow> nat \<Rightarrow> nat \<Rightarrow> (rev_error, nat option) outcome" where
  "log_search dir_data target lo hi =
     (if lo \<ge> hi then Ok None
      else
        let mid = lo + (hi - lo) div 2; offset = mid * LOG_DIR_ENTRY_SIZE
        in obind (slice_range offset (offset + 32) dir_data) (\<lambda>log_id.
             case slice_cmp log_id target of
               Less \<Rightarrow> log_search dir_data target (mid + 1) hi
             | Equal \<Rightarrow> Ok (Some offset)
             | Greater \<Rightarrow> log_search dir_data target lo mid))"
  by pat_completeness auto
termination
  by (relation "measure (\<lambda>(d, t, lo, hi). hi - lo)") auto

declare log_search.simps [simp del]

definition index_filename :: "index \<Rightarrow> nat \<Rightarrow> (rev_error, string) outcome" where
  "index_filename ix i =
     (if i \<ge> ix_num_filenames ix
      then Err (IndexDecode (MsgCause ''filter index out of bounds''))
      else let start = i * FILENAME_SIZE in
        obind (slice_range start (start + FILENAME_SIZE) (ix_tables ix)) (\<lambda>slot.
          ok_or (IndexDecode Utf8Cause) (from_utf8 (takeWhile (\<lambda>b. b \<noteq> 0) slot))))"

type_synonym entry = "nat \<times> u64 \<times> u64"

definition read_entry :: "nat \<Rightarrow> bytes \<Rightarrow> (rev_error, entry \<times> bytes) outcome" where
  "read_entry entry_size data =
     obind (read_num_filenames entry_size data) (\<lambda>(filter_index, data).
     obind (read_be data) (\<lambda>(min_ts, data).
     obind (read_be data) (\<lambda>(max_ts, data).
       Ok ((filter_index, min_ts, max_ts), data))))"

definition query_filter ::
  "'c crlite \<Rightarrow> fs \<Rightarrow> path \<Rightarrow> revocation_check_input \<Rightarrow> string \<Rightarrow> (rev_error, crlite_status) outcome" where
  "query_filter cl s cache_dir input filename =
     (let path = path_join cache_dir filename in
      obind (map_err (\<lambda>e. FileRead e (Some path)) (fs_read s path)) (\<lambda>bytes.
      obind (map_err (\<lambda>e. FileDecode (MsgCause (''cannot decode crlite filter: '' @ e)) (Some path))
               (lift_sum (cl_from_bytes cl bytes))) (\<lambda>clubcard.
        Ok (cl_contains cl clubcard (input_key input)
              (map (\<lambda>t. (ct_log_id t, ct_time t)) (in_sct_timestamps input))))))"

text \<open>The loop body leaves the function with a verdict, or goes on with new loop variables.\<close>

datatype 'a flow = Return revocation_status | Continue 'a

fun scan_entries ::
  "'c crlite \<Rightarrow> fs \<Rightarrow> index \<Rightarrow> revocation_check_input \<Rightarrow> u64 \<Rightarrow> nat \<Rightarrow> bytes \<Rightarrow> bool list \<Rightarrow> bool
   \<Rightarrow> (rev_error, (bool list \<times> bool) flow) outcome" where
  "scan_entries cl s ix input ts 0 data seen good = Ok (Continue (seen, good))"
| "scan_entries cl s ix input ts (Suc n) data seen good =
     obind (read_entry (ix_entry_size ix) data) (\<lambda>((filter_index, min_ts, max_ts), data).
       if min_ts > ts \<or> ts > max_ts then scan_entries cl s ix input ts n data seen good
       else obind (index_filename ix filter_index) (\<lambda>filename.
         obind (index_at seen filter_index) (\<lambda>already.
           if already then scan_entries cl s ix input ts n data seen good
           else obind (store_at seen filter_index True) (\<lambda>seen.
             obind (query_filter cl s (ix_cache_dir ix) input filename) (\<lambda>status.
               case status of
                 Revoked \<Rightarrow> Ok (Return CertainlyRevoked)
               | Good \<Rightarrow> scan_entries cl s ix input ts n data seen True
               | NotEnrolled \<Rightarrow> scan_entries cl s ix input ts n data seen good
               | NotCovered \<Rightarrow> scan_entries cl s ix input ts n data seen good)))))"

fun check_scts ::
  "'c crlite \<Rightarrow> fs \<Rightarrow> index \<Rightarrow> revocation_check_input \<Rightarrow> bytes \<Rightarrow> ct_timestamp list \<Rightarrow> file_handle
   \<Rightarrow> bool list \<Rightarrow> bool \<Rightarrow> (rev_error, revocation_status \<times> file_handle) outcome" where
  "check_scts cl s ix input dir_data [] file seen maybe_good =
     Ok (if maybe_good then NotRevoked else NotCoveredByRevocationData, file)"
| "check_scts cl s ix input dir_data (sct # scts) file seen maybe_good =
     obind (log_search dir_data (ct_log_id sct) 0 (ix_num_logs ix)) (\<lambda>found.
       case found of
         None \<Rightarrow> check_scts cl s ix input dir_data scts file seen maybe_good
       | Some entry_offset \<Rightarrow>
           obind (slice_from (entry_offset + 32) dir_data) (\<lambda>entry_data.
           obind (read_be entry_data) (\<lambda>(offset :: u64, entry_data).
           obind (read_be entry_data) (\<lambda>(count :: u16, _).
           obind (index_io (seek_start file offset)) (\<lambda>file.
           obind (index_io (read_exact file (unat count * ix_entry_size ix))) (\<lambda>(buf, file).
           obind (scan_entries cl s ix input (ct_time sct) (unat count) buf seen maybe_good) (\<lambda>flow.
             case flow of
               Return st \<Rightarrow> Ok (st, file)
             | Continue (seen, good) \<Rightarrow> check_scts cl s ix input dir_data scts file seen good)))))))"

definition check ::
  "'c crlite \<Rightarrow> fs \<Rightarrow> index \<Rightarrow> revocation_check_input \<Rightarrow> (rev_error, revocation_status \<times> index) outcome" where
  "check cl s ix input =
     obind (slice_from (ix_logs_offset ix) (ix_tables ix)) (\<lambda>dir_data.
     obind (check_scts cl s ix input dir_data (in_sct_timestamps input) (ix_file ix)
              (replicate (ix_num_filenames ix) False) False) (\<lambda>(st, file).
       Ok (st, ix\<lparr>ix_file := file\<rparr>)))"

section \<open>Writing the index\<close>

text \<open>\<open>BTreeMap\<close>: an association list kept in the order of its keys.\<close>

type_synonym 'v btree_map = "(bytes \<times> 'v) list"

fun push_entry :: "bytes \<Rightarrow> 'e \<Rightarrow> 'e list btree_map \<Rightarrow> 'e list btree_map" where
  "push_entry k e [] = [(k, [e])]"
| "push_entry k e ((k', es) # m) =
     (if k = k' then (k', es @ [e]) # m
      else if k < k' then (k, [e]) # (k', es) # m
      else (k', es) # push_entry k e m)"

type_synonym log_map = "(u16 \<times> u64 \<times> u64) list btree_map"

definition add_universe :: "nat \<Rightarrow> (bytes \<times> u64 \<times> u64) list \<Rightarrow> log_map \<Rightarrow> log_map" where
  "add_universe filter_idx universe m =
     fold (\<lambda>(log_id, low, high). push_entry log_id (of_nat filter_idx, low, high)) universe m"

fun collect_filters ::
  "'c crlite \<Rightarrow> fs \<Rightarrow> path \<Rightarrow> nat \<Rightarrow> manifest_file list \<Rightarrow> log_map \<Rightarrow> log_map option" where
  "collect_filters cl s dir filter_idx [] m = Some m"
| "collect_filters cl s dir filter_idx (flt # files) m =
     (if length (as_bytes (mf_filename flt)) > FILENAME_SIZE then None
      else case fs_read s (path_join dir (mf_filename flt)) of
        Ok bytes \<Rightarrow>
          (case cl_from_bytes cl bytes of
             Inr clubcard \<Rightarrow>
               collect_filters cl s dir (Suc filter_idx) files
                 (add_universe filter_idx (cl_universe cl clubcard) m)
           | Inl _ \<Rightarrow> None)
      | _ \<Rightarrow> None)"

definition filename_slot :: "string \<Rightarrow> bytes" where
  "filename_slot filename =
     (let bytes = as_bytes filename in bytes @ replicate (FILENAME_SIZE - length bytes) 0)"

fun dir_entries :: "nat \<Rightarrow> nat \<Rightarrow> 'e list btree_map \<Rightarrow> (bytes \<times> u64 \<times> u16) list" where
  "dir_entries entry_size current_offset [] = []"
| "dir_entries entry_size current_offset ((log_id, entries) # m) =
     (log_id, of_nat current_offset, of_nat (length entries))
     # dir_entries entry_size (current_offset + length entries * entry_size) m"

definition put_dir_entry :: "bytes \<times> u64 \<times> u16 \<Rightarrow> bytes" where
  "put_dir_entry e = (case e of (log_id, offset, count) \<Rightarrow> log_id @ to_be_bytes offset @ to_be_bytes count)"

definition put_entry_v1 :: "u16 \<times> u64 \<times> u64 \<Rightarrow> bytes" where
  "put_entry_v1 e = (case e of (idx, low, high) \<Rightarrow> to_be_bytes idx @ to_be_bytes low @ to_be_bytes high)"

definition index_write :: "'c crlite \<Rightarrow> fs \<Rightarrow> manifest \<Rightarrow> path \<Rightarrow> bytes option" where
  "index_write cl s m dir =
     (case collect_filters cl s dir 0 (m_files m) [] of
        None \<Rightarrow> None
      | Some by_log_id \<Rightarrow>
          let header_size = HEADER_SIZE_V1 + length (m_files m) * FILENAME_SIZE
                + length by_log_id * LOG_DIR_ENTRY_SIZE
          in Some (INDEX_MAGIC_V1
               @ to_be_bytes (of_nat (length (m_files m)) :: u16)
               @ to_be_bytes (of_nat (length by_log_id) :: u32)
               @ concat (map (\<lambda>f. filename_slot (mf_filename f)) (m_files m))
               @ concat (map put_dir_entry (dir_entries ENTRY_SIZE_V1 header_size by_log_id))
               @ concat (map (\<lambda>(_, entries). concat (map put_entry_v1 entries)) by_log_id)))"

end
