(* ===== verification/Samples.thy ===== *)
theory Samples
  imports Index
begin

text \<open>
  A small concrete system on which the theorems are instantiated: a filter format whose filters are
  their own bytes (the first byte is the answer), a cache directory with two filters, and an index
  written from it.
\<close>

definition sample_log :: bytes where
  "sample_log = replicate 32 7"

definition sample_crlite :: "bytes crlite" where
  "sample_crlite =
     \<lparr>cl_from_bytes = (\<lambda>b. if b = [] then Inl ''empty'' else Inr b),
      cl_universe = (\<lambda>c. [(sample_log, 10, 20)]),
      cl_contains = (\<lambda>c key ts.
        if list_ex (\<lambda>t. fst t = sample_log \<and> 10 \<le> snd t \<and> snd t \<le> 20) ts
        then (if c = [1] then Revoked else if c = [2] then Good else NotEnrolled) else NotCovered)\<rparr>"

definition sample_config :: config where
  "sample_config = \<lparr>cfg_cache_dir = ''/c'', cfg_revocation = revocation_config_default\<rparr>"

definition sample_file :: "string \<Rightarrow> manifest_file" where
  "sample_file name = \<lparr>mf_filename = name, mf_size = 1, mf_hash = []\<rparr>"

definition sample_manifest :: manifest where
  "sample_manifest = \<lparr>m_generated_at = 0, m_comment = '''', m_files = [sample_file ''a'', sample_file ''b'']\<rparr>"

definition sample_nodes :: "(key \<times> node) list" where
  "sample_nodes =
     [([''c''], Dir), ([''c'', ''revocation''], Dir),
      ([''c'', ''revocation'', ''a''], File [2]), ([''c'', ''revocation'', ''b''], File [1])]"

definition sample_fs :: fs where
  "sample_fs = \<lparr>fs_nodes = sample_nodes, fs_fault = (\<lambda>_ _. None)\<rparr>"

definition sample_index :: bytes where
  "sample_index =
     INDEX_MAGIC_V1 @ [0, 2] @ [0, 0, 0, 1] @ filename_slot ''a'' @ filename_slot ''b''
     @ sample_log @ [0, 0, 0, 0, 0, 0, 0, 120] @ [0, 2]
     @ [0, 0] @ [0, 0, 0, 0, 0, 0, 0, 10] @ [0, 0, 0, 0, 0, 0, 0, 20]
     @ [0, 1] @ [0, 0, 0, 0, 0, 0, 0, 10] @ [0, 0, 0, 0, 0, 0, 0, 20]"

definition sample_fs_indexed :: fs where
  "sample_fs_indexed =
     \<lparr>fs_nodes = ([''c'', ''revocation'', ''index.bin''], File sample_index) # sample_nodes,
      fs_fault = (\<lambda>_ _. None)\<rparr>"

definition sample_input :: revocation_check_input where
  "sample_input =
     \<lparr>in_cert_serial = [1], in_issuer_spki_hash = replicate 32 0,
      in_sct_timestamps = [\<lparr>ct_log_id = sample_log, ct_time = 15\<rparr>],
      in_issuer_serial_hash = replicate 32 1\<rparr>"

lemma sample_revocation_dir: "revocation_cache_dir sample_config = ''/c/revocation''"
  by (simp add: revocation_cache_dir_def sample_config_def path_join_def is_absolute_def)

lemma sample_keys:
  "path_key ''/c/revocation/index.bin'' = [''c'', ''revocation'', ''index.bin'']"
  "path_key ''/c/revocation/a'' = [''c'', ''revocation'', ''a'']"
  "path_key ''/c/revocation/b'' = [''c'', ''revocation'', ''b'']"
  by code_simp+

lemma sample_join:
  "path_join ''/c/revocation'' INDEX_BIN = ''/c/revocation/index.bin''"
  "path_join ''/c/revocation'' ''a'' = ''/c/revocation/a''"
  "path_join ''/c/revocation'' ''b'' = ''/c/revocation/b''"
  by code_simp+

lemma sample_index_write:
  "index_write sample_crlite sample_fs sample_manifest ''/c/revocation'' = Some sample_index"
  by code_simp

text \<open>The index as it is loaded, and a check through it.\<close>

definition sample_loaded :: index where
  "sample_loaded =
     \<lparr>ix_cache_dir = ''/c/revocation'', ix_num_filenames = 2, ix_num_logs = 1, ix_logs_offset = 64,
      ix_entry_size = 18, ix_tables = take 106 (drop 14 sample_index),
      ix_file = \<lparr>fh_data = Inr sample_index, fh_meta = Inr 156, fh_pos = 120\<rparr>\<rparr>"

lemma sample_from_cache: "from_cache sample_config sample_fs_indexed = Ok sample_loaded"
  by code_simp

definition sample_dir_data :: bytes where "sample_dir_data = drop 64 (ix_tables sample_loaded)"
lemma sample_check_steps:
  "slice_from 64 (ix_tables sample_loaded) = (Ok sample_dir_data :: (rev_error, bytes) outcome)"
  "log_search sample_dir_data sample_log 0 (Suc 0) = Ok (Some 0)"
  "slice_from 32 sample_dir_data = (Ok [0, 0, 0, 0, 0, 0, 0, 120, 0, 2] :: (rev_error, bytes) outcome)"
  "read_be [0, 0, 0, 0, 0, 0, 0, 120, 0, 2] = Ok (120 :: u64, [0, 2])"
  "read_be [0, 2] = Ok (2 :: u16, [])"
  "read_exact (ix_file sample_loaded) 36 = Ok (drop 120 sample_index, (ix_file sample_loaded)\<lparr>fh_pos := 156\<rparr>)"
  "scan_entries sample_crlite sample_fs_indexed sample_loaded sample_input 15 2 (drop 120 sample_index)
     [False, False] False = Ok (Return CertainlyRevoked)"
  by code_simp+

lemma sample_seek: "seek_start (ix_file sample_loaded) 120 = Ok (ix_file sample_loaded)"
  by (simp add: seek_start_def sample_loaded_def)

lemma sample_check:
  "check sample_crlite sample_fs_indexed sample_loaded sample_input
   = Ok (CertainlyRevoked, sample_loaded\<lparr>ix_file := (ix_file sample_loaded)\<lparr>fh_pos := 156\<rparr>\<rparr>)"
proof -
  have ix: "ix_logs_offset sample_loaded = 64" "ix_num_logs sample_loaded = 1"
    "ix_num_filenames sample_loaded = 2" "ix_entry_size sample_loaded = 18"
    "in_sct_timestamps sample_input = [\<lparr>ct_log_id = sample_log, ct_time = 15\<rparr>]"
    by (simp_all add: sample_loaded_def sample_input_def)
  have seen: "replicate 2 False = [False, False]" by (simp add: numeral_2_eq_2)
  show ?thesis
    by (simp add: check_def ix sample_check_steps index_io_def sample_seek seen)
qed

text \<open>
  A certificate parser for which a certificate is its own content: the serial of an end-entity
  certificate and the key of an issuer are its bytes, and every certificate has the same name.
\<close>

definition sample_webpki :: "(bytes, bytes) webpki" where
  "sample_webpki =
     \<lparr>wp_end_entity = (\<lambda>b. if b = [] then Inl ''bad'' else Inr b), wp_issuer = (\<lambda>_. [9]), wp_serial = take 1,
      wp_scts = (\<lambda>_. Inr [Inr \<lparr>ct_log_id = sample_log, ct_time = 15\<rparr>]),
      wp_anchor = (\<lambda>b. if b = [] then Inl ''bad'' else Inr b), wp_subject = (\<lambda>_. [9]), wp_spki = take 1\<rparr>"

lemma sample_webpki_short:
  "8 * (32 + length (wp_serial sample_webpki ee)) \<le> usize_max" "8 * length (wp_spki sample_webpki ta) \<le> usize_max"
  by (simp_all add: sample_webpki_def usize_max_def)

end
