(* ===== verification/Index_Safety.thy ===== *)
theory Index_Safety
  imports Samples
begin

text \<open>
  Robustness of the index reader: whatever bytes \<open>index.bin\<close> holds and whatever the file system
  does, loading the index and checking a certificate return a result or an error and never panic,
  and the memory they reserve is bounded. The codecs of the index fields are instances of the
  interface \<open>field_codec\<close>.
\<close>

section \<open>Fixed-width fields\<close>

text \<open>
  A field of \<open>width\<close> bytes written by \<open>put\<close> and read by \<open>get\<close>, which returns the rest of the data;
  \<open>valid\<close> are the values the field can hold.
\<close>

fun read_many ::
  "(bytes \<Rightarrow> (rev_error, 'a \<times> bytes) outcome) \<Rightarrow> nat \<Rightarrow> bytes \<Rightarrow> (rev_error, 'a list \<times> bytes) outcome" where
  "read_many get 0 data = Ok ([], data)"
| "read_many get (Suc n) data =
     obind (get data) (\<lambda>(x, data). obind (read_many get n data) (\<lambda>(xs, data). Ok (x # xs, data)))"

locale field_codec =
  fixes width :: nat
    and put :: "'a \<Rightarrow> bytes"
    and get :: "bytes \<Rightarrow> (rev_error, 'a \<times> bytes) outcome"
    and valid :: "'a \<Rightarrow> bool"
  assumes length_put: "valid x \<Longrightarrow> length (put x) = width"
    and get_put: "valid x \<Longrightarrow> get (put x @ rest) = Ok (x, rest)"
    and get_total: "width \<le> length data \<Longrightarrow> \<exists>x. get data = Ok (x, drop width data)"
    and get_short: "length data < width \<Longrightarrow> \<exists>e. get data = Err e"
begin

lemma get_no_panic: "get data \<noteq> Panic"
  using get_total [of data] get_short [of data] by (cases "width \<le> length data") auto

lemma get_rest: "get data = Ok (x, rest) \<Longrightarrow> width \<le> length data \<and> rest = drop width data"
  using get_total [of data] get_short [of data] by (cases "width \<le> length data") auto

lemma read_many_total:
  "n * width \<le> length data \<Longrightarrow>
   \<exists>xs. length xs = n \<and> read_many get n data = Ok (xs, drop (n * width) data)"
proof (induction n arbitrary: data)
  case 0
  then show ?case by simp
next
  case (Suc n)
  then have "width \<le> length data" by simp
  from get_total [OF this] obtain x where x: "get data = Ok (x, drop width data)" by blast
  from Suc.prems have "n * width \<le> length (drop width data)" by simp
  from Suc.IH [OF this] obtain xs where
    "length xs = n" "read_many get n (drop width data) = Ok (xs, drop (n * width) (drop width data))"
    by blast
  with x show ?case by (auto simp: add.commute intro: exI [of _ "x # xs"])
qed

lemma read_many_put:
  "list_all valid xs \<Longrightarrow> read_many get (length xs) (concat (map put xs) @ rest) = Ok (xs, rest)"
  by (induction xs) (auto simp: get_put)

lemma length_put_many: "list_all valid xs \<Longrightarrow> length (concat (map put xs)) = length xs * width"
  by (induction xs) (auto simp: length_put)

end

section \<open>Codecs of the index\<close>

definition any_value :: "'a \<Rightarrow> bool" where
  "any_value x = True"

lemma any_value [simp]: "any_value x"
  by (simp add: any_value_def)

lemma read_be_put:
  assumes "8 dvd LENGTH('a::len)"
  shows "read_be (to_be_bytes (w :: 'a word) @ rest) = Ok (w, rest)"
  using assms by (simp add: read_be_def length_to_be_bytes from_to_be_bytes)

lemma read_be_total:
  "LENGTH('a::len) div 8 \<le> length data \<Longrightarrow>
   \<exists>x. (read_be data :: (rev_error, 'a word \<times> bytes) outcome) = Ok (x, drop (LENGTH('a) div 8) data)"
  by (simp add: read_be_def Let_def)

lemma read_be_short:
  "length data < LENGTH('a::len) div 8 \<Longrightarrow>
   \<exists>e. (read_be data :: (rev_error, 'a word \<times> bytes) outcome) = Err e"
  by (simp add: read_be_def)

interpretation u8: field_codec 1 "to_be_bytes :: u8 \<Rightarrow> bytes" read_be any_value
  using read_be_total [where ?'a = 8] read_be_short [where ?'a = 8]
  by unfold_locales (auto simp: read_be_put)

interpretation u16: field_codec 2 "to_be_bytes :: u16 \<Rightarrow> bytes" read_be any_value
  using read_be_total [where ?'a = 16] read_be_short [where ?'a = 16]
  by unfold_locales (auto simp: read_be_put)

interpretation u32: field_codec 4 "to_be_bytes :: u32 \<Rightarrow> bytes" read_be any_value
  using read_be_total [where ?'a = 32] read_be_short [where ?'a = 32]
  by unfold_locales (auto simp: read_be_put)

interpretation u64: field_codec 8 "to_be_bytes :: u64 \<Rightarrow> bytes" read_be any_value
  using read_be_total [where ?'a = 64] read_be_short [where ?'a = 64]
  by unfold_locales (auto simp: read_be_put)

text \<open>The writer of the legacy entries, whose filter index is a \<open>u8\<close>.\<close>

definition put_entry_v0 :: "u8 \<times> u64 \<times> u64 \<Rightarrow> bytes" where
  "put_entry_v0 e = (case e of (idx, low, high) \<Rightarrow> to_be_bytes idx @ to_be_bytes low @ to_be_bytes high)"

definition put_entry :: "nat \<Rightarrow> entry \<Rightarrow> bytes" where
  "put_entry entry_size e =
     (case e of (fi, low, high) \<Rightarrow>
        if entry_size = ENTRY_SIZE_V0 then put_entry_v0 (of_nat fi, low, high)
        else put_entry_v1 (of_nat fi, low, high))"

definition max_filters :: "nat \<Rightarrow> nat" where
  "max_filters entry_size = (if entry_size = ENTRY_SIZE_V0 then 2 ^ 8 else 2 ^ 16)"

definition valid_entry :: "nat \<Rightarrow> entry \<Rightarrow> bool" where
  "valid_entry entry_size e \<longleftrightarrow> fst e < max_filters entry_size"

definition index_width :: "nat \<Rightarrow> nat" where
  "index_width entry_size = (if entry_size = ENTRY_SIZE_V0 then 1 else 2)"

lemma read_num_filenames_total:
  "index_width es \<le> length data \<Longrightarrow>
   \<exists>n. read_num_filenames es data = Ok (n, drop (index_width es) data) \<and> n < max_filters es"
  using u8.get_total [of data] u16.get_total [of data]
    unsigned_less [where ?'a = nat and ?'b = 8] unsigned_less [where ?'a = nat and ?'b = 16]
  by (auto simp: read_num_filenames_def index_width_def max_filters_def)

lemma read_num_filenames_short:
  "length data < index_width es \<Longrightarrow> \<exists>e. read_num_filenames es data = Err e"
  using u8.get_short [of data] u16.get_short [of data]
  by (auto simp: read_num_filenames_def index_width_def)

lemma read_num_filenames_put:
  "n < max_filters es \<Longrightarrow>
   read_num_filenames es
     ((if es = ENTRY_SIZE_V0 then to_be_bytes (of_nat n :: u8) else to_be_bytes (of_nat n :: u16)) @ rest)
   = Ok (n, rest)"
  by (cases "es = ENTRY_SIZE_V0")
     (simp_all add: read_num_filenames_def max_filters_def u8.get_put u16.get_put unat_of_nat_small)

definition entry_width :: "nat \<Rightarrow> nat" where
  "entry_width entry_size = index_width entry_size + 16"

lemma entry_codec: "field_codec (entry_width es) (put_entry es) (read_entry es) (valid_entry es)"
proof
  fix x assume "valid_entry es x"
  then show "length (put_entry es x) = entry_width es"
    by (auto simp: put_entry_def put_entry_v0_def put_entry_v1_def entry_width_def index_width_def
        split: prod.splits)
next
  fix x rest assume v: "valid_entry es x"
  obtain fi lo hi where x: "x = (fi, lo, hi)" by (cases x)
  have "put_entry es x @ rest =
      (if es = ENTRY_SIZE_V0 then to_be_bytes (of_nat fi :: u8) else to_be_bytes (of_nat fi :: u16))
        @ to_be_bytes lo @ to_be_bytes hi @ rest"
    by (simp add: x put_entry_def put_entry_v0_def put_entry_v1_def)
  with v show "read_entry es (put_entry es x @ rest) = Ok (x, rest)"
    by (simp only: read_entry_def read_num_filenames_put x valid_entry_def fst_conv obind.simps)
       (simp add: u64.get_put)
next
  fix data :: bytes assume len: "entry_width es \<le> length data"
  then have w: "index_width es \<le> length data" by (simp add: entry_width_def)
  from read_num_filenames_total [OF this] obtain n where
    n: "read_num_filenames es data = Ok (n, drop (index_width es) data)" by blast
  let ?d1 = "drop (index_width es) data" and ?d2 = "drop 8 (drop (index_width es) data)"
  have "8 \<le> length ?d1" "8 \<le> length ?d2" using len by (auto simp: entry_width_def)
  from u64.get_total [OF this(1)] u64.get_total [OF this(2)] obtain lo hi where
    "read_be ?d1 = Ok (lo :: u64, ?d2)" "read_be ?d2 = Ok (hi :: u64, drop 8 ?d2)" by blast
  with n show "\<exists>x. read_entry es data = Ok (x, drop (entry_width es) data)"
    by (simp add: read_entry_def entry_width_def add.commute)
next
  fix data :: bytes assume len: "length data < entry_width es"
  show "\<exists>e. read_entry es data = Err e"
  proof (cases "length data < index_width es")
    case True
    with read_num_filenames_short show ?thesis by (fastforce simp: read_entry_def)
  next
    case False
    then have "index_width es \<le> length data" by simp
    from read_num_filenames_total [OF this] obtain n where
      n: "read_num_filenames es data = Ok (n, drop (index_width es) data)" by blast
    let ?d1 = "drop (index_width es) data" and ?d2 = "drop 8 (drop (index_width es) data)"
    show ?thesis
    proof (cases "length ?d1 < 8")
      case True
      with n u64.get_short [OF True] show ?thesis by (auto simp: read_entry_def)
    next
      case False
      then have "8 \<le> length ?d1" "length ?d2 < 8" using len by (auto simp: entry_width_def)
      with n u64.get_total [OF this(1)] u64.get_short [OF this(2)] show ?thesis
        by (auto simp: read_entry_def)
    qed
  qed
qed

interpretation entries: field_codec "entry_width es" "put_entry es" "read_entry es" "valid_entry es" for es
  by (rule entry_codec)

section \<open>The loaded index\<close>

definition index_wf :: "index \<Rightarrow> bool" where
  "index_wf ix \<longleftrightarrow>
     ix_logs_offset ix = ix_num_filenames ix * FILENAME_SIZE
     \<and> length (ix_tables ix) = ix_logs_offset ix + ix_num_logs ix * LOG_DIR_ENTRY_SIZE
     \<and> (ix_entry_size ix = ENTRY_SIZE_V0 \<or> ix_entry_size ix = ENTRY_SIZE_V1)
     \<and> ix_num_filenames ix < 2 ^ 16 \<and> ix_num_logs ix < 2 ^ 32"

lemma index_io_iff [outcome_simps]:
  "index_io r = Ok x \<longleftrightarrow> r = Ok x" "index_io r = Panic \<longleftrightarrow> r = Panic"
  by (auto simp: index_io_def outcome_simps)

lemma entry_width_sizes:
  "es = ENTRY_SIZE_V0 \<or> es = ENTRY_SIZE_V1 \<Longrightarrow> entry_width es = es"
  by (auto simp: entry_width_def index_width_def layout_consts)

lemma read_num_filenames_no_panic: "read_num_filenames es data \<noteq> Panic"
  using read_num_filenames_total [of es data] read_num_filenames_short [of data es]
  by (cases "index_width es \<le> length data") auto

lemma read_num_filenames_bound: "read_num_filenames es data = Ok (n, rest) \<Longrightarrow> n < 2 ^ 16"
  using read_num_filenames_total [of es data] read_num_filenames_short [of data es]
  by (cases "index_width es \<le> length data") (auto simp: max_filters_def split: if_splits)

lemma from_cache_index_wf:
  assumes "from_cache config s = Ok ix"
  shows "index_wf ix"
  using assms unfolding from_cache_def Let_def
  by (auto simp: outcome_simps index_wf_def dest!: read_exact_length read_num_filenames_bound
      split: if_splits intro: unsigned_less [where ?'a = nat and ?'b = 32, simplified])

lemma from_cache_no_panic: "from_cache config s \<noteq> Panic"
  unfolding from_cache_def Let_def
  by (auto simp: outcome_simps read_num_filenames_no_panic u32.get_no_panic split: if_splits)

section \<open>No panic on any index\<close>

lemma log_search_safe:
  "hi * LOG_DIR_ENTRY_SIZE \<le> length dir_data \<Longrightarrow>
   ensures (\<lambda>found. \<forall>off. found = Some off \<longrightarrow> off + LOG_DIR_ENTRY_SIZE \<le> length dir_data)
     (log_search dir_data target lo hi)"
proof (induction dir_data target lo hi rule: log_search.induct)
  case (1 dir_data target lo hi)
  show ?case
  proof (cases "lo \<ge> hi")
    case True
    then show ?thesis by (simp add: log_search.simps)
  next
    case False
    define mid where "mid = lo + (hi - lo) div 2"
    have mid: "mid < hi" "Suc mid \<le> hi" using False by (auto simp: mid_def)
    have "Suc mid * LOG_DIR_ENTRY_SIZE \<le> length dir_data"
      using "1.prems" mult_le_mono1 [OF mid(2), of LOG_DIR_ENTRY_SIZE] by (rule order_trans [rotated])
    then have fits: "mid * LOG_DIR_ENTRY_SIZE + LOG_DIR_ENTRY_SIZE \<le> length dir_data" by simp
    then have "slice_range (mid * LOG_DIR_ENTRY_SIZE) (mid * LOG_DIR_ENTRY_SIZE + 32) dir_data
                 \<noteq> (Panic :: (rev_error, bytes) outcome)"
      by (simp add: slice_range_def layout_consts)
    with False fits "1.IH" [OF False mid_def refl] "1.prems" show ?thesis
      by (subst log_search.simps)
         (auto simp: Let_def mid_def [symmetric] intro!: ensures_obind split: cmp_order.splits)
  qed
qed

lemma index_filename_no_panic: "index_wf ix \<Longrightarrow> index_filename ix i \<noteq> Panic"
proof -
  assume wf: "index_wf ix"
  show ?thesis
  proof (cases "i < ix_num_filenames ix")
    case True
    then have "Suc i * FILENAME_SIZE \<le> ix_num_filenames ix * FILENAME_SIZE"
      by (intro mult_le_mono1) simp
    with wf True show ?thesis
      by (auto simp: index_filename_def index_wf_def outcome_simps Let_def)
  next
    case False
    then show ?thesis by (simp add: index_filename_def)
  qed
qed

lemma index_filename_bound: "index_filename ix i = Ok name \<Longrightarrow> i < ix_num_filenames ix"
  by (auto simp: index_filename_def split: if_splits)

lemma query_filter_no_panic: "query_filter cl s dir input name \<noteq> Panic"
  by (auto simp: query_filter_def outcome_simps Let_def)

lemma scan_entries_safe:
  assumes "index_wf ix"
  shows "length seen = ix_num_filenames ix \<Longrightarrow>
    ensures (\<lambda>fl. \<forall>seen' good'. fl = Continue (seen', good') \<longrightarrow> length seen' = ix_num_filenames ix)
      (scan_entries cl s ix input ts n data seen good)"
proof (induction n arbitrary: data seen good)
  case 0
  then show ?case by simp
next
  case (Suc n)
  note safe = ensures_obind entries.get_no_panic query_filter_no_panic
    index_filename_no_panic [OF assms]
  show ?case using Suc
    by (auto intro!: safe simp: index_at_iff store_at_iff not_le
        dest!: index_filename_bound split: crlite_status.splits)
qed

lemma scan_entries_no_panic:
  "index_wf ix \<Longrightarrow> length seen = ix_num_filenames ix \<Longrightarrow>
   scan_entries cl s ix input ts n data seen good \<noteq> Panic"
  using scan_entries_safe by (rule ensures_no_panic)

lemma scan_entries_seen:
  "scan_entries cl s ix input ts n data seen good = Ok (Continue (seen', good')) \<Longrightarrow>
   index_wf ix \<Longrightarrow> length seen = ix_num_filenames ix \<Longrightarrow> length seen' = ix_num_filenames ix"
  using scan_entries_safe [of ix seen cl s input ts n data good] by (simp add: ensures_def)

lemma check_scts_safe:
  assumes wf: "index_wf ix" and dir: "ix_num_logs ix * LOG_DIR_ENTRY_SIZE \<le> length dir_data"
  shows "length seen = ix_num_filenames ix \<Longrightarrow>
    ensures (\<lambda>_. True) (check_scts cl s ix input dir_data scts fh seen good)"
proof (induction scts arbitrary: fh seen good)
  case Nil
  then show ?case by simp
next
  case (Cons sct scts)
  note search = log_search_safe [OF dir, of "ct_log_id sct" 0]
  note safe = u64.get_no_panic u16.get_no_panic scan_entries_no_panic [OF wf Cons.prems] Cons.IH
  show ?case
    unfolding check_scts.simps
  proof (rule ensures_bind [OF search])
    fix found assume "\<forall>off. found = Some off \<longrightarrow> off + LOG_DIR_ENTRY_SIZE \<le> length dir_data"
    with Cons.prems show "ensures (\<lambda>_. True)
       (case found of
         None \<Rightarrow> check_scts cl s ix input dir_data scts fh seen good
       | Some entry_offset \<Rightarrow>
           obind (slice_from (entry_offset + 32) dir_data) (\<lambda>entry_data.
           obind (read_be entry_data) (\<lambda>(offset :: u64, entry_data).
           obind (read_be entry_data) (\<lambda>(count :: u16, _).
           obind (index_io (seek_start fh offset)) (\<lambda>file.
           obind (index_io (read_exact file (unat count * ix_entry_size ix))) (\<lambda>(buf, file).
           obind (scan_entries cl s ix input (ct_time sct) (unat count) buf seen good) (\<lambda>flow.
             case flow of
               Return st \<Rightarrow> Ok (st, file)
             | Continue (seen, good) \<Rightarrow> check_scts cl s ix input dir_data scts file seen good)))))))"
      by (cases found)
         (auto intro!: ensures_obind safe simp: outcome_simps layout_consts
           dest!: scan_entries_seen [OF _ wf Cons.prems] split: flow.splits)
  qed
qed

lemma check_no_panic:
  assumes "index_wf ix"
  shows "check cl s ix input \<noteq> Panic"
proof -
  have dir: "ix_num_logs ix * LOG_DIR_ENTRY_SIZE \<le> length (drop (ix_logs_offset ix) (ix_tables ix))"
    and "ix_logs_offset ix \<le> length (ix_tables ix)"
    using assms by (auto simp: index_wf_def)
  moreover have "ensures (\<lambda>_. True) (check_scts cl s ix input (drop (ix_logs_offset ix) (ix_tables ix))
      (in_sct_timestamps input) (ix_file ix) (replicate (ix_num_filenames ix) False) False)"
    by (rule check_scts_safe [OF assms dir]) simp
  ultimately show ?thesis
    by (auto simp: check_def outcome_simps ensures_def)
qed

section \<open>Verdicts come from filters\<close>

text \<open>Some filter named by the index gives the answer \<open>a\<close>.\<close>

definition filter_answers ::
  "'c crlite \<Rightarrow> fs \<Rightarrow> index \<Rightarrow> revocation_check_input \<Rightarrow> crlite_status \<Rightarrow> bool" where
  "filter_answers cl s ix input a \<longleftrightarrow>
     (\<exists>i name. index_filename ix i = Ok name \<and> query_filter cl s (ix_cache_dir ix) input name = Ok a)"

fun flow_justified ::
  "'c crlite \<Rightarrow> fs \<Rightarrow> index \<Rightarrow> revocation_check_input \<Rightarrow> (bool list \<times> bool) flow \<Rightarrow> bool" where
  "flow_justified cl s ix input (Return st) \<longleftrightarrow> st = CertainlyRevoked \<and> filter_answers cl s ix input Revoked"
| "flow_justified cl s ix input (Continue (seen, good)) \<longleftrightarrow> (good \<longrightarrow> filter_answers cl s ix input Good)"

lemma scan_entries_justified:
  "scan_entries cl s ix input ts n data seen good = Ok fl \<Longrightarrow>
   (good \<longrightarrow> filter_answers cl s ix input Good) \<Longrightarrow> flow_justified cl s ix input fl"
proof (induction n arbitrary: data seen good)
  case 0
  then show ?case by auto
next
  case (Suc n)
  have ans: "filter_answers cl s ix input a"
    if "index_filename ix i = Ok name" "query_filter cl s (ix_cache_dir ix) input name = Ok a" for i name a
    using that by (auto simp: filter_answers_def)
  show ?case
    using Suc.prems
    by (auto simp: outcome_simps split: if_splits crlite_status.splits prod.splits intro: Suc.IH ans;
        use crlite_status.nchotomy in blast)
qed

lemma check_scts_Cons_cases:
  assumes "check_scts cl s ix input d (sct # scts) fh seen good = Ok (st, fh')"
  obtains (skip) "check_scts cl s ix input d scts fh seen good = Ok (st, fh')"
  | (return) off n h buf m where "seek_start fh off = Ok h" "read_exact h n = Ok (buf, fh')"
      "scan_entries cl s ix input (ct_time sct) m buf seen good = Ok (Return st)"
  | (continue) off n h buf h' m seen' good' where "seek_start fh off = Ok h" "read_exact h n = Ok (buf, h')"
      "scan_entries cl s ix input (ct_time sct) m buf seen good = Ok (Continue (seen', good'))"
      "check_scts cl s ix input d scts h' seen' good' = Ok (st, fh')"
  using assms
  by (auto simp: outcome_simps split: option.split_asm) (auto split: flow.split_asm)

lemma check_scts_justified:
  "check_scts cl s ix input d scts fh seen good = Ok (st, fh') \<Longrightarrow>
   (good \<longrightarrow> filter_answers cl s ix input Good) \<Longrightarrow>
   (st = CertainlyRevoked \<longrightarrow> filter_answers cl s ix input Revoked)
   \<and> (st = NotRevoked \<longrightarrow> filter_answers cl s ix input Good)"
proof (induction scts arbitrary: fh seen good)
  case Nil
  then show ?case by (auto split: if_splits)
next
  case (Cons sct scts)
  from Cons.prems(1) show ?case
  proof (cases rule: check_scts_Cons_cases)
    case skip
    with Cons show ?thesis by blast
  next
    case return
    with Cons.prems(2) scan_entries_justified show ?thesis by fastforce
  next
    case continue
    with Cons scan_entries_justified show ?thesis by fastforce
  qed
qed

section \<open>Checks do not depend on the file position\<close>

lemma check_scts_position:
  "map_ok fst (check_scts cl s ix input d scts (fh\<lparr>fh_pos := p\<rparr>) seen good)
   = map_ok fst (check_scts cl s ix input d scts fh seen good)"
proof (induction scts arbitrary: seen good)
  case (Cons sct scts)
  have seek: "seek_start (fh\<lparr>fh_pos := p\<rparr>) off = seek_start fh off" for off
    by (simp add: seek_start_def)
  show ?case
    by (cases "log_search d (ct_log_id sct) 0 (ix_num_logs ix)") (auto simp: seek Cons split: option.splits)
qed simp

text \<open>A check through an open file at another position gives the same verdict.\<close>

lemma check_position:
  "map_ok fst (check cl s (ix\<lparr>ix_file := (ix_file ix)\<lparr>fh_pos := p\<rparr>\<rparr>) input) = map_ok fst (check cl s ix input)"
proof -
  let ?ix = "ix\<lparr>ix_file := (ix_file ix)\<lparr>fh_pos := p\<rparr>\<rparr>"
  have ix: "scan_entries cl s ?ix i ts n data seen good = scan_entries cl s ix i ts n data seen good"
    for i ts n data seen good
    by (induction n arbitrary: data seen good)
       (auto simp: index_filename_def intro!: obind_cong split: crlite_status.split)
  have "check_scts cl s ?ix i d scts h seen good = check_scts cl s ix i d scts h seen good"
    for i d scts h seen good
    by (induction scts arbitrary: h seen good) (auto simp: ix intro!: obind_cong split: option.split flow.split)
  moreover have "map_ok fst (obind r (\<lambda>(st, file). Ok (st, f file))) = map_ok fst r"
    for r :: "(rev_error, revocation_status \<times> file_handle) outcome" and f :: "file_handle \<Rightarrow> index"
    by (cases r) auto
  ultimately show ?thesis
    by (cases "ix_logs_offset ix \<le> length (ix_tables ix)") (simp_all add: check_def slice_from_def check_scts_position)
qed


lemma read_exact_facts:
  "read_exact h n = Ok (bs, h') \<Longrightarrow> length bs = n \<and> fh_meta h' = fh_meta h"
  using read_exact_length read_exact_data by blast

section \<open>Properties\<close>

text \<open>
  C4: on any contents of \<open>index.bin\<close>, with any filter crate and any I/O failures, loading the index
  and checking a certificate returns a verdict or an error and never panics.
\<close>

theorem index_never_panics: "obind (from_cache config s) (\<lambda>ix. check cl s' ix input) \<noteq> Panic"
  by (auto simp: outcome_simps from_cache_no_panic dest!: from_cache_index_wf check_no_panic)

text \<open>
  C22: whatever the index holds, a certificate is reported revoked only if some filter file that the
  filename table of the index names, as a path relative to the cache directory, could be read and
  decoded and answers that it is, and reported as not revoked only if such a filter answers good. The
  name is taken as it stands in the index; that it stays below the cache directory is not checked by
  the code and not claimed.
\<close>

theorem verdicts_are_justified:
  assumes "check cl s ix input = Ok (st, ix')"
  shows "(st = CertainlyRevoked \<longrightarrow> filter_answers cl s ix input Revoked)
    \<and> (st = NotRevoked \<longrightarrow> filter_answers cl s ix input Good)"
  using assms by (auto simp: check_def outcome_simps dest!: check_scts_justified)

theorem verdicts_are_justified_witness:
  "filter_answers sample_crlite sample_fs_indexed sample_loaded sample_input Revoked"
  using verdicts_are_justified [OF sample_check] by simp

end
