(* ===== verification/Index_Correct.thy ===== *)
theory Index_Correct
  imports Index_Safety
begin

text \<open>
  Correctness of reading an index: the binary search finds exactly the entry of a log, the tables
  and sections of an encoded directory are read back, for both versions of the format, and
  \<open>Index::check\<close> refines the abstract check that consults each covering filter once, in order.
\<close>

section \<open>Binary search over the log directory\<close>

definition log_table :: "(bytes \<times> u64 \<times> u16) list \<Rightarrow> bool" where
  "log_table ds \<longleftrightarrow> sorted_wrt (<) (map fst ds) \<and> (\<forall>d \<in> set ds. length (fst d) = 32)"

lemma length_put_dir_entry [layout_simps]:
  "length (fst d) = 32 \<Longrightarrow> length (put_dir_entry d) = LOG_DIR_ENTRY_SIZE"
  by (cases d) (simp add: put_dir_entry_def layout_consts)

lemma log_table_record:
  assumes "log_table ds" and "i < length ds"
  shows "take LOG_DIR_ENTRY_SIZE (drop (i * LOG_DIR_ENTRY_SIZE) (concat (map put_dir_entry ds)))
           = put_dir_entry (ds ! i)"
  using take_drop_concat_fixed [of ds put_dir_entry LOG_DIR_ENTRY_SIZE i "[]"] assms
  by (simp add: log_table_def layout_simps)

lemma log_table_length:
  "log_table ds \<Longrightarrow> length (concat (map put_dir_entry ds)) = length ds * LOG_DIR_ENTRY_SIZE"
  by (rule length_concat_fixed) (simp add: log_table_def layout_simps)

lemma log_table_key:
  assumes "log_table ds" and "i < length ds"
  shows "slice_range (i * LOG_DIR_ENTRY_SIZE) (i * LOG_DIR_ENTRY_SIZE + 32) (concat (map put_dir_entry ds))
           = Ok (fst (ds ! i))"
proof -
  let ?b = "concat (map put_dir_entry ds)"
  have "Suc i * LOG_DIR_ENTRY_SIZE \<le> length ds * LOG_DIR_ENTRY_SIZE"
    using assms(2) by (intro mult_le_mono1) simp
  then have "i * LOG_DIR_ENTRY_SIZE + 32 \<le> length ?b"
    by (simp add: log_table_length [OF assms(1)] layout_consts)
  moreover have "take 32 (drop (i * LOG_DIR_ENTRY_SIZE) ?b)
      = take 32 (take LOG_DIR_ENTRY_SIZE (drop (i * LOG_DIR_ENTRY_SIZE) ?b))"
    by (simp add: layout_consts)
  moreover have "length (fst (ds ! i)) = 32" using assms by (simp add: log_table_def)
  ultimately show ?thesis
    by (simp add: slice_range_def log_table_record [OF assms] put_dir_entry_def split: prod.splits)
qed

lemma log_search_correct:
  assumes table: "log_table ds"
  shows "hi \<le> length ds \<Longrightarrow> (\<forall>i < lo. i < length ds \<longrightarrow> fst (ds ! i) < t) \<Longrightarrow>
    (\<forall>i. hi \<le> i \<and> i < length ds \<longrightarrow> t < fst (ds ! i)) \<Longrightarrow>
    (\<exists>i < length ds. fst (ds ! i) = t
        \<and> log_search (concat (map put_dir_entry ds)) t lo hi = Ok (Some (i * LOG_DIR_ENTRY_SIZE)))
    \<or> (t \<notin> fst ` set ds \<and> log_search (concat (map put_dir_entry ds)) t lo hi = Ok None)"
proof (induction "hi - lo" arbitrary: lo hi rule: less_induct)
  case less
  let ?b = "concat (map put_dir_entry ds)"
  have mono: "fst (ds ! i) < fst (ds ! j)" if "i < j" "j < length ds" for i j
    using table that sorted_wrt_nth_less [of "(<)" "map fst ds" i j] by (simp add: log_table_def)
  show ?case
  proof (cases "lo \<ge> hi")
    case True
    have "t \<notin> fst ` set ds"
    proof
      assume "t \<in> fst ` set ds"
      then obtain i where i: "i < length ds" "fst (ds ! i) = t" by (auto simp: in_set_conv_nth)
      show False
      proof (cases "i < lo")
        case True
        with i less.prems(2) have "fst (ds ! i) < t" by blast
        with i show False by simp
      next
        case False
        with True have "hi \<le> i" by simp
        with i less.prems(3) have "t < fst (ds ! i)" by blast
        with i show False by simp
      qed
    qed
    with True show ?thesis by (simp add: log_search.simps)
  next
    case False
    define mid where "mid = lo + (hi - lo) div 2"
    have mid: "lo \<le> mid" "mid < hi" "mid < length ds" using False less.prems(1) by (auto simp: mid_def)
    have unfold: "log_search ?b t lo hi =
        (case slice_cmp (fst (ds ! mid)) t of
           Less \<Rightarrow> log_search ?b t (mid + 1) hi
         | Equal \<Rightarrow> Ok (Some (mid * LOG_DIR_ENTRY_SIZE))
         | Greater \<Rightarrow> log_search ?b t lo mid)"
      using False
      by (subst log_search.simps) (simp add: Let_def mid_def [symmetric] log_table_key [OF table mid(3)])
    consider "fst (ds ! mid) < t" | "fst (ds ! mid) = t" | "t < fst (ds ! mid)" by fastforce
    then show ?thesis
    proof cases
      case 1
      have "fst (ds ! i) < t" if "i < mid + 1" "i < length ds" for i
      proof (cases "i = mid")
        case False
        with that have "fst (ds ! i) < fst (ds ! mid)" by (intro mono mid) simp
        then show ?thesis using 1 by (rule order.strict_trans)
      qed (use 1 in simp)
      then have "(\<exists>i < length ds. fst (ds ! i) = t
          \<and> log_search ?b t (mid + 1) hi = Ok (Some (i * LOG_DIR_ENTRY_SIZE)))
        \<or> (t \<notin> fst ` set ds \<and> log_search ?b t (mid + 1) hi = Ok None)"
        using mid less.prems by (intro less.hyps) auto
      then show ?thesis by (simp only: unfold slice_cmp_def 1 if_True cmp_order.simps)
    next
      case 2
      then show ?thesis using mid(3) by (intro disjI1 exI [of _ mid]) (simp add: unfold slice_cmp_def)
    next
      case 3
      have "t < fst (ds ! i)" if "mid \<le> i" "i < length ds" for i
      proof (cases "i = mid")
        case False
        with that have "fst (ds ! mid) < fst (ds ! i)" by (intro mono) simp_all
        with 3 show ?thesis by (rule order.strict_trans)
      qed (use 3 in simp)
      then have "(\<exists>i < length ds. fst (ds ! i) = t
          \<and> log_search ?b t lo mid = Ok (Some (i * LOG_DIR_ENTRY_SIZE)))
        \<or> (t \<notin> fst ` set ds \<and> log_search ?b t lo mid = Ok None)"
        using mid less.prems by (intro less.hyps) auto
      moreover have "slice_cmp (fst (ds ! mid)) t = Greater"
        using 3 by (auto simp: slice_cmp_def dest: order.asym)
      ultimately show ?thesis by (simp only: unfold cmp_order.simps)
    qed
  qed
qed

section \<open>The index file of a directory\<close>

definition magic_of :: "nat \<Rightarrow> bytes" where
  "magic_of entry_size = (if entry_size = ENTRY_SIZE_V0 then INDEX_MAGIC_V0 else INDEX_MAGIC_V1)"

definition header_size_of :: "nat \<Rightarrow> nat" where
  "header_size_of entry_size = (if entry_size = ENTRY_SIZE_V0 then HEADER_SIZE_V0 else HEADER_SIZE_V1)"

definition put_count :: "nat \<Rightarrow> nat \<Rightarrow> bytes" where
  "put_count entry_size n =
     (if entry_size = ENTRY_SIZE_V0 then to_be_bytes (of_nat n :: u8) else to_be_bytes (of_nat n :: u16))"

definition put_section :: "nat \<Rightarrow> bytes \<times> entry list \<Rightarrow> bytes" where
  "put_section entry_size d = concat (map (put_entry entry_size) (snd d))"

definition index_tables :: "nat \<Rightarrow> string list \<Rightarrow> entry list btree_map \<Rightarrow> bytes" where
  "index_tables es names dir =
     concat (map filename_slot names)
     @ concat (map put_dir_entry
         (dir_entries es (header_size_of es + length names * FILENAME_SIZE + length dir * LOG_DIR_ENTRY_SIZE) dir))"

definition encode_index :: "nat \<Rightarrow> string list \<Rightarrow> entry list btree_map \<Rightarrow> bytes" where
  "encode_index es names dir =
     magic_of es @ put_count es (length names) @ to_be_bytes (of_nat (length dir) :: u32)
     @ index_tables es names dir @ concat (map (put_section es) dir)"

text \<open>The directories and names an index can represent.\<close>

definition encodable :: "nat \<Rightarrow> string list \<Rightarrow> entry list btree_map \<Rightarrow> bool" where
  "encodable es names dir \<longleftrightarrow>
     (es = ENTRY_SIZE_V0 \<or> es = ENTRY_SIZE_V1)
     \<and> length names < max_filters es
     \<and> length (encode_index es names dir) < 2 ^ 32
     \<and> list_all (\<lambda>n. rust_str n \<and> length n \<le> FILENAME_SIZE \<and> 0 \<notin> set (as_bytes n)) names
     \<and> sorted_wrt (<) (map fst dir)
     \<and> list_all (\<lambda>(k, entries). length k = 32 \<and> length entries < 2 ^ 16
          \<and> list_all (\<lambda>e. fst e < length names) entries) dir"

lemma dir_entries_map:
  "map fst (dir_entries es off m) = map fst m"
  "length (dir_entries es off m) = length m"
  by (induction es off m rule: dir_entries.induct) auto

lemma nth_dir_entries:
  "i < length m \<Longrightarrow> dir_entries es off m ! i =
     (fst (m ! i), of_nat (off + (\<Sum>d \<leftarrow> take i m. length (snd d) * es)), of_nat (length (snd (m ! i))))"
proof (induction es off m arbitrary: i rule: dir_entries.induct)
  case (1 es off)
  then show ?case by simp
next
  case (2 es off k entries m)
  then show ?case by (cases i) (auto simp: add.assoc)
qed

lemma drop_concat_prefix:
  "i < length xs \<Longrightarrow>
   drop (\<Sum>x \<leftarrow> take i xs. length (f x)) (concat (map f xs)) = f (xs ! i) @ concat (map f (drop (Suc i) xs))"
proof (induction xs arbitrary: i)
  case Nil
  then show ?case by simp
next
  case (Cons x xs)
  then show ?case by (cases i) auto
qed

lemma length_filename_slot [layout_simps]:
  "length n \<le> FILENAME_SIZE \<Longrightarrow> length (filename_slot n) = FILENAME_SIZE"
  by (simp add: filename_slot_def Let_def)

lemma filename_slot_roundtrip:
  assumes "0 \<notin> set (as_bytes n)"
  shows "takeWhile (\<lambda>b. b \<noteq> 0) (filename_slot n) = as_bytes n"
proof -
  have "\<And>b. b \<in> set (as_bytes n) \<Longrightarrow> b \<noteq> 0" using assms by auto
  then show ?thesis by (simp add: filename_slot_def Let_def takeWhile_append2)
qed

lemma magic_of_simps:
  "length (magic_of es) = 8" "magic_of es = INDEX_MAGIC_V1 \<longleftrightarrow> es \<noteq> ENTRY_SIZE_V0"
  "magic_of ENTRY_SIZE_V0 = INDEX_MAGIC_V0"
  by (auto simp: magic_of_def INDEX_MAGIC_V0_def INDEX_MAGIC_V1_def as_bytes_def)

lemma entry_sizes_neq: "ENTRY_SIZE_V1 \<noteq> ENTRY_SIZE_V0" "INDEX_MAGIC_V0 \<noteq> INDEX_MAGIC_V1"
  by (simp_all add: layout_consts INDEX_MAGIC_V0_def INDEX_MAGIC_V1_def as_bytes_def)

lemma length_put_count: "length (put_count es n) = index_width es"
  by (simp add: put_count_def index_width_def)

lemma encodable_entries:
  assumes "encodable es names dir" and "d \<in> set dir"
  shows "list_all (valid_entry es) (snd d)" "length (put_section es d) = length (snd d) * es"
proof -
  show v: "list_all (valid_entry es) (snd d)"
    using assms by (auto simp: encodable_def list_all_iff valid_entry_def dest!: bspec)
  show "length (put_section es d) = length (snd d) * es"
    using entries.length_put_many [OF v] assms(1)
    by (simp add: put_section_def encodable_def entry_width_sizes)
qed

lemma dir_entries_key_length:
  assumes "encodable es names dir" and "d \<in> set (dir_entries es off dir)"
  shows "length (fst d) = 32"
proof -
  from assms(2) have "fst d \<in> set (map fst (dir_entries es off dir))" by simp
  then have "fst d \<in> set (map fst dir)" by (simp only: dir_entries_map)
  then show ?thesis using assms(1) by (auto simp: encodable_def list_all_iff)
qed

lemma dir_log_table: "encodable es names dir \<Longrightarrow> log_table (dir_entries es off dir)"
  using dir_entries_key_length by (auto simp: log_table_def dir_entries_map encodable_def)

lemma length_filename_table:
  "encodable es names dir \<Longrightarrow> length (concat (map filename_slot names)) = length names * FILENAME_SIZE"
  by (intro length_concat_fixed) (auto simp: encodable_def list_all_iff layout_simps)

lemma length_index_tables:
  assumes "encodable es names dir"
  shows "length (index_tables es names dir) = length names * FILENAME_SIZE + length dir * LOG_DIR_ENTRY_SIZE"
  by (simp add: index_tables_def length_filename_table [OF assms] dir_entries_map
      log_table_length [OF dir_log_table [OF assms]])

lemma length_index_header:
  "es = ENTRY_SIZE_V0 \<or> es = ENTRY_SIZE_V1 \<Longrightarrow>
   length (magic_of es @ put_count es n @ to_be_bytes (w :: u32)) = header_size_of es"
  by (auto simp: magic_of_simps length_put_count index_width_def header_size_of_def layout_consts)

lemma length_encode_index:
  assumes "encodable es names dir"
  shows "length (encode_index es names dir)
    = header_size_of es + length names * FILENAME_SIZE + length dir * LOG_DIR_ENTRY_SIZE
      + length (concat (map (put_section es) dir))"
proof -
  have "es = ENTRY_SIZE_V0 \<or> es = ENTRY_SIZE_V1" using assms by (simp add: encodable_def)
  then have "length (magic_of es @ put_count es (length names) @ to_be_bytes (of_nat (length dir) :: u32))
      = header_size_of es"
    by (rule length_index_header)
  then show ?thesis unfolding encode_index_def by (simp add: length_index_tables [OF assms])
qed

text \<open>Reading a file whose next bytes are known.\<close>

lemma read_exact_next:
  assumes "fh_data h = Inr b" and "drop (fh_pos h) b = x @ rest" and "length x = n"
  shows "read_exact h n = Ok (x, h\<lparr>fh_pos := fh_pos h + n\<rparr>)"
proof (cases "n = 0")
  case False
  have "length (drop (fh_pos h) b) = n + length rest" using assms(2,3) by simp
  then have "fh_pos h + n \<le> length b" using False by simp
  with False assms show ?thesis by (simp add: read_exact_def)
qed (use assms in \<open>simp add: read_exact_def\<close>)

text \<open>A file that can be opened, examined and read, at the start of its contents.\<close>

definition readable_file :: "fs \<Rightarrow> path \<Rightarrow> bytes \<Rightarrow> bool" where
  "readable_file s p b \<longleftrightarrow>
     file_open s p = Ok \<lparr>fh_data = Inr b, fh_meta = Inr (length b), fh_pos = 0\<rparr>"

text \<open>
  Loading a file that starts with a header: the counts of the header give the size of the tables, and
  they are read only if the file is long enough for them.
\<close>

lemma from_cache_header:
  fixes l :: u32
  assumes es: "es = ENTRY_SIZE_V0 \<or> es = ENTRY_SIZE_V1" and n: "n < max_filters es"
    and b: "b = magic_of es @ put_count es n @ to_be_bytes l @ rest"
    and rd: "readable_file s (path_join (revocation_cache_dir config) INDEX_BIN) b"
    and t: "t = n * FILENAME_SIZE + unat l * LOG_DIR_ENTRY_SIZE"
  shows "from_cache config s =
    (if length rest < t then Err (IndexDecode (MsgCause ''index tables truncated''))
     else Ok \<lparr>ix_cache_dir = revocation_cache_dir config, ix_num_filenames = n, ix_num_logs = unat l,
              ix_logs_offset = n * FILENAME_SIZE, ix_entry_size = es, ix_tables = take t rest,
              ix_file = \<lparr>fh_data = Inr b, fh_meta = Inr (length b), fh_pos = header_size_of es + t\<rparr>\<rparr>)"
proof -
  let ?h = "\<lambda>pos. \<lparr>fh_data = Inr b :: io_error + bytes, fh_meta = Inr (length b) :: io_error + nat, fh_pos = pos\<rparr>"
  let ?hs = "header_size_of es"
  have r1: "read_exact (?h 0) 8 = Ok (magic_of es, ?h 8)"
    by (subst read_exact_next [where x = "magic_of es"]) (simp_all add: b magic_of_simps)
  have drop8: "drop 8 b = (put_count es n @ to_be_bytes l) @ rest"
    by (simp add: b magic_of_simps)
  have hs: "?hs - 8 = index_width es + 4" "8 \<le> ?hs"
    using es by (auto simp: header_size_of_def index_width_def layout_consts)
  have r2: "read_exact (?h 8) (?hs - 8) = Ok (put_count es n @ to_be_bytes l, ?h ?hs)"
    by (subst read_exact_next [OF _ _ , where x = "put_count es n @ to_be_bytes l"])
       (use drop8 hs in \<open>simp_all add: length_put_count\<close>)
  have len: "length b = ?hs + length rest" and rest: "drop ?hs b = rest"
    using length_index_header [OF es, of n l] by (simp_all add: b)
  have r3: "read_exact (?h ?hs) t = Ok (take t rest, ?h (?hs + t))" if "\<not> length rest < t"
    using that rest read_exact_next [of "?h ?hs" b "take t rest" "drop t rest" t] by simp
  have num: "read_num_filenames es (put_count es n @ to_be_bytes l) = Ok (n, to_be_bytes l)"
    using n read_num_filenames_put [of n es "to_be_bytes l"] by (simp add: put_count_def)
  have l: "read_be (to_be_bytes l) = Ok (l, [])"
    using u32.get_put [of l "[]"] by simp
  have sizes: "(if magic_of es = INDEX_MAGIC_V1 then Ok (HEADER_SIZE_V1, ENTRY_SIZE_V1)
       else if magic_of es = INDEX_MAGIC_V0 then Ok (HEADER_SIZE_V0, ENTRY_SIZE_V0)
       else Err (IndexDecode (MsgCause ''invalid index magic''))) = Ok (?hs, es)"
    using es by (elim disjE) (simp_all add: magic_of_simps header_size_of_def entry_sizes_neq)
  have guard: "length b < ?hs + t \<longleftrightarrow> length rest < t" using len by simp
  show ?thesis
    using rd r3
    by (cases "length rest < t")
       (simp_all add: guard from_cache_def Let_def readable_file_def index_io_def r1 r2 num l sizes t [symmetric])
qed

lemma from_cache_encoded:
  assumes enc: "encodable es names dir"
    and rd: "readable_file s (path_join (revocation_cache_dir config) INDEX_BIN) (encode_index es names dir)"
  shows "\<exists>pos. from_cache config s = Ok
    \<lparr>ix_cache_dir = revocation_cache_dir config, ix_num_filenames = length names,
     ix_num_logs = length dir, ix_logs_offset = length names * FILENAME_SIZE, ix_entry_size = es,
     ix_tables = index_tables es names dir,
     ix_file = \<lparr>fh_data = Inr (encode_index es names dir),
                fh_meta = Inr (length (encode_index es names dir)), fh_pos = pos\<rparr>\<rparr>"
proof -
  let ?l = "of_nat (length dir) :: u32"
  have es: "es = ENTRY_SIZE_V0 \<or> es = ENTRY_SIZE_V1" and n: "length names < max_filters es"
    using enc by (simp_all add: encodable_def)
  have "length dir \<le> length (encode_index es names dir)"
    by (simp add: length_encode_index [OF enc] layout_consts)
  then have dir: "unat ?l = length dir"
    using enc by (intro unat_of_nat_small) (simp add: encodable_def)
  show ?thesis
    using from_cache_header [OF es n _ rd refl, of ?l "index_tables es names dir @ concat (map (put_section es) dir)"]
    by (simp add: encode_index_def dir length_index_tables [OF enc])
qed

section \<open>The abstract check\<close>

text \<open>
  The specification of a check: the filters whose interval for the log of some SCT covers its
  timestamp, in the order of the SCTs, are consulted once each until one says the certificate is
  revoked.
\<close>

fun covers :: "u64 \<Rightarrow> entry \<Rightarrow> bool" where
  "covers ts (_, low, high) = (low \<le> ts \<and> ts \<le> high)"

definition covering :: "entry list btree_map \<Rightarrow> ct_timestamp \<Rightarrow> nat list" where
  "covering dir sct =
     (case map_of dir (ct_log_id sct) of
        None \<Rightarrow> []
      | Some entries \<Rightarrow> map fst (filter (covers (ct_time sct)) entries))"

fun consult ::
  "(nat \<Rightarrow> (rev_error, crlite_status) outcome) \<Rightarrow> nat list \<Rightarrow> bool list \<Rightarrow> bool
   \<Rightarrow> (rev_error, (bool list \<times> bool) flow) outcome" where
  "consult q [] seen good = Ok (Continue (seen, good))"
| "consult q (i # is) seen good =
     (if seen ! i then consult q is seen good
      else obind (q i) (\<lambda>status.
        if status = Revoked then Ok (Return CertainlyRevoked)
        else consult q is (seen[i := True]) (good \<or> status = Good)))"

fun verdict :: "(bool list \<times> bool) flow \<Rightarrow> revocation_status" where
  "verdict (Return st) = st"
| "verdict (Continue (seen, good)) = (if good then NotRevoked else NotCoveredByRevocationData)"

lemma consult_append:
  "consult q (is @ js) seen good =
     obind (consult q is seen good) (\<lambda>fl. case fl of
       Return st \<Rightarrow> Ok (Return st) | Continue (seen, good) \<Rightarrow> consult q js seen good)"
  by (induction "is" arbitrary: seen good) (auto simp: obind_assoc intro!: obind_cong)

lemma consult_length:
  "consult q is seen good = Ok (Continue (seen', good')) \<Longrightarrow> length seen' = length seen"
proof (induction "is" arbitrary: seen good)
  case (Cons i "is")
  then show ?case
    by (cases "seen ! i") (auto simp: outcome_simps split: if_splits dest: Cons.IH)
qed simp

section \<open>The loaded index refines it\<close>

text \<open>The index loaded from \<open>encode_index es names dir\<close>, its file at any position.\<close>

definition holds_index :: "index \<Rightarrow> nat \<Rightarrow> string list \<Rightarrow> entry list btree_map \<Rightarrow> bool" where
  "holds_index ix es names dir \<longleftrightarrow>
     encodable es names dir \<and> ix_num_filenames ix = length names \<and> ix_num_logs ix = length dir
     \<and> ix_logs_offset ix = length names * FILENAME_SIZE \<and> ix_entry_size ix = es
     \<and> ix_tables ix = index_tables es names dir \<and> fh_data (ix_file ix) = Inr (encode_index es names dir)"

lemma from_cache_holds_index:
  assumes "encodable es names dir"
    and "readable_file s (path_join (revocation_cache_dir config) INDEX_BIN) (encode_index es names dir)"
  shows "\<exists>ix. from_cache config s = Ok ix \<and> holds_index ix es names dir
    \<and> ix_cache_dir ix = revocation_cache_dir config"
  using from_cache_encoded [OF assms] assms(1) by (auto simp: holds_index_def)

lemma index_filename_encoded:
  assumes "holds_index ix es names dir" and i: "i < length names"
  shows "index_filename ix i = Ok (names ! i)"
proof -
  have enc: "encodable es names dir" using assms(1) by (simp add: holds_index_def)
  then have n: "rust_str (names ! i)" "0 \<notin> set (as_bytes (names ! i))"
    using i by (auto simp: encodable_def list_all_length)
  have "take FILENAME_SIZE (drop (i * FILENAME_SIZE) (index_tables es names dir)) = filename_slot (names ! i)"
    unfolding index_tables_def using enc i
    by (intro take_drop_concat_fixed) (auto simp: encodable_def list_all_iff layout_simps)
  moreover have "i * FILENAME_SIZE + FILENAME_SIZE \<le> length names * FILENAME_SIZE"
    using i mult_le_mono1 [of "Suc i" "length names" FILENAME_SIZE] by simp
  ultimately show ?thesis
    using assms n
    by (simp add: index_filename_def holds_index_def Let_def slice_range_def length_index_tables
        filename_slot_roundtrip from_utf8_as_bytes)
qed

lemma scan_entries_encoded:
  assumes ix: "holds_index ix es names dir"
  shows "list_all (\<lambda>e. fst e < length names) entries \<Longrightarrow> length seen = length names \<Longrightarrow>
    scan_entries cl s ix input ts (length entries) (concat (map (put_entry es) entries)) seen good
    = consult (\<lambda>i. query_filter cl s (ix_cache_dir ix) input (names ! i))
        (map fst (filter (covers ts) entries)) seen good"
proof (induction entries arbitrary: seen good)
  case Nil
  then show ?case by simp
next
  case (Cons e entries)
  obtain i low high where e: "e = (i, low, high)" by (cases e)
  with Cons.prems have i: "i < length names" by simp
  moreover have "length names < max_filters es" and es: "ix_entry_size ix = es"
    using ix by (simp_all add: holds_index_def encodable_def)
  ultimately have "valid_entry es e" by (simp add: valid_entry_def e)
  then have read: "read_entry es (put_entry es e @ concat (map (put_entry es) entries))
      = Ok (e, concat (map (put_entry es) entries))"
    by (rule entries.get_put)
  have IH: "scan_entries cl s ix input ts (length entries) (concat (map (put_entry es) entries)) seen' good'
    = consult (\<lambda>i. query_filter cl s (ix_cache_dir ix) input (names ! i))
        (map fst (filter (covers ts) entries)) seen' good'" if "length seen' = length names" for seen' good'
    using Cons that by simp
  show ?case
  proof (cases "covers ts e")
    case False
    then show ?thesis using Cons.prems IH [of seen good]
      by (auto simp: read [unfolded e] es e not_le)
  next
    case True
    then show ?thesis using Cons.prems IH i
      by (auto simp: read [unfolded e] es e index_filename_encoded [OF ix] index_at_def store_at_def
          intro!: obind_cong split: crlite_status.splits)
  qed
qed


lemma section_location:
  assumes enc: "encodable es names dir" and i: "i < length dir"
  defines "off \<equiv> header_size_of es + length names * FILENAME_SIZE + length dir * LOG_DIR_ENTRY_SIZE
             + (\<Sum>d \<leftarrow> take i dir. length (snd d) * es)"
  shows "\<exists>rest. drop off (encode_index es names dir) = put_section es (dir ! i) @ rest"
    and "off < 2 ^ 32"
proof -
  let ?t = "header_size_of es + length names * FILENAME_SIZE + length dir * LOG_DIR_ENTRY_SIZE"
  let ?secs = "concat (map (put_section es) dir)"
  have "(\<Sum>d \<leftarrow> take i dir. length (snd d) * es) = (\<Sum>d \<leftarrow> take i dir. length (put_section es d))"
    using encodable_entries(2) [OF enc] by (intro arg_cong [of _ _ sum_list] map_cong) (auto dest: in_set_takeD)
  then have off: "off = ?t + (\<Sum>d \<leftarrow> take i dir. length (put_section es d))" by (simp add: off_def)
  have "length (encode_index es names dir) = ?t + length ?secs"
    by (rule length_encode_index [OF enc])
  moreover have "encode_index es names dir = (magic_of es @ put_count es (length names)
      @ to_be_bytes (of_nat (length dir) :: u32) @ index_tables es names dir) @ ?secs"
    by (simp add: encode_index_def)
  ultimately have "drop ?t (encode_index es names dir) = ?secs"
    by (metis add_right_imp_eq append_eq_conv_conj length_append)
  moreover have "drop off (encode_index es names dir)
      = drop (\<Sum>d \<leftarrow> take i dir. length (put_section es d)) (drop ?t (encode_index es names dir))"
    by (simp only: off drop_drop add.commute)
  ultimately have drop: "drop off (encode_index es names dir)
      = put_section es (dir ! i) @ concat (map (put_section es) (drop (Suc i) dir))"
    using drop_concat_prefix [OF i, of "put_section es"] by simp
  then show "\<exists>rest. drop off (encode_index es names dir) = put_section es (dir ! i) @ rest" by blast
  have "(\<Sum>d \<leftarrow> take i dir. length (put_section es d)) \<le> length ?secs"
    by (subst (2) append_take_drop_id [of i dir, symmetric]) (simp add: length_concat comp_def del: append_take_drop_id)
  then have "off \<le> length (encode_index es names dir)"
    by (simp add: off length_encode_index [OF enc])
  then show "off < 2 ^ 32" using enc by (simp add: encodable_def)
qed


lemma log_table_fields:
  assumes "log_table ds" and i: "i < length ds" and d: "ds ! i = (k, off, count)"
  shows "\<exists>rest. slice_from (i * LOG_DIR_ENTRY_SIZE + 32) (concat (map put_dir_entry ds))
           = Ok (to_be_bytes off @ to_be_bytes count @ rest)"
proof -
  let ?b = "concat (map put_dir_entry ds)" and ?n = "i * LOG_DIR_ENTRY_SIZE"
  have k: "length k = 32" using assms by (force simp: log_table_def dest: nth_mem)
  have "Suc i * LOG_DIR_ENTRY_SIZE \<le> length ds * LOG_DIR_ENTRY_SIZE" using i by (intro mult_le_mono1) simp
  then have len: "?n + 32 \<le> length ?b" by (simp add: log_table_length [OF assms(1)] layout_consts)
  have "drop ?n ?b = put_dir_entry (ds ! i) @ drop (LOG_DIR_ENTRY_SIZE + ?n) ?b"
    by (metis append_take_drop_id drop_drop log_table_record [OF assms(1) i])
  then have "drop 32 (drop ?n ?b) = to_be_bytes off @ to_be_bytes count @ drop (LOG_DIR_ENTRY_SIZE + ?n) ?b"
    using k by (simp add: d put_dir_entry_def)
  with len show ?thesis by (auto simp: slice_from_def add.commute)
qed

lemma map_of_sorted_nth:
  "sorted_wrt (<) (map fst (m :: (bytes \<times> 'v) list)) \<Longrightarrow> i < length m \<Longrightarrow> map_of m (fst (m ! i)) = Some (snd (m ! i))"
  by (rule map_of_is_SomeI) (auto simp: strict_sorted_iff)

definition dir_table :: "nat \<Rightarrow> string list \<Rightarrow> entry list btree_map \<Rightarrow> (bytes \<times> u64 \<times> u16) list" where
  "dir_table es names dir =
     dir_entries es (header_size_of es + length names * FILENAME_SIZE + length dir * LOG_DIR_ENTRY_SIZE) dir"

lemma dir_table_simps:
  "length (dir_table es names dir) = length dir"
  "fst ` set (dir_table es names dir) = fst ` set dir"
  "i < length dir \<Longrightarrow> fst (dir_table es names dir ! i) = fst (dir ! i)"
  unfolding dir_table_def
  by (simp_all add: dir_entries_map nth_dir_entries) (metis list.set_map dir_entries_map(1))

lemma log_search_full:
  assumes "log_table ds"
  shows "(\<exists>i < length ds. fst (ds ! i) = t
      \<and> log_search (concat (map put_dir_entry ds)) t 0 (length ds) = Ok (Some (i * LOG_DIR_ENTRY_SIZE)))
    \<or> (t \<notin> fst ` set ds \<and> log_search (concat (map put_dir_entry ds)) t 0 (length ds) = Ok None)"
  by (rule log_search_correct [OF assms]) auto

text \<open>One SCT whose log has the \<open>i\<close>-th section: its entries are located, read and scanned.\<close>

lemma check_scts_section:
  assumes ix: "holds_index ix es names dir"
    and fh: "fh_data fh = Inr (encode_index es names dir)" and seen: "length seen = length names"
    and i: "i < length dir" and key: "fst (dir ! i) = ct_log_id sct"
    and found: "log_search (concat (map put_dir_entry (dir_table es names dir))) (ct_log_id sct) 0 (length dir)
        = Ok (Some (i * LOG_DIR_ENTRY_SIZE))"
  shows "\<exists>pos. check_scts cl s ix input (concat (map put_dir_entry (dir_table es names dir))) (sct # scts) fh seen good
    = obind (consult (\<lambda>i. query_filter cl s (ix_cache_dir ix) input (names ! i)) (covering dir sct) seen good)
        (\<lambda>fl. case fl of
          Return st \<Rightarrow> Ok (st, fh\<lparr>fh_pos := pos\<rparr>)
        | Continue (seen, good) \<Rightarrow> check_scts cl s ix input
            (concat (map put_dir_entry (dir_table es names dir))) scts (fh\<lparr>fh_pos := pos\<rparr>) seen good)"
proof -
  let ?entries = "snd (dir ! i)"
  define off where "off = header_size_of es + length names * FILENAME_SIZE + length dir * LOG_DIR_ENTRY_SIZE
     + (\<Sum>d \<leftarrow> take i dir. length (snd d) * es)"
  have enc: "encodable es names dir" and logs: "ix_num_logs ix = length dir" "ix_entry_size ix = es"
    using ix by (simp_all add: holds_index_def)
  have d: "dir_table es names dir ! i = (fst (dir ! i), of_nat off, of_nat (length ?entries))"
    unfolding dir_table_def off_def by (rule nth_dir_entries [OF i])
  have "log_table (dir_table es names dir)" unfolding dir_table_def by (rule dir_log_table [OF enc])
  from log_table_fields [OF this _ d] i obtain rest where
    fields: "slice_from (i * LOG_DIR_ENTRY_SIZE + 32) (concat (map put_dir_entry (dir_table es names dir)))
      = (Ok (to_be_bytes (of_nat off :: u64) @ to_be_bytes (of_nat (length ?entries) :: u16) @ rest)
          :: (rev_error, bytes) outcome)"
    by (auto simp: dir_table_simps)
  have mem: "dir ! i \<in> set dir" using i by simp
  then have cnt: "length ?entries < 2 ^ 16" and ok: "list_all (\<lambda>e. fst e < length names) ?entries"
    using enc by (auto simp: encodable_def list_all_iff dest!: bspec)
  from section_location [OF enc i] obtain rest' where
    sec: "drop off (encode_index es names dir) = put_section es (dir ! i) @ rest'"
    and off: "off < 2 ^ 32" unfolding off_def by blast
  have uoff: "unat (of_nat off :: u64) = off" using off by (intro unat_of_nat_small) simp
  have ucnt: "unat (of_nat (length ?entries) :: u16) = length ?entries"
    using cnt by (intro unat_of_nat_small) simp
  have seek: "seek_start fh (of_nat off) = Ok (fh\<lparr>fh_pos := off\<rparr>)"
    using off by (simp add: seek_start_def uoff)
  have read: "read_exact (fh\<lparr>fh_pos := off\<rparr>) (length ?entries * es)
      = Ok (put_section es (dir ! i), fh\<lparr>fh_pos := off + length ?entries * es\<rparr>)"
    using fh sec encodable_entries(2) [OF enc mem]
    by (subst read_exact_next [where x = "put_section es (dir ! i)"]) simp_all
  have cov: "covering dir sct = map fst (filter (covers (ct_time sct)) ?entries)"
    using map_of_sorted_nth [OF _ i] enc key by (simp add: covering_def encodable_def)
  have scan: "scan_entries cl s ix input (ct_time sct) (length ?entries) (put_section es (dir ! i)) seen good
      = consult (\<lambda>i. query_filter cl s (ix_cache_dir ix) input (names ! i)) (covering dir sct) seen good"
    unfolding put_section_def cov by (rule scan_entries_encoded [OF ix ok seen])
  show ?thesis
    using found
    by (intro exI [of _ "off + length ?entries * es"])
       (simp add: logs fields u64.get_put u16.get_put index_io_def seek ucnt read scan)
qed

lemma check_scts_encoded:
  assumes ix: "holds_index ix es names dir"
    and q: "q = (\<lambda>i. query_filter cl s (ix_cache_dir ix) input (names ! i))"
  shows "fh_data fh = Inr (encode_index es names dir) \<Longrightarrow> length seen = length names \<Longrightarrow>
    map_ok fst (check_scts cl s ix input (concat (map put_dir_entry (dir_table es names dir))) scts fh seen good)
    = map_ok verdict (consult q (concat (map (covering dir) scts)) seen good)"
proof (induction scts arbitrary: fh seen good)
  case Nil
  then show ?case by simp
next
  case (Cons sct scts)
  let ?b = "concat (map put_dir_entry (dir_table es names dir))"
  have enc: "encodable es names dir" and logs: "ix_num_logs ix = length dir"
    using ix by (simp_all add: holds_index_def)
  then have "log_table (dir_table es names dir)" unfolding dir_table_def by (intro dir_log_table)
  from log_search_full [OF this, of "ct_log_id sct"]
  consider (found) i where "i < length dir" "fst (dir ! i) = ct_log_id sct"
      "log_search ?b (ct_log_id sct) 0 (length dir) = Ok (Some (i * LOG_DIR_ENTRY_SIZE))"
    | (none) "ct_log_id sct \<notin> fst ` set dir" "log_search ?b (ct_log_id sct) 0 (length dir) = Ok None"
    by (auto simp: dir_table_simps)
  then show ?case
  proof cases
    case found
    from check_scts_section [OF ix Cons.prems found, of cl s input scts good] obtain pos where
      step: "check_scts cl s ix input ?b (sct # scts) fh seen good
        = obind (consult q (covering dir sct) seen good) (\<lambda>fl. case fl of
            Return st \<Rightarrow> Ok (st, fh\<lparr>fh_pos := pos\<rparr>)
          | Continue (seen, good) \<Rightarrow> check_scts cl s ix input ?b scts (fh\<lparr>fh_pos := pos\<rparr>) seen good)"
      unfolding q by blast
    show ?thesis
      unfolding step list.map concat.simps consult_append
      using Cons.IH Cons.prems
      by (cases "consult q (covering dir sct) seen good") (auto simp: consult_length split: flow.splits)
  next
    case none
    then have "covering dir sct = []" by (simp add: covering_def map_of_eq_None_iff [THEN iffD2])
    with none(2) Cons.IH [OF Cons.prems] show ?thesis by (simp add: logs)
  qed
qed

lemma check_encoded:
  assumes ix: "holds_index ix es names dir"
  shows "map_ok fst (check cl s ix input)
    = map_ok verdict (consult (\<lambda>i. query_filter cl s (ix_cache_dir ix) input (names ! i))
        (concat (map (covering dir) (in_sct_timestamps input))) (replicate (length names) False) False)"
proof -
  have enc: "encodable es names dir" using ix by (simp add: holds_index_def)
  have "slice_from (ix_logs_offset ix) (ix_tables ix)
      = (Ok (concat (map put_dir_entry (dir_table es names dir))) :: (rev_error, bytes) outcome)"
    using ix length_filename_table [OF enc]
    by (simp add: holds_index_def index_tables_def dir_table_def slice_from_def)
  moreover have "map_ok fst (obind r (\<lambda>(st, file). Ok (st, ix\<lparr>ix_file := file\<rparr>))) = map_ok fst r"
    for r :: "(rev_error, revocation_status \<times> file_handle) outcome"
    by (cases r) auto
  moreover have "ix_num_filenames ix = length names" "fh_data (ix_file ix) = Inr (encode_index es names dir)"
    using ix by (simp_all add: holds_index_def)
  ultimately show ?thesis
    by (simp add: check_def check_scts_encoded [OF ix refl])
qed

lemma load_then_check:
  assumes "encodable es names dir"
    and "readable_file s (path_join (revocation_cache_dir config) INDEX_BIN) (encode_index es names dir)"
  shows "map_ok fst (obind (from_cache config s) (\<lambda>ix. check cl s' ix input))
    = map_ok verdict (consult (\<lambda>i. query_filter cl s' (revocation_cache_dir config) input (names ! i))
        (concat (map (covering dir) (in_sct_timestamps input))) (replicate (length names) False) False)"
  using from_cache_holds_index [OF assms] check_encoded by fastforce

section \<open>Properties\<close>

definition sample_directory :: "entry list btree_map" where
  "sample_directory = [(sample_log, [(0, 10, 20), (1, 10, 20)])]"

lemma sample_encoding: "encode_index ENTRY_SIZE_V1 [''a'', ''b''] sample_directory = sample_index"
  by code_simp

lemma sample_encodable: "encodable ENTRY_SIZE_V1 [''a'', ''b''] sample_directory"
proof -
  have "length sample_index = 156" by code_simp
  moreover have "list_all (\<lambda>n. rust_str n \<and> length n \<le> FILENAME_SIZE \<and> 0 \<notin> set (as_bytes n)) [''a'', ''b'']"
    by code_simp
  ultimately show ?thesis
    by (simp add: encodable_def sample_encoding max_filters_def entry_sizes_neq)
       (simp add: sample_directory_def sample_log_def)
qed

lemma sample_readable:
  "readable_file sample_fs_indexed (path_join (revocation_cache_dir sample_config) INDEX_BIN) sample_index"
  by (simp add: sample_revocation_dir sample_join) code_simp

text \<open>
  C3: loading an index file and checking a certificate with it is the abstract check: the filters
  whose interval covers an SCT are consulted once each, in order, until one answers revoked, and
  every error of reading or decoding a filter is passed on. This holds for both versions of the
  format and for every later state \<open>s'\<close> of the file system.
\<close>

theorem load_then_check_refines:
  assumes "encodable es names dir"
    and "readable_file s (path_join (revocation_cache_dir config) INDEX_BIN) (encode_index es names dir)"
  shows "map_ok fst (obind (from_cache config s) (\<lambda>ix. check cl s' ix input))
    = map_ok verdict (consult (\<lambda>i. query_filter cl s' (revocation_cache_dir config) input (names ! i))
        (concat (map (covering dir) (in_sct_timestamps input))) (replicate (length names) False) False)"
  using assms by (rule load_then_check)

theorem load_then_check_refines_witness:
  "map_ok fst (obind (from_cache sample_config sample_fs_indexed)
      (\<lambda>ix. check sample_crlite sample_fs_indexed ix sample_input))
   = map_ok verdict (consult
       (\<lambda>i. query_filter sample_crlite sample_fs_indexed (revocation_cache_dir sample_config) sample_input
               ([''a'', ''b''] ! i))
       (concat (map (covering sample_directory) (in_sct_timestamps sample_input)))
       (replicate (length [''a'', ''b'']) False) False)"
  using sample_readable by (intro load_then_check_refines [OF sample_encodable]) (simp only: sample_encoding)

text \<open>
  C37: the size of the tables is checked before they are loaded. For a readable index file that starts
  with the header of either version, with any counts, the tables the counts imply take less than
  \<open>2\<^sup>3\<^sup>8\<close> bytes, far below the limit of \<open>usize\<close>. If the rest of the file is shorter than that, loading ends with the
  error \<open>index tables truncated\<close> and not with one of the later read, so a corrupt count demands
  no allocation beyond the file; otherwise exactly these bytes are loaded.
\<close>

theorem from_cache_tables:
  fixes l :: u32
  assumes "es = ENTRY_SIZE_V0 \<or> es = ENTRY_SIZE_V1" and "n < (if es = ENTRY_SIZE_V0 then 2 ^ 8 else 2 ^ 16)"
    and "b = magic_of es @ put_count es n @ to_be_bytes l @ rest"
    and "readable_file s (path_join (revocation_cache_dir config) INDEX_BIN) b"
    and "t = n * FILENAME_SIZE + unat l * LOG_DIR_ENTRY_SIZE"
  shows "header_size_of es + t < 2 ^ 38
    \<and> from_cache config s =
    (if length rest < t then Err (IndexDecode (MsgCause ''index tables truncated''))
     else Ok \<lparr>ix_cache_dir = revocation_cache_dir config, ix_num_filenames = n, ix_num_logs = unat l,
              ix_logs_offset = n * FILENAME_SIZE, ix_entry_size = es, ix_tables = take t rest,
              ix_file = \<lparr>fh_data = Inr b, fh_meta = Inr (length b), fh_pos = header_size_of es + t\<rparr>\<rparr>)"
proof
  have n: "n < max_filters es" using assms(2) by (simp add: max_filters_def)
  have "n < 2 ^ 16" using assms(2) by (simp split: if_splits)
  moreover have "unat l < 2 ^ 32" using unsigned_less [of l] by simp
  ultimately show "header_size_of es + t < 2 ^ 38" by (simp add: assms(5) header_size_of_def layout_consts)
  show "from_cache config s =
    (if length rest < t then Err (IndexDecode (MsgCause ''index tables truncated''))
     else Ok \<lparr>ix_cache_dir = revocation_cache_dir config, ix_num_filenames = n, ix_num_logs = unat l,
              ix_logs_offset = n * FILENAME_SIZE, ix_entry_size = es, ix_tables = take t rest,
              ix_file = \<lparr>fh_data = Inr b, fh_meta = Inr (length b), fh_pos = header_size_of es + t\<rparr>\<rparr>)"
    by (rule from_cache_header [OF assms(1) n assms(3-5)])
qed

text \<open>A header of the second version that announces the largest counts, and nothing more.\<close>

definition oversized_index :: bytes where
  "oversized_index = magic_of ENTRY_SIZE_V1 @ put_count ENTRY_SIZE_V1 65535 @ to_be_bytes (- 1 :: u32) @ []"

definition oversized_fs :: fs where
  "oversized_fs = \<lparr>fs_nodes = [(path_key (path_join (revocation_cache_dir sample_config) INDEX_BIN), File oversized_index)],
     fs_fault = (\<lambda>_ _. None)\<rparr>"

theorem from_cache_tables_witness:
  "from_cache sample_config oversized_fs = Err (IndexDecode (MsgCause ''index tables truncated''))"
proof -
  have "readable_file oversized_fs (path_join (revocation_cache_dir sample_config) INDEX_BIN) oversized_index"
  proof -
    have "path_key ''/c/revocation/index.bin'' \<noteq> []" by code_simp
    then show ?thesis
      by (simp add: readable_file_def file_open_def oversized_fs_def node_at_def sample_revocation_dir sample_join Let_def)
  qed
  from from_cache_tables [OF disjI2 [OF refl] _ oversized_index_def this refl] show ?thesis
    by (simp add: entry_sizes_neq layout_consts)
qed

text \<open>
  C23: the binary search over the log directory is equivalent to a linear search for the log: on a
  directory sorted by log id it returns the position of the entry with that id, and nothing when
  there is none.
\<close>

theorem log_search_equiv_linear:
  assumes "log_table ds"
  shows "log_search (concat (map put_dir_entry ds)) t 0 (length ds)
    = Ok (map_option (\<lambda>i. i * LOG_DIR_ENTRY_SIZE) (find (\<lambda>i. fst (ds ! i) = t) [0..<length ds]))"
  using log_search_full [OF assms, of t]
proof (elim disjE exE conjE)
  fix i
  assume i: "i < length ds" "fst (ds ! i) = t"
    "log_search (concat (map put_dir_entry ds)) t 0 (length ds) = Ok (Some (i * LOG_DIR_ENTRY_SIZE))"
  have "distinct (map fst ds)" using assms by (simp add: log_table_def strict_sorted_iff)
  then have "find (\<lambda>j. fst (ds ! j) = t) [0..<length ds] = Some i"
    using i(1,2) by (auto simp: find_Some_iff distinct_conv_nth intro!: exI [of _ i])
  with i(3) show ?thesis by simp
next
  assume "t \<notin> fst ` set ds" "log_search (concat (map put_dir_entry ds)) t 0 (length ds) = Ok None"
  moreover from this(1) have "find (\<lambda>i. fst (ds ! i) = t) [0..<length ds] = None"
    by (auto simp: find_None_iff)
  ultimately show ?thesis by simp
qed

theorem log_search_equiv_linear_witness:
  "log_search (concat (map put_dir_entry [(replicate 32 3, 9, 1), (replicate 32 7, 8, 2)])) (replicate 32 7) 0 (Suc (Suc 0))
   = Ok (Some LOG_DIR_ENTRY_SIZE)"
proof -
  have "log_table [(replicate 32 3, 9, 1), (replicate 32 7, 8, 2)]" by code_simp
  from log_search_equiv_linear [OF this, of "replicate 32 7"] show ?thesis
    by (simp add: upt_rec)
qed

end
