(* ===== verification/Index_Writer.thy ===== *)
theory Index_Writer
  imports Index_Correct
begin

text \<open>
  Correctness of \<open>Index::write\<close>: the directory it collects holds, for every log, the intervals of
  all filters in the order of the manifest, its bytes are the encoding of that directory, and so a
  check through the written index gives the verdict over all filters of the manifest.
\<close>

section \<open>The directory the writer collects\<close>

definition entries_of :: "'e list btree_map \<Rightarrow> bytes \<Rightarrow> 'e list" where
  "entries_of m k = (case map_of m k of None \<Rightarrow> [] | Some es \<Rightarrow> es)"

abbreviation sorted_map :: "'v btree_map \<Rightarrow> bool" where
  "sorted_map m \<equiv> sorted_wrt (<) (map fst m)"

lemma keys_push_entry: "set (map fst (push_entry k e m)) = insert k (set (map fst m))"
  by (induction k e m rule: push_entry.induct) auto

lemma sorted_push_entry: "sorted_map m \<Longrightarrow> sorted_map (push_entry k e m)"
proof (induction k e m rule: push_entry.induct)
  case (2 k e k' es m)
  then show ?case using keys_push_entry [of k e m] by (auto simp: not_less order.strict_iff_order)
qed simp

lemma entries_of_push_entry:
  "sorted_map m \<Longrightarrow> entries_of (push_entry k e m) k' = entries_of m k' @ (if k' = k then [e] else [])"
proof (induction k e m rule: push_entry.induct)
  case (2 k e k1 es m)
  have "map_of m k = None" if "k < k1"
    using 2(2) that by (auto simp: map_of_eq_None_iff dest: order.strict_trans)
  with 2 show ?case by (auto simp: entries_of_def split: option.splits)
qed (simp add: entries_of_def)

lemma sorted_map_entries: "sorted_map m \<Longrightarrow> (k, es) \<in> set m \<Longrightarrow> entries_of m k = es"
  by (simp add: entries_of_def strict_sorted_iff)

text \<open>What the universe of the filter with index \<open>i\<close> contributes to the section of log \<open>k\<close>.\<close>

definition universe_entries :: "nat \<Rightarrow> (bytes \<times> u64 \<times> u64) list \<Rightarrow> bytes \<Rightarrow> (u16 \<times> u64 \<times> u64) list" where
  "universe_entries i universe k =
     map (\<lambda>(_, low, high). (of_nat i, low, high)) (filter (\<lambda>u. fst u = k) universe)"

lemma add_universe_Cons:
  "add_universe i ((k, low, high) # u) m = add_universe i u (push_entry k (of_nat i, low, high) m)"
  by (simp add: add_universe_def)

lemma add_universe_spec:
  "sorted_map m \<Longrightarrow> sorted_map (add_universe i u m)
     \<and> fst ` set (add_universe i u m) = fst ` set m \<union> fst ` set u
     \<and> entries_of (add_universe i u m) k = entries_of m k @ universe_entries i u k"
proof (induction u arbitrary: m)
  case Nil
  then show ?case by (simp add: add_universe_def universe_entries_def)
next
  case (Cons x u)
  obtain k' low high where x: "x = (k', low, high)" by (cases x)
  show ?case
    using Cons.IH [OF sorted_push_entry [OF Cons.prems], of k' "(of_nat i, low, high)"]
      entries_of_push_entry [OF Cons.prems] keys_push_entry [of k' "(of_nat i, low, high)" m]
    by (auto simp: x add_universe_Cons universe_entries_def)
qed

definition load_filter :: "'c crlite \<Rightarrow> fs \<Rightarrow> path \<Rightarrow> string \<Rightarrow> 'c option" where
  "load_filter cl s dir name =
     (case fs_read s (path_join dir name) of
        Ok b \<Rightarrow> (case cl_from_bytes cl b of Inr c \<Rightarrow> Some c | Inl _ \<Rightarrow> None)
      | _ \<Rightarrow> None)"

lemma query_filter_loaded:
  "load_filter cl s dir name = Some c \<Longrightarrow>
   query_filter cl s dir input name
     = Ok (cl_contains cl c (input_key input) (map (\<lambda>t. (ct_log_id t, ct_time t)) (in_sct_timestamps input)))"
  by (auto simp: load_filter_def query_filter_def Let_def split: outcome.splits sum.splits)

lemma collect_filters_Cons:
  "collect_filters cl s dir i (f # files) m =
     (if length (mf_filename f) > FILENAME_SIZE then None
      else case load_filter cl s dir (mf_filename f) of
        None \<Rightarrow> None
      | Some c \<Rightarrow> collect_filters cl s dir (Suc i) files (add_universe i (cl_universe cl c) m))"
  by (auto simp: load_filter_def split: outcome.splits sum.splits)

text \<open>The collected directory: the section of a log holds what each filter contributes, in order.\<close>

lemma collect_filters_spec:
  "collect_filters cl s dir i (files :: manifest_file list) m = Some m' \<Longrightarrow> sorted_map m \<Longrightarrow>
   \<exists>cs. list_all2 (\<lambda>f c. length (mf_filename f) \<le> FILENAME_SIZE \<and> load_filter cl s dir (mf_filename f) = Some c) files cs
     \<and> sorted_map m' \<and> fst ` set m' = fst ` set m \<union> (\<Union>c \<in> set cs. fst ` set (cl_universe cl c))
     \<and> (\<forall>k. entries_of m' k = entries_of m k
          @ concat (map (\<lambda>(j, c). universe_entries j (cl_universe cl c) k) (enumerate i cs)))"
proof (induction files arbitrary: i m)
  case Nil
  then show ?case by (auto intro!: exI [of _ "[]"])
next
  case (Cons f files)
  from Cons.prems(1) obtain c where c: "length (mf_filename f) \<le> FILENAME_SIZE"
    "load_filter cl s dir (mf_filename f) = Some c"
    and rest: "collect_filters cl s dir (Suc i) files (add_universe i (cl_universe cl c) m) = Some m'"
    by (auto simp only: collect_filters_Cons split: if_splits option.splits)
  note add = add_universe_spec [OF Cons.prems(2), of i "cl_universe cl c"]
  from Cons.IH [OF rest] add obtain cs where
    "list_all2 (\<lambda>f c. length (mf_filename f) \<le> FILENAME_SIZE \<and> load_filter cl s dir (mf_filename f) = Some c) files cs"
    "sorted_map m'"
    "fst ` set m' = fst ` set (add_universe i (cl_universe cl c) m) \<union> (\<Union>c \<in> set cs. fst ` set (cl_universe cl c))"
    "\<forall>k. entries_of m' k = entries_of (add_universe i (cl_universe cl c) m) k
       @ concat (map (\<lambda>(j, c). universe_entries j (cl_universe cl c) k) (enumerate (Suc i) cs))"
    by blast
  with c add show ?case by (intro exI [of _ "c # cs"]) (auto simp: enumerate_simps)
qed

text \<open>The directory with its filter indices as numbers.\<close>

definition number_entry :: "u16 \<times> u64 \<times> u64 \<Rightarrow> entry" where
  "number_entry e = (unat (fst e), snd e)"

definition number_entries :: "log_map \<Rightarrow> entry list btree_map" where
  "number_entries m = map (\<lambda>(k, es). (k, map number_entry es)) m"

lemma fst_number_entries [simp]: "map fst (number_entries m) = map fst m"
  by (induction m) (auto simp: number_entries_def)

lemma put_entry_number: "put_entry ENTRY_SIZE_V1 (number_entry e) = put_entry_v1 e"
  by (cases e) (simp add: put_entry_def entry_sizes_neq number_entry_def)

lemma dir_entries_number: "dir_entries es off (number_entries m) = dir_entries es off m"
  by (induction es off m rule: dir_entries.induct) (auto simp: number_entries_def)

lemma index_write_encoded:
  "index_write cl s m dir =
     map_option (\<lambda>by_log_id. encode_index ENTRY_SIZE_V1 (map mf_filename (m_files m)) (number_entries by_log_id))
       (collect_filters cl s dir 0 (m_files m) [])"
proof -
  have sections: "concat (map (put_section ENTRY_SIZE_V1) (number_entries by_log_id))
      = concat (map (\<lambda>(_, entries). concat (map put_entry_v1 entries)) by_log_id)" for by_log_id
    by (induction by_log_id)
       (auto simp: number_entries_def put_section_def comp_def put_entry_number)
  have len: "length (number_entries by_log_id) = length by_log_id" for by_log_id
    by (simp add: number_entries_def)
  show ?thesis
    by (simp add: index_write_def encode_index_def index_tables_def magic_of_def put_count_def
        header_size_of_def entry_sizes_neq sections len dir_entries_number Let_def comp_def
        split: option.split)
qed

text \<open>What is relied on of the CRLite crate.\<close>

definition crlite_universe_ok :: "'c crlite \<Rightarrow> bool" where
  "crlite_universe_ok cl \<longleftrightarrow>
     (\<forall>c. distinct (map fst (cl_universe cl c)) \<and> (\<forall>u \<in> set (cl_universe cl c). length (fst u) = 32))"

definition in_universe :: "(bytes \<times> u64 \<times> u64) list \<Rightarrow> bytes \<times> u64 \<Rightarrow> bool" where
  "in_universe universe t = list_ex (\<lambda>(k, low, high). k = fst t \<and> low \<le> snd t \<and> snd t \<le> high) universe"

definition crlite_covered_ok :: "'c crlite \<Rightarrow> bool" where
  "crlite_covered_ok cl \<longleftrightarrow>
     (\<forall>c key ts. \<not> list_ex (in_universe (cl_universe cl c)) ts \<longrightarrow> cl_contains cl c key ts = NotCovered)"

lemma length_universe_entries: "distinct (map fst u) \<Longrightarrow> length (universe_entries i u k) \<le> 1"
proof (induction u)
  case (Cons x u)
  then have new: "fst x \<notin> fst ` set u" by simp
  have "fst y \<noteq> fst x" if "y \<in> set u" for y
    using imageI [OF that, of fst] new by metis
  then have "fst x = k \<Longrightarrow> filter (\<lambda>u. fst u = k) u = []"
    by (simp add: filter_empty_conv)
  with Cons show ?case by (auto simp: universe_entries_def)
qed (simp add: universe_entries_def)

lemma collected_entry_iff:
  assumes "length cs < 2 ^ 16"
  shows "(i, low, high) \<in> set (concat (map (\<lambda>(j, c). universe_entries j (cl_universe cl c) k) (enumerate 0 cs)))
    \<longleftrightarrow> unat i < length cs \<and> (k, low, high) \<in> set (cl_universe cl (cs ! unat i))"
proof -
  have "unat (of_nat j :: u16) = j" if "j < length cs" for j
    using that assms by (intro unat_of_nat_small) simp
  then show ?thesis
    by (force simp: universe_entries_def in_set_enumerate_eq image_iff)
qed


lemma length_collected:
  assumes "crlite_universe_ok cl"
  shows "length (concat (map (\<lambda>(j, c). universe_entries j (cl_universe cl c) k) (enumerate i cs))) \<le> length cs"
proof (induction cs arbitrary: i)
  case (Cons c cs)
  have "length (universe_entries i (cl_universe cl c) k) \<le> 1"
    using assms by (intro length_universe_entries) (simp add: crlite_universe_ok_def)
  with Cons [of "Suc i"] show ?case by (simp add: enumerate_simps)
qed simp

section \<open>The verdict over all filters\<close>

definition overall :: "crlite_status list \<Rightarrow> revocation_status" where
  "overall answers =
     (if Revoked \<in> set answers then CertainlyRevoked
      else if Good \<in> set answers then NotRevoked
      else NotCoveredByRevocationData)"

lemma consult_verdict:
  assumes "\<forall>i \<in> set is. q i = Ok (ans i)" and "\<forall>i \<in> set is. i < length seen"
  shows "map_ok verdict (consult q is seen good) = Ok
    (if \<exists>i \<in> set is. \<not> seen ! i \<and> ans i = Revoked then CertainlyRevoked
     else if good \<or> (\<exists>i \<in> set is. \<not> seen ! i \<and> ans i = Good) then NotRevoked
     else NotCoveredByRevocationData)"
  using assms
proof (induction "is" arbitrary: seen good)
  case Nil
  then show ?case by simp
next
  case (Cons i "is")
  then have IH: "map_ok verdict (consult q is seen' good') = Ok
    (if \<exists>i \<in> set is. \<not> seen' ! i \<and> ans i = Revoked then CertainlyRevoked
     else if good' \<or> (\<exists>i \<in> set is. \<not> seen' ! i \<and> ans i = Good) then NotRevoked
     else NotCoveredByRevocationData)" if "length seen' = length seen" for seen' good'
    using that by simp
  consider "seen ! i" | "\<not> seen ! i" "ans i = Revoked" | "\<not> seen ! i" "ans i \<noteq> Revoked" by blast
  then show ?case
  proof cases
    case 1
    with IH [of seen good] show ?thesis by auto
  next
    case 2
    with Cons.prems show ?thesis by simp
  next
    case 3
    have nth: "\<not> seen[i := True] ! j \<longleftrightarrow> j \<noteq> i \<and> \<not> seen ! j" if "j \<in> set is" for j
      using Cons.prems(2) that by (auto simp: nth_list_update)
    have R: "(\<exists>j \<in> set (i # is). \<not> seen ! j \<and> ans j = Revoked)
        \<longleftrightarrow> (\<exists>j \<in> set is. \<not> seen[i := True] ! j \<and> ans j = Revoked)"
      using 3 by (auto simp: nth)
    have G: "(good \<or> (\<exists>j \<in> set (i # is). \<not> seen ! j \<and> ans j = Good))
        \<longleftrightarrow> (good \<or> ans i = Good) \<or> (\<exists>j \<in> set is. \<not> seen[i := True] ! j \<and> ans j = Good)"
      using 3 by (auto simp: nth)
    have "consult q (i # is) seen good = consult q is (seen[i := True]) (good \<or> ans i = Good)"
      using 3 Cons.prems(1) by simp
    then show ?thesis unfolding R G by (simp only: IH length_list_update)
  qed
qed


lemma collected_encodable:
  assumes ok: "crlite_universe_ok cl" and sorted: "sorted_map m'"
    and keys: "fst ` set m' = (\<Union>c \<in> set cs. fst ` set (cl_universe cl c))"
    and entries: "\<forall>k. entries_of m' k
       = concat (map (\<lambda>(j, c). universe_entries j (cl_universe cl c) k) (enumerate 0 cs))"
    and names: "length names = length cs" "length cs < 2 ^ 16"
      "list_all (\<lambda>n. rust_str n \<and> length n \<le> FILENAME_SIZE \<and> 0 \<notin> set (as_bytes n)) names"
    and len: "length (encode_index ENTRY_SIZE_V1 names (number_entries m')) < 2 ^ 32"
  shows "encodable ENTRY_SIZE_V1 names (number_entries m')"
proof -
  have "length k = 32 \<and> length es < 2 ^ 16 \<and> list_all (\<lambda>e. fst e < length names) es"
    if mem: "(k, es) \<in> set (number_entries m')" for k es
  proof -
    from mem obtain es' where es': "(k, es') \<in> set m'" "es = map number_entry es'"
      by (auto simp: number_entries_def)
    then have "k \<in> fst ` set m'" by force
    then have "length k = 32" using keys ok by (auto simp: crlite_universe_ok_def)
    moreover have e: "entries_of m' k = es'" by (rule sorted_map_entries [OF sorted es'(1)])
    then have "length es' \<le> length cs" using entries length_collected [OF ok] by metis
    moreover have "unat i < length cs" if "(i, low, high) \<in> set es'" for i low high
      using that e entries collected_entry_iff [OF names(2)] by metis
    ultimately show ?thesis
      using names by (auto simp: es'(2) list_all_iff number_entry_def)
  qed
  then show ?thesis
    using assms by (auto simp: encodable_def max_filters_def entry_sizes_neq list_all_iff)
qed

lemma covering_entries:
  "covering dir sct = map fst (filter (covers (ct_time sct)) (entries_of dir (ct_log_id sct)))"
  by (simp add: covering_def entries_of_def split: option.splits)

lemma entries_of_number: "entries_of (number_entries m) k = map number_entry (entries_of m k)"
  by (induction m) (auto simp: number_entries_def entries_of_def)

lemma covering_collected:
  assumes "length cs < 2 ^ 16"
    and "\<forall>k. entries_of m k
       = concat (map (\<lambda>(j, c). universe_entries j (cl_universe cl c) k) (enumerate 0 cs))"
  shows "i \<in> set (covering (number_entries m) sct)
    \<longleftrightarrow> i < length cs \<and> in_universe (cl_universe cl (cs ! i)) (ct_log_id sct, ct_time sct)"
proof -
  have "i \<in> set (covering (number_entries m) sct) \<longleftrightarrow>
      (\<exists>w low high. i = unat w \<and> (w, low, high) \<in> set (entries_of m (ct_log_id sct))
         \<and> low \<le> ct_time sct \<and> ct_time sct \<le> high)"
    by (force simp: covering_entries entries_of_number number_entry_def)
  also have "\<dots> \<longleftrightarrow> (\<exists>w low high. i = unat (w :: u16) \<and> unat w < length cs
       \<and> (ct_log_id sct, low, high) \<in> set (cl_universe cl (cs ! unat w))
       \<and> low \<le> ct_time sct \<and> ct_time sct \<le> high)"
    by (simp only: assms(2) collected_entry_iff [OF assms(1)]) blast
  also have "\<dots> \<longleftrightarrow> i < length cs \<and> in_universe (cl_universe cl (cs ! i)) (ct_log_id sct, ct_time sct)"
  proof -
    have "i < length cs \<Longrightarrow> unat (of_nat i :: u16) = i" using assms(1) by (intro unat_of_nat_small) simp
    then show ?thesis
      by (auto simp: in_universe_def list_ex_iff) (metis)
  qed
  finally show ?thesis .
qed


lemma covered_answers:
  assumes "crlite_covered_ok cl" and len: "length cs < 2 ^ 16"
    and entries: "\<forall>k. entries_of m k
       = concat (map (\<lambda>(j, c). universe_entries j (cl_universe cl c) k) (enumerate 0 cs))"
    and i: "i < length cs"
    and ans: "cl_contains cl (cs ! i) key (map (\<lambda>t. (ct_log_id t, ct_time t)) scts) \<noteq> NotCovered"
  shows "i \<in> set (concat (map (covering (number_entries m)) scts))"
proof -
  from assms(1) ans have "list_ex (in_universe (cl_universe cl (cs ! i))) (map (\<lambda>t. (ct_log_id t, ct_time t)) scts)"
    by (auto simp: crlite_covered_ok_def)
  then obtain t where "t \<in> set scts" "in_universe (cl_universe cl (cs ! i)) (ct_log_id t, ct_time t)"
    by (auto simp: list_ex_iff)
  with i covering_collected [OF len entries] show ?thesis by auto
qed

text \<open>What a successful write means: the filters it loaded and the directory it encoded.\<close>

lemma index_write_collected:
  assumes cl: "crlite_universe_ok cl" and wr: "index_write cl s m dir = Some b"
    and size: "length (m_files m) < 2 ^ 16" "length b < 2 ^ 32"
    and names: "\<forall>f \<in> set (m_files m). rust_str (mf_filename f) \<and> 0 \<notin> set (as_bytes (mf_filename f))"
  obtains by_log cs where "b = encode_index ENTRY_SIZE_V1 (map mf_filename (m_files m)) (number_entries by_log)"
    and "encodable ENTRY_SIZE_V1 (map mf_filename (m_files m)) (number_entries by_log)"
    and "list_all2 (\<lambda>f c. load_filter cl s dir (mf_filename f) = Some c) (m_files m) cs"
    and "\<forall>k. entries_of by_log k
       = concat (map (\<lambda>(j, c). universe_entries j (cl_universe cl c) k) (enumerate 0 cs))"
proof -
  from wr obtain by_log where col: "collect_filters cl s dir 0 (m_files m) [] = Some by_log"
    and b: "b = encode_index ENTRY_SIZE_V1 (map mf_filename (m_files m)) (number_entries by_log)"
    by (auto simp: index_write_encoded)
  from collect_filters_spec [OF col] obtain cs where
    load: "list_all2 (\<lambda>f c. length (mf_filename f) \<le> FILENAME_SIZE \<and> load_filter cl s dir (mf_filename f) = Some c)
      (m_files m) cs"
    and coll: "sorted_map by_log" "fst ` set by_log = (\<Union>c \<in> set cs. fst ` set (cl_universe cl c))"
    and entries: "\<forall>k. entries_of by_log k
       = concat (map (\<lambda>(j, c). universe_entries j (cl_universe cl c) k) (enumerate 0 cs))"
    by (auto simp: entries_of_def)
  have "length cs = length (m_files m)" using load by (simp add: list_all2_lengthD)
  then have "encodable ENTRY_SIZE_V1 (map mf_filename (m_files m)) (number_entries by_log)"
    using cl coll entries size names load
    by (intro collected_encodable [of cl by_log cs])
       (auto simp: b list_all_length list_all2_conv_all_nth)
  moreover have "list_all2 (\<lambda>f c. load_filter cl s dir (mf_filename f) = Some c) (m_files m) cs"
    using load by (rule list_all2_mono) simp
  ultimately show thesis using that b entries by blast
qed

lemma index_check_all:
  assumes cl: "crlite_universe_ok cl" "crlite_covered_ok cl"
    and wr: "index_write cl s m (revocation_cache_dir config) = Some b"
    and size: "length (m_files m) < 2 ^ 16" "length b < 2 ^ 32"
    and names: "\<forall>f \<in> set (m_files m). rust_str (mf_filename f) \<and> 0 \<notin> set (as_bytes (mf_filename f))"
    and rd: "readable_file s' (path_join (revocation_cache_dir config) INDEX_BIN) b"
    and same: "\<forall>f \<in> set (m_files m). fs_read s' (path_join (revocation_cache_dir config) (mf_filename f))
       = fs_read s (path_join (revocation_cache_dir config) (mf_filename f))"
  shows "\<exists>answers. map (\<lambda>f. query_filter cl s' (revocation_cache_dir config) input (mf_filename f)) (m_files m)
       = map Ok answers
     \<and> map_ok fst (obind (from_cache config s') (\<lambda>ix. check cl s' ix input)) = Ok (overall answers)"
proof -
  let ?dir = "revocation_cache_dir config" and ?names = "map mf_filename (m_files m)"
  from index_write_collected [OF cl(1) wr size names] obtain by_log cs where
    b: "b = encode_index ENTRY_SIZE_V1 ?names (number_entries by_log)"
    and enc: "encodable ENTRY_SIZE_V1 ?names (number_entries by_log)"
    and load: "list_all2 (\<lambda>f c. load_filter cl s ?dir (mf_filename f) = Some c) (m_files m) cs"
    and entries: "\<forall>k. entries_of by_log k
       = concat (map (\<lambda>(j, c). universe_entries j (cl_universe cl c) k) (enumerate 0 cs))" .
  have len: "length cs = length (m_files m)" using load by (simp add: list_all2_lengthD)
  let ?ans = "\<lambda>i. cl_contains cl (cs ! i) (input_key input)
    (map (\<lambda>t. (ct_log_id t, ct_time t)) (in_sct_timestamps input))"
  have q: "query_filter cl s' ?dir input (mf_filename (m_files m ! i)) = Ok (?ans i)" if "i < length cs" for i
    using load that len same
    by (intro query_filter_loaded) (auto simp: list_all2_conv_all_nth load_filter_def)
  let ?is = "concat (map (covering (number_entries by_log)) (in_sct_timestamps input))"
  have range: "i < length cs" if "i \<in> set ?is" for i
    using that covering_collected [OF _ entries] len size(1) by auto
  have "map_ok fst (obind (from_cache config s') (\<lambda>ix. check cl s' ix input))
    = map_ok verdict (consult (\<lambda>i. query_filter cl s' ?dir input (?names ! i)) ?is
        (replicate (length ?names) False) False)"
    using enc rd b by (intro load_then_check) simp_all
  also have "\<dots> = Ok (if \<exists>i \<in> set ?is. \<not> replicate (length ?names) False ! i \<and> ?ans i = Revoked then CertainlyRevoked
     else if False \<or> (\<exists>i \<in> set ?is. \<not> replicate (length ?names) False ! i \<and> ?ans i = Good) then NotRevoked
     else NotCoveredByRevocationData)"
    using range len by (intro consult_verdict) (auto simp: q)
  also have "\<dots> = Ok (overall (map ?ans [0..<length cs]))"
  proof -
    have "(\<exists>i \<in> set ?is. \<not> replicate (length ?names) False ! i \<and> ?ans i = a) \<longleftrightarrow> a \<in> set (map ?ans [0..<length cs])"
      if "a \<noteq> NotCovered" for a
      using that range len covered_answers [OF cl(2) _ entries] size(1) by fastforce
    then show ?thesis by (simp add: overall_def)
  qed
  finally show ?thesis
    using q len by (intro exI [of _ "map ?ans [0..<length cs]"]) (auto intro: nth_equalityI)
qed

section \<open>Properties\<close>

text \<open>
  C2: the contract of the index. After \<open>Index::write\<close> has indexed the filters of a manifest (fewer
  than 65536 files whose names are strings without NUL) and its bytes are the file \<open>index.bin\<close>,
  loading the index and checking a certificate gives the verdict over the answers of all filters of
  the manifest: revoked if any filter says so, else not revoked if any says good, else not covered.
  The CRLite crate is relied on for two documented facts: a universe maps each 32-byte log id to one
  interval, and a certificate none of whose timestamps is in the universe is answered \<open>NotCovered\<close>.
\<close>

theorem index_check_complete:
  assumes cl: "crlite_universe_ok cl" "crlite_covered_ok cl"
    and wr: "index_write cl s m (revocation_cache_dir config) = Some b"
    and size: "length (m_files m) < 2 ^ 16" "length b < 2 ^ 32"
    and names: "\<forall>f \<in> set (m_files m). rust_str (mf_filename f) \<and> 0 \<notin> set (as_bytes (mf_filename f))"
    and rd: "readable_file s' (path_join (revocation_cache_dir config) INDEX_BIN) b"
    and same: "\<forall>f \<in> set (m_files m). fs_read s' (path_join (revocation_cache_dir config) (mf_filename f))
       = fs_read s (path_join (revocation_cache_dir config) (mf_filename f))"
  shows "\<exists>answers. map (\<lambda>f. query_filter cl s' (revocation_cache_dir config) input (mf_filename f)) (m_files m)
       = map Ok answers
     \<and> map_ok fst (obind (from_cache config s') (\<lambda>ix. check cl s' ix input)) = Ok (overall answers)"
  using assms by (rule index_check_all)

lemma sample_crlite_laws: "crlite_universe_ok sample_crlite" "crlite_covered_ok sample_crlite"
  by (auto simp: crlite_universe_ok_def crlite_covered_ok_def sample_crlite_def sample_log_def
      in_universe_def list_ex_iff)

theorem index_check_complete_witness:
  "\<exists>answers. map (\<lambda>f. query_filter sample_crlite sample_fs_indexed (revocation_cache_dir sample_config)
       sample_input (mf_filename f)) (m_files sample_manifest) = map Ok answers
     \<and> map_ok fst (obind (from_cache sample_config sample_fs_indexed)
         (\<lambda>ix. check sample_crlite sample_fs_indexed ix sample_input)) = Ok (overall answers)"
proof (rule index_check_complete [OF sample_crlite_laws])
  show "index_write sample_crlite sample_fs sample_manifest (revocation_cache_dir sample_config) = Some sample_index"
    by (simp only: sample_revocation_dir sample_index_write)
  show "length (m_files sample_manifest) < 2 ^ 16" by (simp add: sample_manifest_def)
  have "length sample_index = 156" by code_simp
  then show "length sample_index < 2 ^ 32" by simp
  show "\<forall>f \<in> set (m_files sample_manifest). rust_str (mf_filename f) \<and> 0 \<notin> set (as_bytes (mf_filename f))"
    by code_simp
  show "readable_file sample_fs_indexed (path_join (revocation_cache_dir sample_config) INDEX_BIN) sample_index"
    by (rule sample_readable)
  show "\<forall>f \<in> set (m_files sample_manifest).
      fs_read sample_fs_indexed (path_join (revocation_cache_dir sample_config) (mf_filename f))
      = fs_read sample_fs (path_join (revocation_cache_dir sample_config) (mf_filename f))"
    by code_simp
qed

text \<open>
  The header counts the files of the manifest modulo 65536, since the count is cast to \<open>u16\<close>:
  an index of more files than that is written without an error and read back with fewer filenames.
\<close>

lemma header_count_wraps:
  assumes "index_write cl s m dir = Some b"
  shows "take 8 b = INDEX_MAGIC_V1
    \<and> map_ok fst (read_num_filenames ENTRY_SIZE_V1 (drop 8 b)) = Ok (length (m_files m) mod 2 ^ 16)"
proof -
  have m: "length INDEX_MAGIC_V1 = 8" by (simp add: INDEX_MAGIC_V1_def as_bytes_def)
  from assms obtain rest where "b = INDEX_MAGIC_V1 @ to_be_bytes (of_nat (length (m_files m)) :: u16) @ rest"
    by (auto simp: index_write_def Let_def split: option.splits)
  then show ?thesis
    using m by (simp add: read_num_filenames_def entry_sizes_neq u16.get_put unat_of_nat)
qed

lemma header_count_wraps_witness:
  "map_ok fst (read_num_filenames ENTRY_SIZE_V1 (drop 8 sample_index)) = Ok (2 mod 2 ^ 16)"
  using header_count_wraps [OF sample_index_write] by (simp add: sample_manifest_def)

end
