(* ===== verification/Index_Reuse.thy ===== *)
theory Index_Reuse
  imports Index_Safety
begin

text \<open>
  \<open>Index::check\<close> as a method that changes the index it is called on: it moves the position of the open
  file, also when it fails. The definition \<open>check\<close> returns the new state with a verdict only; here
  every path returns it. Where a failed \<open>read_exact\<close> leaves the position is not specified, and is the
  argument \<open>stop\<close>. The results are those of \<open>check\<close>.
\<close>

section \<open>The method\<close>

text \<open>An early return leaves the file as it is at that point.\<close>

fun keep ::
  "file_handle \<Rightarrow> ('e, 'a) outcome \<Rightarrow> ('a \<Rightarrow> ('e, 'b) outcome \<times> file_handle) \<Rightarrow> ('e, 'b) outcome \<times> file_handle" where
  "keep file (Ok a) f = f a"
| "keep file (Err e) f = (Err e, file)"
| "keep file Panic f = (Panic, file)"

fun check_scts_mut ::
  "(file_handle \<Rightarrow> nat \<Rightarrow> nat) \<Rightarrow> 'c crlite \<Rightarrow> fs \<Rightarrow> index \<Rightarrow> revocation_check_input \<Rightarrow> bytes \<Rightarrow> ct_timestamp list \<Rightarrow> file_handle
   \<Rightarrow> bool list \<Rightarrow> bool \<Rightarrow> (rev_error, revocation_status) outcome \<times> file_handle" where
  "check_scts_mut stop cl s ix input dir_data [] file seen maybe_good =
     (Ok (if maybe_good then NotRevoked else NotCoveredByRevocationData), file)"
| "check_scts_mut stop cl s ix input dir_data (sct # scts) file seen maybe_good =
     keep file (log_search dir_data (ct_log_id sct) 0 (ix_num_logs ix)) (\<lambda>found.
       case found of
         None \<Rightarrow> check_scts_mut stop cl s ix input dir_data scts file seen maybe_good
       | Some entry_offset \<Rightarrow>
           keep file (slice_from (entry_offset + 32) dir_data) (\<lambda>entry_data.
           keep file (read_be entry_data) (\<lambda>(offset :: u64, entry_data).
           keep file (read_be entry_data) (\<lambda>(count :: u16, _).
           keep file (index_io (seek_start file offset)) (\<lambda>file.
           let n = unat count * ix_entry_size ix in
           case read_exact file n of
             Err e \<Rightarrow> (Err (IndexDecode (IoCause e)), file\<lparr>fh_pos := stop file n\<rparr>)
           | Panic \<Rightarrow> (Panic, file)
           | Ok (buf, file) \<Rightarrow>
               keep file (scan_entries cl s ix input (ct_time sct) (unat count) buf seen maybe_good) (\<lambda>flow.
                 case flow of
                   Return st \<Rightarrow> (Ok st, file)
                 | Continue (seen, good) \<Rightarrow> check_scts_mut stop cl s ix input dir_data scts file seen good))))))"

definition check_mut ::
  "(file_handle \<Rightarrow> nat \<Rightarrow> nat) \<Rightarrow> 'c crlite \<Rightarrow> fs \<Rightarrow> index \<Rightarrow> revocation_check_input
   \<Rightarrow> (rev_error, revocation_status) outcome \<times> index" where
  "check_mut stop cl s ix input =
     (case keep (ix_file ix) (slice_from (ix_logs_offset ix) (ix_tables ix)) (\<lambda>dir_data.
         check_scts_mut stop cl s ix input dir_data (in_sct_timestamps input) (ix_file ix)
           (replicate (ix_num_filenames ix) False) False) of
        (r, file) \<Rightarrow> (r, ix\<lparr>ix_file := file\<rparr>))"

text \<open>
  A user that keeps an index and checks one certificate after another, whatever the results, while
  the file system may change between the calls.
\<close>

fun run_checks ::
  "'c crlite \<Rightarrow> ((file_handle \<Rightarrow> nat \<Rightarrow> nat) \<times> fs \<times> revocation_check_input) list \<Rightarrow> index
   \<Rightarrow> (rev_error, revocation_status) outcome list" where
  "run_checks cl [] ix = []"
| "run_checks cl ((stop, s, input) # calls) ix =
     (case check_mut stop cl s ix input of (r, ix') \<Rightarrow> r # run_checks cl calls ix')"

section \<open>Agreement with the definition of the check\<close>

lemma fst_keep: "fst (keep file r f) = obind r (\<lambda>a. fst (f a))"
  by (cases r) simp_all

lemma map_ok_obind: "map_ok g (obind r f) = obind r (\<lambda>a. map_ok g (f a))"
  by (cases r) simp_all

lemma check_scts_mut_result:
  "fst (check_scts_mut stop cl s ix input d scts fh seen good) = map_ok fst (check_scts cl s ix input d scts fh seen good)"
proof (induction scts arbitrary: fh seen good)
  case (Cons sct scts)
  have read: "fst (case read_exact h n of
        Err e \<Rightarrow> (Err (IndexDecode (IoCause e)), h\<lparr>fh_pos := stop h n\<rparr>) | Panic \<Rightarrow> (Panic, h) | Ok (buf, h) \<Rightarrow> f buf h)
      = obind (index_io (read_exact h n)) (\<lambda>(buf, h). fst (f buf h))"
    for h n and f :: "bytes \<Rightarrow> file_handle \<Rightarrow> (rev_error, revocation_status) outcome \<times> file_handle"
    by (cases "read_exact h n") (auto simp: index_io_def split: prod.split)
  show ?case
    by (auto simp: fst_keep map_ok_obind Let_def read Cons intro!: obind_cong split: option.split flow.split)
qed simp

lemma check_scts_mut_file:
  "\<exists>p. snd (check_scts_mut stop cl s ix input d scts (fh\<lparr>fh_pos := q\<rparr>) seen good) = fh\<lparr>fh_pos := p\<rparr>"
proof (induction scts arbitrary: q seen good)
  case (Cons sct scts)
  have keep: "\<exists>p. snd (keep (fh\<lparr>fh_pos := q\<rparr>) r f) = fh\<lparr>fh_pos := p\<rparr>"
    if "\<And>a. r = Ok a \<Longrightarrow> \<exists>p. snd (f a) = fh\<lparr>fh_pos := p\<rparr>" for q r
      and f :: "'x \<Rightarrow> (rev_error, revocation_status) outcome \<times> file_handle"
    using that by (cases r) auto
  have seek: "index_io (seek_start (fh\<lparr>fh_pos := q\<rparr>) off) = Ok h \<Longrightarrow> \<exists>q. h = fh\<lparr>fh_pos := q\<rparr>" for q off h
    by (auto simp: index_io_def seek_start_def split: if_splits)
  have read: "read_exact (fh\<lparr>fh_pos := q\<rparr>) n = Ok (buf, h) \<Longrightarrow> \<exists>q. h = fh\<lparr>fh_pos := q\<rparr>" for q n buf h
    by (auto simp: read_exact_Ok_iff split: if_splits)
  show ?case
    by (auto simp: Let_def Cons intro!: keep split: option.split outcome.split flow.split dest!: seek read)
       (rule exI, rule refl)+
qed (simp, rule exI, rule refl)

lemma check_mut_result: "fst (check_mut stop cl s ix input) = map_ok fst (check cl s ix input)"
proof -
  have "map_ok fst (obind r (\<lambda>(st, file). Ok (st, f file))) = map_ok fst r"
    for r :: "(rev_error, revocation_status \<times> file_handle) outcome" and f :: "file_handle \<Rightarrow> index"
    by (cases r) auto
  then show ?thesis
    unfolding case_prod_beta'
    by (simp add: check_mut_def check_def case_prod_beta' fst_keep check_scts_mut_result map_ok_obind)
qed

lemma check_mut_index: "\<exists>p. snd (check_mut stop cl s ix input) = ix\<lparr>ix_file := (ix_file ix)\<lparr>fh_pos := p\<rparr>\<rparr>"
proof -
  have same: "\<exists>p. ix_file ix = (ix_file ix)\<lparr>fh_pos := p\<rparr>" by (rule exI [of _ "fh_pos (ix_file ix)"]) simp
  have "\<exists>p. snd (keep (ix_file ix) r (\<lambda>dir_data. check_scts_mut stop cl s ix input dir_data (in_sct_timestamps input) (ix_file ix)
      (replicate (ix_num_filenames ix) False) False)) = (ix_file ix)\<lparr>fh_pos := p\<rparr>" for r
    by (cases r) (use check_scts_mut_file [where fh = "ix_file ix" and q = "fh_pos (ix_file ix)"] same in auto)
  then obtain p where "snd (keep (ix_file ix) (slice_from (ix_logs_offset ix) (ix_tables ix)) (\<lambda>dir_data.
      check_scts_mut stop cl s ix input dir_data (in_sct_timestamps input) (ix_file ix)
        (replicate (ix_num_filenames ix) False) False)) = (ix_file ix)\<lparr>fh_pos := p\<rparr>" by blast
  then show ?thesis by (intro exI [of _ p]) (simp add: check_mut_def case_prod_beta')
qed

section \<open>Properties\<close>

text \<open>
  C24: an index can be used for any number of checks. In every sequence of checks through the same
  open file, each result, verdict or error, is the one the same check gives on the index as it was
  loaded: it does not depend on the checks made before, whether they succeeded or failed and
  wherever they left the position of the file.
\<close>

theorem checks_are_independent:
  "run_checks cl calls ix = map (\<lambda>(stop, s, input). map_ok fst (check cl s ix input)) calls"
proof (induction calls arbitrary: ix)
  case (Cons call calls)
  obtain stop s input where call: "call = (stop, s, input)" by (cases call)
  obtain r ix' where run: "check_mut stop cl s ix input = (r, ix')" by (cases "check_mut stop cl s ix input")
  obtain p where "ix' = ix\<lparr>ix_file := (ix_file ix)\<lparr>fh_pos := p\<rparr>\<rparr>"
    using check_mut_index [of stop cl s ix input] run by auto
  then show ?case
    using check_mut_result [of stop cl s ix input] run by (simp add: call Cons check_position)
qed simp

end
