(* ===== verification/Fetch.thy ===== *)
theory Fetch
  imports Index
begin

text \<open>
  The fetcher of \<open>upki/src/revocation/fetch.rs\<close>, with \<open>Manifest::from_config\<close> and
  \<open>Manifest::verify\<close> of \<open>mod.rs\<close>: hashing a file, forming a plan by comparing a manifest with the
  cache directory, executing its steps, and the whole of \<open>fetch\<close>.

  The HTTP client, JSON, dates and the \<open>{:?}\<close> form of a path are other crates or formatting and are
  the fields of \<open>externals\<close>. What the environment decides anew at each step (the answers of the
  server, the name of a temporary file, how much of a failed write reached the disk, how many bytes a
  read returns) is a record \<open>step_env\<close> per step. The iteration order of a \<open>HashSet\<close> is an argument.
  Every operation returns the state of the file system also when it fails.
\<close>

section \<open>Hashing a file\<close>

definition left_to_read :: "file_handle \<Rightarrow> nat" where
  "left_to_read h = (case fh_data h of Inr b \<Rightarrow> length b - fh_pos h | Inl _ \<Rightarrow> 0)"

function hash_loop :: "(nat \<Rightarrow> nat) \<Rightarrow> file_handle \<Rightarrow> sha_context \<Rightarrow> (io_error, sha_context) outcome" where
  "hash_loop short h hasher =
     (case file_read short h 4096 of
        Ok (buffer, h') \<Rightarrow>
          if buffer = [] then Ok hasher
          else (case context_update hasher buffer of
                  Ok hasher' \<Rightarrow> hash_loop short h' hasher'
                | Err e \<Rightarrow> Err e
                | Panic \<Rightarrow> Panic)
      | Err e \<Rightarrow> Err e
      | Panic \<Rightarrow> Panic)"
  by pat_completeness auto
termination
  by (relation "measure (\<lambda>(_, h, _). left_to_read h)")
     (auto simp: file_read_def left_to_read_def Let_def split: sum.splits)

declare hash_loop.simps [simp del]

definition hash_file :: "(nat \<Rightarrow> nat) \<Rightarrow> fs \<Rightarrow> path \<Rightarrow> (io_error, digest) outcome" where
  "hash_file short s p =
     obind (file_open s p) (\<lambda>h. obind (hash_loop short h context_new) context_finish)"

section \<open>Plans\<close>

datatype plan_step =
  CreateDir path
| Download manifest_file string path
| Delete path
| SaveIndex manifest path
| SaveManifest manifest path

record plan =
  pl_steps :: "plan_step list"

definition MANIFEST_JSON :: string where
  "MANIFEST_JSON = ''manifest.json''"

definition download_step :: "manifest_file \<Rightarrow> string \<Rightarrow> path \<Rightarrow> plan_step" where
  "download_step f remote_url local =
     Download f (remote_url @ mf_filename f) (path_join local (mf_filename f))"

definition ends_with :: "string \<Rightarrow> string \<Rightarrow> bool" where
  "ends_with s suffix = (length suffix \<le> length s \<and> drop (length s - length suffix) s = suffix)"

text \<open>
  Two paths are equal in Rust when their components are: the root, a leading \<open>.\<close>, and the names.
\<close>

definition path_id :: "path \<Rightarrow> bool \<times> bool \<times> string list" where
  "path_id p = (is_absolute p, p = ''.'' \<or> take 2 p = ''./'', path_components p)"

definition remove_name :: "string \<Rightarrow> string list \<Rightarrow> string list" where
  "remove_name name names = filter (\<lambda>n. path_id n \<noteq> path_id name) names"

fun scan_dir :: "(io_error + string) list \<Rightarrow> string list \<Rightarrow> (rev_error, string list) outcome" where
  "scan_dir [] unwanted = Ok unwanted"
| "scan_dir (Inl e # entries) unwanted = Err (FileRead e None)"
| "scan_dir (Inr name # entries) unwanted =
     scan_dir entries
       (if ends_with name ''.filter'' \<or> ends_with name ''.delta'' then List.insert name unwanted else unwanted)"

fun plan_files ::
  "(nat \<Rightarrow> nat) \<Rightarrow> fs \<Rightarrow> string \<Rightarrow> path \<Rightarrow> manifest_file list \<Rightarrow> plan_step list \<Rightarrow> string list
   \<Rightarrow> (rev_error, plan_step list \<times> string list) outcome" where
  "plan_files short s remote_url local [] steps unwanted = Ok (steps, unwanted)"
| "plan_files short s remote_url local (f # files) steps unwanted =
     (let unwanted = remove_name (mf_filename f) unwanted in
      case hash_file short s (path_join local (mf_filename f)) of
        Ok digest \<Rightarrow>
          if digest = mf_hash f then plan_files short s remote_url local files steps unwanted
          else plan_files short s remote_url local files (steps @ [download_step f remote_url local]) unwanted
      | Err _ \<Rightarrow> plan_files short s remote_url local files (steps @ [download_step f remote_url local]) unwanted
      | Panic \<Rightarrow> Panic)"

definition plan_construct ::
  "(nat \<Rightarrow> nat) \<Rightarrow> (string list \<Rightarrow> string list) \<Rightarrow> fs \<Rightarrow> manifest \<Rightarrow> manifest option \<Rightarrow> string \<Rightarrow> path
   \<Rightarrow> (rev_error, plan) outcome" where
  "plan_construct short order s m old remote_url local =
     obind (if fs_exists s local
            then obind (map_err (\<lambda>e. CreateDirectory e local) (fs_read_dir s local)) (\<lambda>entries.
                   map_ok (\<lambda>unwanted. ([], unwanted)) (scan_dir entries []))
            else Ok ([CreateDir local], [])) (\<lambda>(steps, unwanted).
     obind (plan_files short s remote_url local (m_files m) steps unwanted) (\<lambda>(steps, unwanted).
     let unwanted = (case old of
             None \<Rightarrow> unwanted
           | Some om \<Rightarrow> fold (\<lambda>f. remove_name (mf_filename f)) (m_files om) unwanted)
     in Ok \<lparr>pl_steps = steps @ [SaveIndex m local, SaveManifest m local]
              @ map (\<lambda>name. Delete (path_join local name)) (order unwanted)\<rparr>))"

text \<open>\<open>usize\<close> addition wraps in a release build.\<close>

definition download_bytes :: "plan \<Rightarrow> nat" where
  "download_bytes p =
     foldl (\<lambda>n st. case st of Download f _ _ \<Rightarrow> (n + mf_size f) mod 2 ^ 64 | _ \<Rightarrow> n) 0 (pl_steps p)"

section \<open>Executing a step\<close>

record 'r step_env =
  se_send :: "string \<Rightarrow> string + 'r"
  se_temp :: string
  se_partial :: nat
  se_short :: "nat \<Rightarrow> nat"

record 'r externals =
  ex_client :: "string + unit"
  ex_error_for_status :: "'r \<Rightarrow> string + 'r"
  ex_bytes :: "'r \<Rightarrow> string + bytes"
  ex_json :: "'r \<Rightarrow> string + manifest"
  ex_json_reader :: "io_error + bytes \<Rightarrow> string + manifest"
  ex_json_vec :: "manifest \<Rightarrow> string + bytes"
  ex_rfc3339 :: "int \<Rightarrow> string option"
  ex_debug_path :: "path \<Rightarrow> string"

text \<open>
  \<open>tempfile_in\<close> creates a file that did not exist. The crate tries random names until one is free, or
  gives up; \<open>name\<close> is the last one tried. \<open>persist\<close> renames the temporary file, with the contents it has,
  to the target. A temporary file that is dropped before it is persisted is removed, and an error of
  that removal is ignored.
\<close>

definition tempfile_in :: "key \<Rightarrow> string \<Rightarrow> fs \<Rightarrow> (io_error, key) outcome \<times> fs" where
  "tempfile_in dir name s =
     (case fs_fault s OpTempfile dir of
        Some e \<Rightarrow> (Err e, s)
      | None \<Rightarrow>
          (case node_at s dir of
             None \<Rightarrow> (Err NotFound, s)
           | Some (File _) \<Rightarrow> (Err NotADirectory, s)
           | Some Dir \<Rightarrow>
               if node_at s (dir @ [name]) \<noteq> None then (Err AlreadyExists, s)
               else (Ok (dir @ [name]), set_node (dir @ [name]) (File []) s)))"

definition drop_temp :: "key \<Rightarrow> fs \<Rightarrow> fs" where
  "drop_temp k s = (case fs_fault s OpRemove k of Some _ \<Rightarrow> s | None \<Rightarrow> del_node k s)"

definition write_all :: "nat \<Rightarrow> key \<Rightarrow> bytes \<Rightarrow> fs \<Rightarrow> (io_error, unit) outcome \<times> fs" where
  "write_all partial k data s =
     (case fs_fault s OpWrite k of
        Some e \<Rightarrow> (Err e, set_node k (File (take partial data)) s)
      | None \<Rightarrow> (Ok (), set_node k (File data) s))"

definition persist :: "key \<Rightarrow> key \<Rightarrow> fs \<Rightarrow> (io_error, unit) outcome \<times> fs" where
  "persist k target s =
     (case fs_fault s OpRename target of
        Some e \<Rightarrow> (Err e, s)
      | None \<Rightarrow>
          (case file_at s k of
             None \<Rightarrow> (Err NotFound, s)
           | Some data \<Rightarrow>
               if node_at s target = Some Dir then (Err IsADirectory, s)
               else if k = target then (Ok (), s)
               else (Ok (), del_node k (set_node target (File data) s))))"

text \<open>A temporary file in \<open>dir\<close> is written and renamed to \<open>target\<close>; the three possible failures.\<close>

datatype save_error = CreateFailed io_error | WriteFailed io_error | PersistFailed io_error

definition save_file ::
  "'r step_env \<Rightarrow> key \<Rightarrow> string \<Rightarrow> key \<Rightarrow> bytes \<Rightarrow> fs \<Rightarrow> (save_error, unit) outcome \<times> fs" where
  "save_file env dir name target data s =
     (case tempfile_in dir name s of
        (Ok k, s1) \<Rightarrow>
          (case write_all (se_partial env) k data s1 of
             (Ok _, s2) \<Rightarrow>
               (case persist k target s2 of
                  (Ok _, s3) \<Rightarrow> (Ok (), s3)
                | (Err e, s3) \<Rightarrow> (Err (PersistFailed e), drop_temp k s3)
                | (Panic, s3) \<Rightarrow> (Panic, s3))
           | (Err e, s2) \<Rightarrow> (Err (WriteFailed e), drop_temp k s2)
           | (Panic, s2) \<Rightarrow> (Panic, s2))
      | (Err e, s1) \<Rightarrow> (Err (CreateFailed e), s1)
      | (Panic, s1) \<Rightarrow> (Panic, s1))"

fun save_io_error :: "save_error \<Rightarrow> io_error" where
  "save_io_error (CreateFailed e) = e"
| "save_io_error (WriteFailed e) = e"
| "save_io_error (PersistFailed e) = e"

definition atomic_write :: "'r step_env \<Rightarrow> path \<Rightarrow> bytes \<Rightarrow> fs \<Rightarrow> (io_error, unit) outcome \<times> fs" where
  "atomic_write env p data s =
     (case parent_key p of
        None \<Rightarrow> (Panic, s)
      | Some dir \<Rightarrow>
          (case save_file env dir (se_temp env) (path_key p) data s of
             (r, s') \<Rightarrow> (map_err save_io_error r, s')))"

definition http_get ::
  "'r externals \<Rightarrow> 'r step_env \<Rightarrow> string \<Rightarrow> (rev_error, 'r) outcome" where
  "http_get ex env url =
     obind (map_err (\<lambda>e. HttpFetch (ExtCause e) url) (lift_sum (se_send env url))) (\<lambda>response.
       map_err (\<lambda>e. HttpFetch (ExtCause e) url) (lift_sum (ex_error_for_status ex response)))"

fun execute ::
  "'c crlite \<Rightarrow> 'r externals \<Rightarrow> 'r step_env \<Rightarrow> plan_step \<Rightarrow> fs \<Rightarrow> (rev_error, unit) outcome \<times> fs" where
  "execute cl ex env (CreateDir p) s =
     (case fs_create_dir_all p s of (r, s') \<Rightarrow> (map_err (\<lambda>e. CreateDirectory e p) r, s'))"
| "execute cl ex env (Download f remote_url local) s =
     (case obind (http_get ex env remote_url) (\<lambda>response.
             map_err (\<lambda>e. HttpFetch (ExtCause e) remote_url) (lift_sum (ex_bytes ex response))) of
        Ok bytes \<Rightarrow>
          (case atomic_write env local bytes s of
             (Ok _, s') \<Rightarrow>
               (case hash_file (se_short env) s' local of
                  Ok digest \<Rightarrow> (if digest = mf_hash f then Ok () else Err (HashMismatch local), s')
                | Err e \<Rightarrow> (Err (FileRead e (Some local)), s')
                | Panic \<Rightarrow> (Panic, s'))
           | (Err e, s') \<Rightarrow> (Err (FileWrite e local), s')
           | (Panic, s') \<Rightarrow> (Panic, s'))
      | Err e \<Rightarrow> (Err e, s)
      | Panic \<Rightarrow> (Panic, s))"
| "execute cl ex env (Delete target) s =
     (case fs_remove_file target s of (r, s') \<Rightarrow> (map_err (\<lambda>e. RemoveFile e target) r, s'))"
| "execute cl ex env (SaveIndex m local_dir) s =
     (case index_write cl s m local_dir of
        None \<Rightarrow> (Ok (), s)
      | Some buf \<Rightarrow>
          (let name = se_temp env @ ''.new''; p = path_join local_dir INDEX_BIN in
           case save_file env (path_key local_dir) name (path_key p) buf s of
             (r, s') \<Rightarrow>
               (map_err (\<lambda>e. case e of
                    CreateFailed io \<Rightarrow> FileWrite io local_dir
                  | WriteFailed io \<Rightarrow> FileWrite io (path_join local_dir name)
                  | PersistFailed io \<Rightarrow> FileWrite io p) r, s')))"
| "execute cl ex env (SaveManifest m local_dir) s =
     (let p = path_join local_dir MANIFEST_JSON in
      case ex_json_vec ex m of
        Inl e \<Rightarrow> (Err (ManifestEncode (ExtCause e) p), s)
      | Inr data \<Rightarrow>
          (case atomic_write env p data s of (r, s') \<Rightarrow> (map_err (\<lambda>e. FileWrite e p) r, s')))"

fun run_steps ::
  "'c crlite \<Rightarrow> 'r externals \<Rightarrow> (nat \<Rightarrow> 'r step_env) \<Rightarrow> nat \<Rightarrow> plan_step list \<Rightarrow> fs
   \<Rightarrow> (rev_error, unit) outcome \<times> fs" where
  "run_steps cl ex envs i [] s = (Ok (), s)"
| "run_steps cl ex envs i (st # steps) s =
     (case execute cl ex (envs i) st s of
        (Ok _, s') \<Rightarrow> run_steps cl ex envs (Suc i) steps s'
      | (r, s') \<Rightarrow> (r, s'))"

fun step_display :: "(path \<Rightarrow> string) \<Rightarrow> plan_step \<Rightarrow> string" where
  "step_display dbg (CreateDir p) = ''create directory '' @ dbg p"
| "step_display dbg (Download f remote_url local) =
     ''download '' @ show_nat (mf_size f) @ '' bytes from '' @ remote_url @ '' to '' @ dbg local"
| "step_display dbg (Delete p) = ''delete stale file '' @ dbg p"
| "step_display dbg (SaveIndex m local_dir) = ''build index from filters into '' @ dbg local_dir"
| "step_display dbg (SaveManifest m local_dir) = ''save new manifest into '' @ dbg local_dir"

section \<open>Fetching and verifying\<close>

definition manifest_from_config :: "'r externals \<Rightarrow> config \<Rightarrow> fs \<Rightarrow> (rev_error, manifest) outcome" where
  "manifest_from_config ex config s =
     (let file_name = path_join (revocation_cache_dir config) ''manifest.json'' in
      obind (map_err (\<lambda>e. FileRead e (Some file_name)) (file_open s file_name)) (\<lambda>h.
        map_err (\<lambda>e. FileDecode (ExtCause e) (Some file_name)) (lift_sum (ex_json_reader ex (fh_data h)))))"

definition manifest_verify ::
  "'r externals \<Rightarrow> (nat \<Rightarrow> nat) \<Rightarrow> (string list \<Rightarrow> string list) \<Rightarrow> config \<Rightarrow> fs \<Rightarrow> manifest
   \<Rightarrow> (rev_error, u8) outcome" where
  "manifest_verify ex short order config s m =
     obind (introduce (ex_rfc3339 ex) m) (\<lambda>_.
     obind (plan_construct short order s m None ''https://.../'' (revocation_cache_dir config)) (\<lambda>plan.
       case download_bytes plan of 0 \<Rightarrow> Ok EXIT_SUCCESS | bytes \<Rightarrow> Err (Outdated bytes)))"

text \<open>The plan of a fetch: everything that happens before the first step.\<close>

definition fetch_plan ::
  "'r externals \<Rightarrow> 'r step_env \<Rightarrow> (string list \<Rightarrow> string list) \<Rightarrow> config \<Rightarrow> fs
   \<Rightarrow> (rev_error, manifest \<times> plan) outcome" where
  "fetch_plan ex env order config s =
     (let cache_dir = revocation_cache_dir config;
          remote_url = rc_fetch_url (cfg_revocation config);
          manifest_url = remote_url @ MANIFEST_JSON in
      obind (map_err (\<lambda>e. HttpFetch (ExtCause e) manifest_url) (lift_sum (ex_client ex))) (\<lambda>_.
      obind (http_get ex env manifest_url) (\<lambda>response.
      obind (map_err (\<lambda>e. FileDecode (ExtCause e) None) (lift_sum (ex_json ex response))) (\<lambda>m.
      obind (introduce (ex_rfc3339 ex) m) (\<lambda>_.
      let old = ok_option (manifest_from_config ex config s) in
      obind (plan_construct (se_short env) order s m old remote_url cache_dir) (\<lambda>plan. Ok (m, plan)))))))"

text \<open>The result is what is printed to standard output and the exit code, with the new state.\<close>

definition fetch ::
  "'c crlite \<Rightarrow> 'r externals \<Rightarrow> (nat \<Rightarrow> 'r step_env) \<Rightarrow> (string list \<Rightarrow> string list) \<Rightarrow> bool \<Rightarrow> config \<Rightarrow> fs
   \<Rightarrow> (rev_error, string list \<times> u8) outcome \<times> fs" where
  "fetch cl ex envs order dry_run config s =
     (case fetch_plan ex (envs 0) order config s of
        Ok (m, plan) \<Rightarrow>
          if dry_run then
            (Ok ((show_nat (length (pl_steps plan)) @ '' steps required (''
                    @ show_nat (download_bytes plan) @ '' bytes to download)'')
                 # map (\<lambda>st. ''- '' @ step_display (ex_debug_path ex) st) (pl_steps plan), EXIT_SUCCESS), s)
          else
            (case run_steps cl ex envs 1 (pl_steps plan) s of
               (Ok _, s') \<Rightarrow> (Ok ([], EXIT_SUCCESS), s')
             | (Err e, s') \<Rightarrow> (Err e, s')
             | (Panic, s') \<Rightarrow> (Panic, s'))
      | Err e \<Rightarrow> (Err e, s)
      | Panic \<Rightarrow> (Panic, s))"

end
