(* ===== verification/Fetch_Correct.thy ===== *)
theory Fetch_Correct
  imports Fetch
begin

text \<open>
  How the fetcher changes the cache: the digest of a file does not depend on short reads, the steps
  of a plan in closed form, what each step can change (a file is replaced atomically, by the
  interface \<open>atomic_store\<close>), and what holds after a run of a plan, successful or not.
\<close>

section \<open>Hashing a file\<close>

lemma hash_loop_spec:
  "fh_data h = Inr b \<Longrightarrow> fh_pos h \<le> length b \<Longrightarrow> ctx_represents c (take (fh_pos h) b) \<Longrightarrow>
   \<exists>c'. hash_loop short h c = Ok c' \<and> ctx_represents c' b"
proof (induction short h c rule: hash_loop.induct)
  case (1 short h c)
  define k where "k = min (min 4096 (length b - fh_pos h)) (max 1 (short (fh_pos h)))"
  have read: "file_read short h 4096 = Ok (take k (drop (fh_pos h) b), h\<lparr>fh_pos := fh_pos h + k\<rparr>)"
    using "1.prems"(1) by (simp add: file_read_def k_def Let_def)
  show ?case
  proof (cases "fh_pos h = length b")
    case True
    then have "take k (drop (fh_pos h) b) = []" by simp
    with read "1.prems" True show ?thesis by (subst hash_loop.simps) auto
  next
    case False
    with "1.prems"(2) have k: "0 < k" "fh_pos h + k \<le> length b" by (auto simp: k_def)
    with False "1.prems"(2) have ne: "take k (drop (fh_pos h) b) \<noteq> []" by auto
    from sha.represents_upd [OF "1.prems"(3), of "take k (drop (fh_pos h) b)"] obtain c1 where
      c1: "context_update c (take k (drop (fh_pos h) b)) = (Ok c1 :: (io_error, sha_context) outcome)"
        "ctx_represents c1 (take (fh_pos h + k) b)"
      by (auto simp: take_add)
    from "1.IH" [OF read refl ne c1(1)] k c1(2) "1.prems"(1) show ?thesis
      by (subst hash_loop.simps) (simp add: read ne c1(1))
  qed
qed

lemma hash_loop_error: "fh_data h = Inl e \<Longrightarrow> hash_loop short h c = Err e"
  by (subst hash_loop.simps) (simp add: file_read_def)

lemma hash_file_eq:
  "hash_file short s p =
     obind (file_open s p) (\<lambda>h. case fh_data h of Inl e \<Rightarrow> Err e | Inr b \<Rightarrow> sha256_outcome b)"
proof (cases "file_open s p")
  case (Ok h)
  then have pos: "fh_pos h = 0" by (auto simp: file_open_def Let_def split: option.splits node.splits)
  show ?thesis
  proof (cases "fh_data h")
    case (Inl e)
    with Ok show ?thesis by (simp add: hash_file_def hash_loop_error)
  next
    case (Inr b)
    have "ctx_represents context_new (take (fh_pos h) b)" using sha.represents_init by (simp add: pos)
    from hash_loop_spec [OF Inr _ this, of short] pos obtain c where
      "hash_loop short h context_new = Ok c" "ctx_represents c b" by auto
    with Ok Inr show ?thesis by (simp add: hash_file_def sha.fin_spec)
  qed
qed (simp_all add: hash_file_def)

text \<open>The digest depends on the contents and faults at the path only.\<close>

lemma file_open_cong:
  "node_at s' (path_key p) = node_at s (path_key p) \<Longrightarrow> fs_fault s' = fs_fault s \<Longrightarrow> file_open s' p = file_open s p"
  unfolding file_open_def Let_def by (auto split: option.split node.split)

lemma hash_file_cong:
  "node_at s' (path_key p) = node_at s (path_key p) \<Longrightarrow> fs_fault s' = fs_fault s \<Longrightarrow>
   hash_file short' s' p = hash_file short s p"
  using file_open_cong [of s' p s] by (simp add: hash_file_eq)

lemma hash_file_Ok:
  "hash_file short s p = Ok d \<Longrightarrow> \<exists>b. file_at s (path_key p) = Some b \<and> d = fips_sha256 b"
  by (auto simp: hash_file_eq file_open_def file_at_def sha256_outcome_def outcome_simps Let_def
      split: option.splits node.splits sum.splits if_splits)

section \<open>The steps of a plan\<close>

definition up_to_date :: "fs \<Rightarrow> path \<Rightarrow> manifest_file \<Rightarrow> bool" where
  "up_to_date s local f \<longleftrightarrow> hash_file (\<lambda>_. 4096) s (path_join local (mf_filename f)) = Ok (mf_hash f)"

lemma up_to_date_iff:
  "hash_file short s (path_join local (mf_filename f)) = Ok (mf_hash f) \<longleftrightarrow> up_to_date s local f"
  by (simp add: up_to_date_def hash_file_eq)

lemma plan_files_eq:
  "plan_files short s url local files steps unwanted =
     (if \<exists>f \<in> set files. hash_file short s (path_join local (mf_filename f)) = Panic then Panic
      else Ok (steps @ map (\<lambda>f. download_step f url local) (filter (\<lambda>f. \<not> up_to_date s local f) files),
               filter (\<lambda>n. \<forall>f \<in> set files. path_id n \<noteq> path_id (mf_filename f)) unwanted))"
proof (induction files arbitrary: steps unwanted)
  case (Cons f files)
  show ?case
    by (cases "hash_file short s (path_join local (mf_filename f))")
       (auto simp: Cons Let_def remove_name_def conj_commute up_to_date_iff [of short, symmetric])
qed simp

lemma fold_remove_name:
  "fold (\<lambda>f. remove_name (mf_filename f)) files names =
     filter (\<lambda>n. \<forall>f \<in> set files. path_id n \<noteq> path_id (mf_filename f)) names"
  by (induction files arbitrary: names) (auto simp: remove_name_def conj_commute)

definition filter_name :: "string \<Rightarrow> bool" where
  "filter_name n \<longleftrightarrow> ends_with n ''.filter'' \<or> ends_with n ''.delta''"

lemma scan_dir_Ok:
  "scan_dir entries acc = Ok names \<Longrightarrow>
   set names = set acc \<union> {n. Inr n \<in> set entries \<and> filter_name n}
   \<and> (distinct acc \<longrightarrow> distinct names)"
proof (induction entries acc rule: scan_dir.induct)
  case (3 name entries acc)
  then show ?case by (auto simp: filter_name_def split: if_splits)
qed auto

section \<open>Atomic replacement of a file\<close>

text \<open>
  What the steps rely on when they replace a file: on success the file holds the new contents; in
  every case it holds the old contents or all of the new ones; nothing else changes but the names
  used for temporary files.
\<close>

locale atomic_store =
  fixes save :: "key \<Rightarrow> bytes \<Rightarrow> fs \<Rightarrow> ('e, unit) outcome \<times> fs"
    and temps :: "key set"
  assumes save_ok: "save t d s = (Ok u, s') \<Longrightarrow> t \<notin> temps \<Longrightarrow> node_at s' t = Some (File d)"
    and save_old_or_new: "save t d s = (r, s') \<Longrightarrow> t \<notin> temps \<Longrightarrow>
      node_at s' t = node_at s t \<or> node_at s' t = Some (File d)"
    and save_frame: "save t d s = (r, s') \<Longrightarrow> k \<noteq> t \<Longrightarrow> k \<notin> temps \<Longrightarrow> node_at s' k = node_at s k"
    and save_fault: "save t d s = (r, s') \<Longrightarrow> fs_fault s' = fs_fault s"
begin

lemma save_file_at: "save t d s = (r, s') \<Longrightarrow> t \<notin> temps \<Longrightarrow> file_at s' t \<in> {file_at s t, Some d}"
  using save_old_or_new [of t d s r s'] by (auto simp: file_at_def)

lemma save_unchanged:
  "save t d s = (r, s') \<Longrightarrow> node_at s' k \<noteq> node_at s k \<Longrightarrow> k = t \<or> k \<in> temps"
  using save_frame by blast

end

lemma drop_temp_simps:
  "fs_fault (drop_temp k s) = fs_fault s" "k \<noteq> [] \<Longrightarrow> k' \<noteq> k \<Longrightarrow> node_at (drop_temp k s) k' = node_at s k'"
  by (simp_all add: drop_temp_def split: option.split)

lemma target_nonempty: "node_at s [] = Some Dir"
  by (simp add: node_at_def)

interpretation store: atomic_store "save_file env dir name" "{dir @ [name]}" for env dir name
proof
  note unfold = save_file_def tempfile_in_def write_all_def persist_def file_at_def drop_temp_simps
  have run: "k \<noteq> dir @ [name] \<Longrightarrow>
      node_at s' k = (if k = t \<and> r = Ok () then Some (File d) else node_at s k)"
    if "save_file env dir name t d s = (r, s')" for t d s r s' k
    using that target_nonempty
    by (cases "t = []") (auto simp: unfold split: option.splits node.splits if_splits)
  show "save_file env dir name t d s = (Ok u, s') \<Longrightarrow> t \<notin> {dir @ [name]} \<Longrightarrow> node_at s' t = Some (File d)"
    for t d s u s' using run [of t d s "Ok u" s' t] by simp
  show "save_file env dir name t d s = (r, s') \<Longrightarrow> t \<notin> {dir @ [name]} \<Longrightarrow>
      node_at s' t = node_at s t \<or> node_at s' t = Some (File d)" for t d s r s'
    using run [of t d s r s' t] by (auto split: if_splits)
  show "save_file env dir name t d s = (r, s') \<Longrightarrow> k \<noteq> t \<Longrightarrow> k \<notin> {dir @ [name]} \<Longrightarrow> node_at s' k = node_at s k"
    for t d s r s' k using run [of t d s r s' k] by simp
  show "save_file env dir name t d s = (r, s') \<Longrightarrow> fs_fault s' = fs_fault s" for t d s r s'
    by (auto simp: unfold split: option.splits node.splits if_splits)
qed

section \<open>What a step can change\<close>

fun step_targets :: "plan_step \<Rightarrow> key set" where
  "step_targets (CreateDir p) = set (prefix_keys (path_key p))"
| "step_targets (Download f url p) = {path_key p}"
| "step_targets (Delete p) = {path_key p}"
| "step_targets (SaveIndex m d) = {path_key (path_join d INDEX_BIN)}"
| "step_targets (SaveManifest m d) = {path_key (path_join d MANIFEST_JSON)}"

definition write_temps :: "'r step_env \<Rightarrow> path \<Rightarrow> key set" where
  "write_temps env p = (case parent_key p of None \<Rightarrow> {} | Some dir \<Rightarrow> {dir @ [se_temp env]})"

fun step_temps :: "'r step_env \<Rightarrow> plan_step \<Rightarrow> key set" where
  "step_temps env (Download f url p) = write_temps env p"
| "step_temps env (SaveManifest m d) = write_temps env (path_join d MANIFEST_JSON)"
| "step_temps env (SaveIndex m d) = {path_key d @ [se_temp env @ ''.new'']}"
| "step_temps env _ = {}"

lemma prefix_keys_nonempty: "q \<in> set (prefix_keys k) \<Longrightarrow> q \<noteq> []"
  by (induction k arbitrary: q) auto

lemma make_dirs_frame:
  "make_dirs qs s = (r, s') \<Longrightarrow> [] \<notin> set qs \<Longrightarrow> fs_fault s' = fs_fault s \<and> (k \<notin> set qs \<longrightarrow> node_at s' k = node_at s k)"
proof (induction qs arbitrary: s)
  case (Cons q qs)
  have q: "q \<noteq> []" "[] \<notin> set qs" using Cons.prems(2) by auto
  consider (stop) "s' = s" | (there) "make_dirs qs s = (r, s')" | (made) "make_dirs qs (set_node q Dir s) = (r, s')"
    using Cons.prems(1) by (auto split: option.splits node.splits)
  then show ?case
  proof cases
    case there
    from Cons.IH [OF this q(2)] show ?thesis by simp
  next
    case made
    from Cons.IH [OF this q(2)] q(1) show ?thesis by simp
  qed simp
qed simp

lemma make_dirs_Ok:
  "\<forall>q \<in> set qs. q \<noteq> [] \<and> file_at s q = None \<and> fs_fault s OpCreateDir q = None \<Longrightarrow>
   \<exists>s'. make_dirs qs s = (Ok (), s') \<and> fs_fault s' = fs_fault s
     \<and> (\<forall>k. k \<notin> set qs \<longrightarrow> node_at s' k = node_at s k) \<and> (\<forall>k \<in> set qs. node_at s' k = Some Dir)"
proof (induction qs arbitrary: s)
  case (Cons q qs)
  define s1 where "s1 = (if node_at s q = None then set_node q Dir s else s)"
  have q: "q \<noteq> []" "node_at s q \<in> {None, Some Dir}"
    using Cons.prems by (auto simp: file_at_def split: option.splits node.splits)
  then have s1: "node_at s1 k = (if k = q then Some Dir else node_at s k)" "fs_fault s1 = fs_fault s" for k
    by (auto simp: s1_def)
  have "\<forall>p \<in> set qs. p \<noteq> [] \<and> file_at s1 p = None \<and> fs_fault s1 OpCreateDir p = None"
    using Cons.prems by (auto simp: file_at_def s1)
  from Cons.IH [OF this] obtain s' where s': "make_dirs qs s1 = (Ok (), s')" "fs_fault s' = fs_fault s1"
    "\<forall>k. k \<notin> set qs \<longrightarrow> node_at s' k = node_at s1 k" "\<forall>k \<in> set qs. node_at s' k = Some Dir" by blast
  moreover have "make_dirs (q # qs) s = make_dirs qs s1" using q Cons.prems by (auto simp: s1_def)
  moreover have "node_at s' q = Some Dir" using s'(3,4) s1(1) [of q] by (cases "q \<in> set qs") auto
  ultimately show ?case by (auto simp: s1)
qed simp

lemma create_dir_frame:
  assumes "fs_create_dir_all p s = (r, s')"
  shows "fs_fault s' = fs_fault s" and "k \<notin> set (prefix_keys (path_key p)) \<Longrightarrow> node_at s' k = node_at s k"
  using make_dirs_frame [OF assms [unfolded fs_create_dir_all_def]] prefix_keys_nonempty by blast+

lemma create_dir_Ok:
  assumes "\<forall>q \<in> set (prefix_keys (path_key p)). file_at s q = None \<and> fs_fault s OpCreateDir q = None"
  obtains s' where "fs_create_dir_all p s = (Ok (), s')" "fs_fault s' = fs_fault s"
    "\<And>k. node_at s' k = (if k \<in> set (prefix_keys (path_key p)) then Some Dir else node_at s k)"
proof -
  have "\<forall>q \<in> set (prefix_keys (path_key p)). q \<noteq> [] \<and> file_at s q = None \<and> fs_fault s OpCreateDir q = None"
    using assms prefix_keys_nonempty by blast
  from make_dirs_Ok [OF this] that show thesis unfolding fs_create_dir_all_def by (metis (full_types))
qed

lemma remove_frame:
  assumes "fs_remove_file p s = (r, s')"
  shows "fs_fault s' = fs_fault s" and "k \<noteq> path_key p \<Longrightarrow> node_at s' k = node_at s k"
proof -
  have "path_key p \<noteq> []" if "node_at s (path_key p) = Some (File b)" for b
    using that by (auto simp: node_at_def)
  then show "fs_fault s' = fs_fault s" "k \<noteq> path_key p \<Longrightarrow> node_at s' k = node_at s k"
    using assms by (auto simp: fs_remove_file_def Let_def split: option.splits node.splits)
qed

lemma atomic_write_store:
  assumes "atomic_write env p d s = (r, s')"
  obtains (no_parent) "parent_key p = None" "r = Panic" "s' = s"
  | (parent) dir r0 where "parent_key p = Some dir" "save_file env dir (se_temp env) (path_key p) d s = (r0, s')"
      "r = map_err save_io_error r0"
  using assms by (auto simp: atomic_write_def split: option.splits prod.splits)

lemma atomic_write_frame:
  assumes "atomic_write env p d s = (r, s')"
  shows "fs_fault s' = fs_fault s"
    and "k \<noteq> path_key p \<Longrightarrow> k \<notin> write_temps env p \<Longrightarrow> node_at s' k = node_at s k"
    and "path_key p \<notin> write_temps env p \<Longrightarrow>
      node_at s' (path_key p) = node_at s (path_key p) \<or> node_at s' (path_key p) = Some (File d)"
    and "path_key p \<notin> write_temps env p \<Longrightarrow> r = Ok () \<Longrightarrow> node_at s' (path_key p) = Some (File d)"
  using assms
  by (cases rule: atomic_write_store;
      auto simp: write_temps_def outcome_simps dest: store.save_fault store.save_frame store.save_old_or_new store.save_ok)+

lemma execute_download:
  assumes "execute cl ex env (Download f url p) s = (r, s')"
  obtains (nothing) "s' = s" "\<not> is_ok r"
  | (written) response body w where "http_get ex env url = Ok response" "ex_bytes ex response = Inr body"
      "atomic_write env p body s = (w, s')"
      "r = Ok () \<longrightarrow> w = Ok () \<and> hash_file (se_short env) s' p = Ok (mf_hash f)"
proof (cases "obind (http_get ex env url) (\<lambda>response.
    map_err (\<lambda>e. HttpFetch (ExtCause e) url) (lift_sum (ex_bytes ex response)))")
  case (Ok body)
  then obtain response where resp: "http_get ex env url = Ok response" "ex_bytes ex response = Inr body"
    by (auto simp: outcome_simps)
  obtain w s1 where w: "atomic_write env p body s = (w, s1)" by fastforce
  with assms Ok have "s' = s1" "r = Ok () \<longrightarrow> w = Ok () \<and> hash_file (se_short env) s1 p = Ok (mf_hash f)"
    by (auto split: outcome.splits if_splits)
  with resp w show thesis by (intro written) auto
qed (use assms nothing in auto)

lemma execute_frame:
  assumes "execute cl ex env st s = (r, s')"
  shows "fs_fault s' = fs_fault s \<and>
    (k \<notin> step_targets st \<longrightarrow> k \<notin> step_temps env st \<longrightarrow> node_at s' k = node_at s k)"
proof (cases st)
  case (CreateDir p)
  with assms create_dir_frame [of p s] show ?thesis by (auto split: prod.splits)
next
  case (Download f url p)
  with assms have "execute cl ex env (Download f url p) s = (r, s')" by simp
  then show ?thesis
    by (cases rule: execute_download) (use atomic_write_frame Download in fastforce)+
next
  case (Delete p)
  with assms remove_frame [of p s] show ?thesis by (auto split: prod.splits)
next
  case (SaveIndex m d)
  with assms store.save_fault store.save_frame show ?thesis
    by (fastforce simp: Let_def split: option.splits prod.splits)
next
  case (SaveManifest m d)
  with assms atomic_write_frame show ?thesis
    by (fastforce simp: Let_def split: sum.splits prod.splits)
qed

section \<open>Running a plan\<close>

lemma run_steps_append:
  "run_steps cl ex envs i (xs @ ys) s =
     (case run_steps cl ex envs i xs s of
        (Ok _, s1) \<Rightarrow> run_steps cl ex envs (i + length xs) ys s1
      | (r, s1) \<Rightarrow> (r, s1))"
  by (induction xs arbitrary: i s) (auto split: prod.splits outcome.splits)

lemma run_steps_Ok_append:
  "run_steps cl ex envs i (xs @ ys) s = (Ok u, s') \<longleftrightarrow>
     (\<exists>s1. run_steps cl ex envs i xs s = (Ok (), s1) \<and> run_steps cl ex envs (i + length xs) ys s1 = (Ok u, s'))"
  by (auto simp: run_steps_append split: prod.splits outcome.splits)

lemma run_steps_Ok_Cons:
  "run_steps cl ex envs i (st # steps) s = (Ok u, s') \<longleftrightarrow>
     (\<exists>s1. execute cl ex (envs i) st s = (Ok (), s1) \<and> run_steps cl ex envs (Suc i) steps s1 = (Ok u, s'))"
  by (auto split: prod.splits outcome.splits)

text \<open>An invariant of the steps of a plan is an invariant of the plan, whatever its outcome.\<close>

lemma run_steps_invariant:
  assumes "run_steps cl ex envs i steps s = (r, s')" and "I s"
    and "\<And>j st t r' t'. st \<in> set steps \<Longrightarrow> I t \<Longrightarrow> execute cl ex (envs j) st t = (r', t') \<Longrightarrow> I t'"
  shows "I s'"
  using assms
proof (induction steps arbitrary: i s)
  case Nil
  then show ?case by simp
next
  case (Cons st steps)
  obtain r1 s1 where step: "execute cl ex (envs i) st s = (r1, s1)" by fastforce
  have "I s1" using Cons.prems(2) Cons.prems(3) [OF _ Cons.prems(2) step] by simp
  show ?case
  proof (cases r1)
    case (Ok u)
    with Cons.prems(1) step have "run_steps cl ex envs (Suc i) steps s1 = (r, s')" by simp
    then show ?thesis using \<open>I s1\<close> by (rule Cons.IH) (rule Cons.prems(3), simp_all)
  qed (use Cons.prems(1) step \<open>I s1\<close> in auto)
qed

lemma run_steps_frame:
  assumes "run_steps cl ex envs i steps s = (r, s')"
    and "\<And>st j. st \<in> set steps \<Longrightarrow> k \<notin> step_targets st \<and> k \<notin> step_temps (envs j) st"
  shows "node_at s' k = node_at s k"
  by (rule run_steps_invariant [OF assms(1), of "\<lambda>t. node_at t k = node_at s k"])
     (auto dest!: execute_frame [where k = k] assms(2))

lemma run_steps_fault:
  assumes "run_steps cl ex envs i steps s = (r, s')"
  shows "fs_fault s' = fs_fault s"
  by (rule run_steps_invariant [OF assms, of "\<lambda>t. fs_fault t = fs_fault s"]) (auto dest!: execute_frame)

section \<open>Names in the cache directory\<close>

text \<open>
  The names of temporary files start with \<open>.tmp\<close>; the names of a well-behaved manifest denote
  entries of the cache directory other than the index, the manifest and temporary files, and a name
  that is listed twice has the same hash.
\<close>

definition temp_name :: "string \<Rightarrow> bool" where
  "temp_name n \<longleftrightarrow> take 4 n = ''.tmp'' \<and> CHR ''/'' \<notin> set n"

definition data_name :: "string \<Rightarrow> bool" where
  "data_name n \<longleftrightarrow> plain_name n \<and> \<not> temp_name n \<and> n \<noteq> INDEX_BIN \<and> n \<noteq> MANIFEST_JSON"

definition manifest_ok :: "manifest \<Rightarrow> bool" where
  "manifest_ok m \<longleftrightarrow> (\<forall>f \<in> set (m_files m). data_name (mf_filename f))
     \<and> (\<forall>f \<in> set (m_files m). \<forall>g \<in> set (m_files m). mf_filename f = mf_filename g \<longrightarrow> mf_hash f = mf_hash g)"

definition temps_ok :: "(nat \<Rightarrow> 'r step_env) \<Rightarrow> bool" where
  "temps_ok envs \<longleftrightarrow> (\<forall>i. temp_name (se_temp (envs i)))"

definition fs_wf :: "fs \<Rightarrow> bool" where
  "fs_wf s \<longleftrightarrow> (\<forall>k \<in> set (map fst (fs_nodes s)). list_all plain_name k)"

lemma fixed_names: "plain_name INDEX_BIN" "plain_name MANIFEST_JSON" "\<not> temp_name INDEX_BIN" "\<not> temp_name MANIFEST_JSON"
  "INDEX_BIN \<noteq> MANIFEST_JSON"
  by (simp_all add: plain_name_def temp_name_def INDEX_BIN_def MANIFEST_JSON_def)

lemma temp_name_new: "temp_name n \<Longrightarrow> temp_name (n @ ''.new'')"
proof -
  assume n: "temp_name n"
  then have "n = ''.tmp'' @ drop 4 n" using append_take_drop_id [of 4 n] by (simp add: temp_name_def)
  then obtain r where "n = ''.tmp'' @ r" by blast
  then have "take 4 (n @ ''.new'') = ''.tmp''" by simp
  with n show ?thesis by (simp add: temp_name_def)
qed

lemma path_id_plain: "plain_name n \<Longrightarrow> path_id n = (False, False, [n])"
proof -
  assume n: "plain_name n"
  then have "CHR ''/'' \<notin> set (take 2 n)" by (auto simp: plain_name_def dest: in_set_takeD)
  then have "take 2 n \<noteq> ''./''" by auto
  with n show ?thesis
    by (auto simp: path_id_def plain_name_not_absolute path_components_def split_path_plain plain_name_def)
qed

section \<open>The plan\<close>

definition named_by :: "manifest_file list \<Rightarrow> string \<Rightarrow> bool" where
  "named_by files n \<longleftrightarrow> (\<exists>f \<in> set files. path_id n = path_id (mf_filename f))"

definition stale_entries :: "fs \<Rightarrow> path \<Rightarrow> manifest \<Rightarrow> manifest option \<Rightarrow> string set" where
  "stale_entries s local m old =
     {n. fs_exists s local \<and> (\<exists>es. fs_read_dir s local = Ok es \<and> Inr n \<in> set es) \<and> filter_name n
       \<and> \<not> named_by (m_files m) n \<and> (\<forall>om. old = Some om \<longrightarrow> \<not> named_by (m_files om) n)}"

lemma plan_construct_steps:
  assumes "plan_construct short order s m old url local = Ok plan"
  shows "\<exists>unwanted. distinct unwanted \<and> set unwanted = stale_entries s local m old
    \<and> pl_steps plan = (if fs_exists s local then [] else [CreateDir local])
        @ map (\<lambda>f. download_step f url local) (filter (\<lambda>f. \<not> up_to_date s local f) (m_files m))
        @ [SaveIndex m local, SaveManifest m local]
        @ map (\<lambda>n. Delete (path_join local n)) (order unwanted)"
proof -
  from assms obtain steps names where
    start: "(if fs_exists s local
            then obind (map_err (\<lambda>e. CreateDirectory e local) (fs_read_dir s local)) (\<lambda>entries.
                   map_ok (\<lambda>unwanted. ([], unwanted)) (scan_dir entries []))
            else Ok ([CreateDir local], [])) = Ok (steps, names)"
    and rest: "obind (plan_files short s url local (m_files m) steps names) (\<lambda>(steps, unwanted).
       let unwanted = (case old of
             None \<Rightarrow> unwanted
           | Some om \<Rightarrow> fold (\<lambda>f. remove_name (mf_filename f)) (m_files om) unwanted)
       in Ok \<lparr>pl_steps = steps @ [SaveIndex m local, SaveManifest m local]
              @ map (\<lambda>name. Delete (path_join local name)) (order unwanted)\<rparr>) = Ok plan"
    by (auto simp: plan_construct_def outcome_simps)
  define unwanted where "unwanted =
    filter (\<lambda>n. \<not> named_by (m_files m) n \<and> (\<forall>om. old = Some om \<longrightarrow> \<not> named_by (m_files om) n)) names"
  have eq: "(case old of None \<Rightarrow> ns | Some om \<Rightarrow> fold (\<lambda>f. remove_name (mf_filename f)) (m_files om) ns)
      = filter (\<lambda>n. \<forall>om. old = Some om \<longrightarrow> \<not> named_by (m_files om) n) ns" for ns
    by (cases old) (simp_all add: fold_remove_name named_by_def)
  have "distinct names \<and> set names = {n. fs_exists s local
      \<and> (\<exists>es. fs_read_dir s local = Ok es \<and> Inr n \<in> set es) \<and> filter_name n}
    \<and> steps = (if fs_exists s local then [] else [CreateDir local])"
  proof (cases "fs_exists s local")
    case True
    with start obtain es where es: "fs_read_dir s local = Ok es" "scan_dir es [] = Ok names" "steps = []"
      by (auto simp: outcome_simps)
    with scan_dir_Ok [OF es(2)] True show ?thesis by simp
  qed (use start in auto)
  then have names: "distinct names" "set names = {n. fs_exists s local
      \<and> (\<exists>es. fs_read_dir s local = Ok es \<and> Inr n \<in> set es) \<and> filter_name n}"
    and steps: "steps = (if fs_exists s local then [] else [CreateDir local])"
    by blast+
  have "distinct unwanted \<and> set unwanted = stale_entries s local m old"
    using names by (auto simp: unwanted_def stale_entries_def)
  moreover have "pl_steps plan = steps
      @ map (\<lambda>f. download_step f url local) (filter (\<lambda>f. \<not> up_to_date s local f) (m_files m))
      @ [SaveIndex m local, SaveManifest m local] @ map (\<lambda>n. Delete (path_join local n)) (order unwanted)"
    using rest
    by (auto simp: plan_files_eq eq Let_def unwanted_def named_by_def conj_commute split: if_splits)
  ultimately show ?thesis using steps by blast
qed

lemma plan_construct_Ok_order:
  assumes "plan_construct short order s m old url local = Ok plan" and "\<And>xs. set (order xs) = set xs"
    and "st \<in> set (pl_steps plan)"
  shows "st = CreateDir local \<or> (\<exists>f \<in> set (m_files m). st = download_step f url local)
    \<or> st = SaveIndex m local \<or> st = SaveManifest m local
    \<or> (\<exists>n \<in> stale_entries s local m old. st = Delete (path_join local n))"
  using plan_construct_steps [OF assms(1)] assms(2,3) by (auto split: if_splits)

section \<open>Entries of the cache directory\<close>

lemma stale_entry_plain:
  assumes "fs_wf s" and "n \<in> stale_entries s local m old"
  shows "plain_name n"
  using assms
  by (auto simp: stale_entries_def fs_read_dir_def fs_wf_def Let_def list_all_iff
      split: option.splits node.splits sum.splits if_splits)

lemma stale_entry_fresh:
  assumes "fs_wf s" and "n \<in> stale_entries s local m old" and "f \<in> set (m_files m)" and "plain_name (mf_filename f)"
  shows "n \<noteq> mf_filename f"
  using assms(2,3) by (auto simp: stale_entries_def named_by_def)

lemma filter_name_not_fixed: "filter_name n \<Longrightarrow> n \<noteq> INDEX_BIN \<and> n \<noteq> MANIFEST_JSON"
  by (auto simp: filter_name_def ends_with_def INDEX_BIN_def MANIFEST_JSON_def)

text \<open>Where the steps of a plan write, as entries of the cache directory.\<close>

lemma entry_keys:
  "data_name n \<Longrightarrow> step_targets (Download f url (path_join local n)) = {path_key local @ [n]}"
  "data_name n \<Longrightarrow> step_temps env (Download f url (path_join local n)) = {path_key local @ [se_temp env]}"
  "step_targets (SaveIndex m local) = {path_key local @ [INDEX_BIN]}"
  "step_targets (SaveManifest m local) = {path_key local @ [MANIFEST_JSON]}"
  "step_temps env (SaveManifest m local) = {path_key local @ [se_temp env]}"
  "plain_name n \<Longrightarrow> step_targets (Delete (path_join local n)) = {path_key local @ [n]}"
  by (simp_all add: data_name_def write_temps_def path_key_join parent_key_join fixed_names)

lemma prefix_keys_length: "q \<in> set (prefix_keys k) \<Longrightarrow> length q \<le> length k"
  by (induction k arbitrary: q) auto

lemma entry_not_prefix: "k @ [n] \<notin> set (prefix_keys k)"
  using prefix_keys_length [of "k @ [n]" k] by auto

lemma up_to_date_cong:
  assumes "plain_name (mf_filename f)" and "fs_fault t' = fs_fault t"
    and "node_at t' (path_key local @ [mf_filename f]) = node_at t (path_key local @ [mf_filename f])"
  shows "up_to_date t' local f \<longleftrightarrow> up_to_date t local f"
  using hash_file_cong [of t' "path_join local (mf_filename f)" t "\<lambda>_. 4096" "\<lambda>_. 4096"] assms
  by (simp add: up_to_date_def path_key_join)

section \<open>A successful run\<close>

lemma manifest_okD:
  assumes "manifest_ok m"
  shows "f \<in> set (m_files m) \<Longrightarrow> data_name (mf_filename f)"
    and "f \<in> set (m_files m) \<Longrightarrow> g \<in> set (m_files m) \<Longrightarrow> mf_filename g = mf_filename f \<Longrightarrow> mf_hash g = mf_hash f"
  using assms unfolding manifest_ok_def by blast+

lemma data_not_temp: "data_name n \<Longrightarrow> temps_ok envs \<Longrightarrow> n \<noteq> se_temp (envs i) \<and> n \<noteq> se_temp (envs i) @ ''.new''"
  using temp_name_new [of "se_temp (envs i)"] by (auto simp: data_name_def temps_ok_def)

lemma fixed_not_temp:
  "temps_ok envs \<Longrightarrow> INDEX_BIN \<noteq> se_temp (envs i) \<and> INDEX_BIN \<noteq> se_temp (envs i) @ ''.new''
     \<and> MANIFEST_JSON \<noteq> se_temp (envs i)"
proof -
  assume "temps_ok envs"
  then have "temp_name (se_temp (envs i))" by (simp add: temps_ok_def)
  with temp_name_new fixed_names(3,4) show ?thesis by metis
qed

text \<open>A step leaves an entry of the cache directory alone unless it targets it.\<close>

lemma step_keeps_entry:
  assumes "execute cl ex (envs i) st t = (r, t')" and "temps_ok envs" and n: "data_name n"
    and st: "st = CreateDir local \<or> (\<exists>f. data_name (mf_filename f) \<and> mf_filename f \<noteq> n \<and> st = download_step f url local)
      \<or> st = SaveIndex m local \<or> st = SaveManifest m local
      \<or> (\<exists>x. plain_name x \<and> x \<noteq> n \<and> st = Delete (path_join local x))"
  shows "node_at t' (path_key local @ [n]) = node_at t (path_key local @ [n])" "fs_fault t' = fs_fault t"
proof -
  have "path_key local @ [n] \<notin> step_targets st \<and> path_key local @ [n] \<notin> step_temps (envs i) st"
    using st data_not_temp [OF n assms(2), of i] n
    by (auto simp: download_step_def entry_keys entry_not_prefix data_name_def
        simp del: step_targets.simps(2-) step_temps.simps(1,2))
  then show "node_at t' (path_key local @ [n]) = node_at t (path_key local @ [n])" "fs_fault t' = fs_fault t"
    using execute_frame [OF assms(1)] by auto
qed

lemma download_makes_current:
  assumes "execute cl ex (envs i) (download_step f url local) t = (Ok u, t')" and "temps_ok envs"
    and f: "data_name (mf_filename f)" and g: "data_name (mf_filename g)"
    and same: "mf_filename g = mf_filename f \<Longrightarrow> mf_hash g = mf_hash f"
    and before: "up_to_date t local g \<or> mf_filename g = mf_filename f"
  shows "up_to_date t' local g"
proof (cases "mf_filename g = mf_filename f")
  case True
  have ex: "execute cl ex (envs i) (Download f (url @ mf_filename f) (path_join local (mf_filename f))) t = (Ok u, t')"
    using assms(1) by (simp add: download_step_def)
  then have "hash_file (se_short (envs i)) t' (path_join local (mf_filename f)) = Ok (mf_hash f)"
    by (cases rule: execute_download) simp_all
  with True same show ?thesis by (simp add: up_to_date_iff [of "se_short (envs i)", symmetric])
next
  case False
  have "node_at t' (path_key local @ [mf_filename g]) = node_at t (path_key local @ [mf_filename g])"
    "fs_fault t' = fs_fault t"
    by (rule step_keeps_entry [OF assms(1,2) g, of local url m]; use False f in auto)+
  with False before g show ?thesis
    using up_to_date_cong [of g t' t local] by (simp add: data_name_def)
qed

lemma downloads_make_current:
  assumes "run_steps cl ex envs i (map (\<lambda>f. download_step f url local) fs) t = (Ok u, t')"
    and "temps_ok envs" and m: "manifest_ok m" and "set fs \<subseteq> set (m_files m)" and g: "g \<in> set (m_files m)"
    and "up_to_date t local g \<or> g \<in> set fs"
  shows "up_to_date t' local g"
  using assms(1,4,6)
proof (induction fs arbitrary: i t)
  case Nil
  then show ?case by simp
next
  case (Cons f fs)
  then obtain t1 where step: "execute cl ex (envs i) (download_step f url local) t = (Ok (), t1)"
    and rest: "run_steps cl ex envs (Suc i) (map (\<lambda>f. download_step f url local) fs) t1 = (Ok u, t')"
    by (auto simp: run_steps_Ok_Cons simp del: run_steps.simps)
  have names: "data_name (mf_filename f)" "data_name (mf_filename g)"
    "mf_filename g = mf_filename f \<Longrightarrow> mf_hash g = mf_hash f"
    by (rule manifest_okD [OF m]; use g Cons.prems(2) in simp)+
  note current = download_makes_current [OF step assms(2) names]
  from Cons.prems(3) consider "up_to_date t local g" | "g = f" | "g \<in> set fs" by auto
  then have "up_to_date t1 local g \<or> g \<in> set fs"
    by cases (use current in auto)
  with Cons.IH [OF rest] Cons.prems(2) show ?case by simp
qed

text \<open>After the downloads no step touches a file of the manifest.\<close>

lemma later_steps_keep_entry:
  assumes "run_steps cl ex envs i steps t = (r, t')" and "temps_ok envs" and n: "data_name n"
    and steps: "\<And>st. st \<in> set steps \<Longrightarrow> st = CreateDir local \<or> st = SaveIndex m local \<or> st = SaveManifest m local
      \<or> (\<exists>x. plain_name x \<and> x \<noteq> n \<and> st = Delete (path_join local x))"
  shows "node_at t' (path_key local @ [n]) = node_at t (path_key local @ [n])"
proof (rule run_steps_invariant [OF assms(1), of "\<lambda>v. node_at v (path_key local @ [n]) = node_at t (path_key local @ [n])"])
  fix j st v r' v'
  assume st: "st \<in> set steps" and v: "node_at v (path_key local @ [n]) = node_at t (path_key local @ [n])"
    and step: "execute cl ex (envs j) st v = (r', v')"
  have "node_at v' (path_key local @ [n]) = node_at v (path_key local @ [n])"
    by (rule step_keeps_entry(1) [OF step assms(2) n, of local "''''" m]) (use steps [OF st] in auto)
  with v show "node_at v' (path_key local @ [n]) = node_at t (path_key local @ [n])" by simp
qed simp

lemma later_steps_keep_files:
  assumes "run_steps cl ex envs i steps t = (r, t')" and "temps_ok envs" and g: "data_name (mf_filename g)"
    and steps: "\<And>st. st \<in> set steps \<Longrightarrow> st = CreateDir local \<or> st = SaveIndex m local \<or> st = SaveManifest m local
      \<or> (\<exists>x. plain_name x \<and> x \<noteq> mf_filename g \<and> st = Delete (path_join local x))"
  shows "up_to_date t' local g \<longleftrightarrow> up_to_date t local g"
  using later_steps_keep_entry [OF assms] run_steps_fault [OF assms(1)] g
  by (intro up_to_date_cong) (simp_all add: data_name_def)

lemma fs_read_cong:
  "node_at s' (path_key p) = node_at s (path_key p) \<Longrightarrow> fs_fault s' = fs_fault s \<Longrightarrow> fs_read s' p = fs_read s p"
  unfolding fs_read_def by (auto split: option.split node.split)

lemma collect_filters_cong:
  "(\<forall>f \<in> set files. fs_read s' (path_join dir (mf_filename f)) = fs_read s (path_join dir (mf_filename f))) \<Longrightarrow>
   collect_filters cl s' dir i files acc = collect_filters cl s dir i files acc"
  by (induction files arbitrary: i acc) (auto split: outcome.split sum.split)

lemma index_write_cong:
  "(\<forall>f \<in> set (m_files m). fs_read s' (path_join dir (mf_filename f)) = fs_read s (path_join dir (mf_filename f))) \<Longrightarrow>
   index_write cl s' m dir = index_write cl s m dir"
  by (simp add: index_write_def collect_filters_cong [of "m_files m" s' dir s])

lemma save_index_ok:
  assumes "execute cl ex (envs i) (SaveIndex m local) s = (Ok u, s')" and "temps_ok envs"
    and "index_write cl s m local = Some b"
  shows "node_at s' (path_key local @ [INDEX_BIN]) = Some (File b)"
proof -
  obtain r where "save_file (envs i) (path_key local) (se_temp (envs i) @ ''.new'') (path_key local @ [INDEX_BIN]) b s = (r, s')"
    "r = Ok ()"
    using assms(1,3) by (auto simp: Let_def path_key_join fixed_names outcome_simps split: prod.splits)
  with fixed_not_temp [OF assms(2), of i] show ?thesis
    using store.save_ok by blast
qed

text \<open>The steps after the downloads, and what they leave in place.\<close>

lemma stale_deletes:
  assumes "fs_wf s" "set ns = stale_entries s local m old" "manifest_ok m" "st \<in> set (map (\<lambda>n. Delete (path_join local n)) ns)"
  shows "\<exists>x. plain_name x \<and> x \<noteq> INDEX_BIN \<and> (\<forall>f \<in> set (m_files m). x \<noteq> mf_filename f)
    \<and> st = Delete (path_join local x)"
proof -
  from assms(2,4) obtain n where n: "n \<in> stale_entries s local m old" "st = Delete (path_join local n)" by auto
  moreover have "plain_name n" by (rule stale_entry_plain [OF assms(1) n(1)])
  moreover have "n \<noteq> INDEX_BIN" using n(1) filter_name_not_fixed by (auto simp: stale_entries_def)
  moreover have "\<forall>f \<in> set (m_files m). n \<noteq> mf_filename f"
    using stale_entry_fresh [OF assms(1) n(1)] manifest_okD(1) [OF assms(3)] by (auto simp: data_name_def)
  ultimately show ?thesis by blast
qed

lemma run_plan_parts:
  assumes plan: "plan_construct short order s m old url local = Ok plan"
    and run: "run_steps cl ex envs i (pl_steps plan) s = (Ok u, s')"
    and order: "\<And>xs. set (order xs) = set xs"
  obtains create downs ns s1 s2 s3 where
    "create = (if fs_exists s local then [] else [CreateDir local])"
    "downs = filter (\<lambda>f. \<not> up_to_date s local f) (m_files m)"
    "set ns = stale_entries s local m old"
    "run_steps cl ex envs i create s = (Ok (), s1)"
    "run_steps cl ex envs (i + length create) (map (\<lambda>f. download_step f url local) downs) s1 = (Ok (), s2)"
    "execute cl ex (envs (i + length create + length downs)) (SaveIndex m local) s2 = (Ok (), s3)"
    "run_steps cl ex envs (Suc (i + length create + length downs))
       (SaveManifest m local # map (\<lambda>n. Delete (path_join local n)) ns) s3 = (Ok u, s')"
proof -
  from plan_construct_steps [OF plan] obtain unwanted where unwanted: "set unwanted = stale_entries s local m old"
    and steps: "pl_steps plan = (if fs_exists s local then [] else [CreateDir local])
        @ map (\<lambda>f. download_step f url local) (filter (\<lambda>f. \<not> up_to_date s local f) (m_files m))
        @ SaveIndex m local # SaveManifest m local # map (\<lambda>n. Delete (path_join local n)) (order unwanted)"
    by auto
  from run [unfolded steps] show thesis
    unfolding run_steps_Ok_append run_steps_Ok_Cons [of _ _ _ _ "SaveIndex m local"] length_map
    using that [OF refl refl, of "order unwanted"] unwanted order by blast
qed

lemma run_plan_current:
  assumes "plan_construct short order s m old url local = Ok plan"
    and "run_steps cl ex envs i (pl_steps plan) s = (Ok u, s')"
    and "\<And>xs. set (order xs) = set xs" and m: "manifest_ok m" and temps: "temps_ok envs" and wf: "fs_wf s"
    and g: "g \<in> set (m_files m)"
  shows "up_to_date s' local g"
proof -
  obtain create downs ns s1 s2 s3 where
    create: "create = (if fs_exists s local then [] else [CreateDir local])"
    and downs: "downs = filter (\<lambda>f. \<not> up_to_date s local f) (m_files m)"
    and ns: "set ns = stale_entries s local m old"
    and run1: "run_steps cl ex envs i create s = (Ok (), s1)"
    and run2: "run_steps cl ex envs (i + length create) (map (\<lambda>f. download_step f url local) downs) s1 = (Ok (), s2)"
    and run3: "execute cl ex (envs (i + length create + length downs)) (SaveIndex m local) s2 = (Ok (), s3)"
    and run4: "run_steps cl ex envs (Suc (i + length create + length downs))
       (SaveManifest m local # map (\<lambda>n. Delete (path_join local n)) ns) s3 = (Ok u, s')"
    by (rule run_plan_parts [OF assms(1,2,3)]) blast
  note dels = stale_deletes [OF wf ns m]
  have name: "data_name (mf_filename f)" if "f \<in> set (m_files m)" for f by (rule manifest_okD(1) [OF m that])
  have "up_to_date s1 local g \<longleftrightarrow> up_to_date s local g"
    by (rule later_steps_keep_files [OF run1 temps name [OF g], of local m]) (auto simp: create split: if_splits)
  then have "up_to_date s2 local g"
    by (intro downloads_make_current [OF run2 temps m _ g]) (use g in \<open>auto simp: downs\<close>)
  moreover have run34: "run_steps cl ex envs (i + length create + length downs)
      (SaveIndex m local # SaveManifest m local # map (\<lambda>n. Delete (path_join local n)) ns) s2 = (Ok u, s')"
    unfolding run_steps_Ok_Cons [of _ _ _ _ "SaveIndex m local"] using run3 run4 by blast
  ultimately show "up_to_date s' local g"
    by (subst later_steps_keep_files [OF run34 temps name [OF g], of local m]) (use dels g in auto)
qed


text \<open>The index that is saved is the index of the final state.\<close>

lemma run_plan_index:
  assumes "plan_construct short order s m old url local = Ok plan"
    and "run_steps cl ex envs i (pl_steps plan) s = (Ok u, s')"
    and "\<And>xs. set (order xs) = set xs" and m: "manifest_ok m" and temps: "temps_ok envs" and wf: "fs_wf s"
    and b: "index_write cl s' m local = Some b"
  shows "node_at s' (path_key local @ [INDEX_BIN]) = Some (File b)"
proof -
  obtain j ns s2 s3 where ns: "set ns = stale_entries s local m old"
    and run3: "execute cl ex (envs j) (SaveIndex m local) s2 = (Ok (), s3)"
    and run4: "run_steps cl ex envs (Suc j)
       (SaveManifest m local # map (\<lambda>n. Delete (path_join local n)) ns) s3 = (Ok u, s')"
    by (rule run_plan_parts [OF assms(1,2,3)]) blast
  have run34: "run_steps cl ex envs j
      (SaveIndex m local # SaveManifest m local # map (\<lambda>n. Delete (path_join local n)) ns) s2 = (Ok u, s')"
    unfolding run_steps_Ok_Cons [of _ _ _ _ "SaveIndex m local"] using run3 run4 by blast
  note dels = stale_deletes [OF wf ns m]
  have "fs_read s' (path_join local (mf_filename f)) = fs_read s2 (path_join local (mf_filename f))"
    if f: "f \<in> set (m_files m)" for f
  proof -
    have n: "data_name (mf_filename f)" by (rule manifest_okD(1) [OF m f])
    have "node_at s' (path_key local @ [mf_filename f]) = node_at s2 (path_key local @ [mf_filename f])"
      by (rule later_steps_keep_entry [OF run34 temps n, of local m]) (use dels f in auto)
    with n show ?thesis
      by (intro fs_read_cong run_steps_fault [OF run34]) (simp add: path_key_join data_name_def)
  qed
  then have "index_write cl s2 m local = Some b" using b index_write_cong [of m s' local s2 cl] by simp
  then have "node_at s3 (path_key local @ [INDEX_BIN]) = Some (File b)"
    by (rule save_index_ok [OF run3 temps])
  moreover have "node_at s' (path_key local @ [INDEX_BIN]) = node_at s3 (path_key local @ [INDEX_BIN])"
  proof (rule run_steps_frame [OF run4])
    fix st k
    assume "st \<in> set (SaveManifest m local # map (\<lambda>n. Delete (path_join local n)) ns)"
    then have "st = SaveManifest m local \<or> (\<exists>x. plain_name x \<and> x \<noteq> INDEX_BIN \<and> st = Delete (path_join local x))"
      using dels [of st] by auto
    with fixed_not_temp [OF temps] fixed_names show
      "path_key local @ [INDEX_BIN] \<notin> step_targets st \<and> path_key local @ [INDEX_BIN] \<notin> step_temps (envs k) st"
      by (auto simp: entry_keys simp del: step_targets.simps(2-) step_temps.simps(1,2))
  qed
  ultimately show ?thesis by simp
qed

section \<open>The whole of fetch\<close>

lemma fetch_planD:
  assumes "fetch_plan ex env order config s = Ok (m, plan)"
  shows "introduce (ex_rfc3339 ex) m = Ok ()"
    and "plan_construct (se_short env) order s m (ok_option (manifest_from_config ex config s))
      (rc_fetch_url (cfg_revocation config)) (revocation_cache_dir config) = Ok plan"
  using assms by (auto simp: fetch_plan_def Let_def outcome_simps)

lemma fetch_runs:
  assumes "fetch cl ex envs order False config s = (r, s')"
    and "fetch_plan ex (envs 0) order config s = Ok (m, plan)"
  shows "\<exists>r0. run_steps cl ex envs 1 (pl_steps plan) s = (r0, s') \<and> (is_ok r \<longrightarrow> r0 = Ok ())"
  using assms by (auto simp: fetch_def split: prod.splits outcome.splits)

lemma plan_step_cases:
  assumes "plan_construct short order s m old url local = Ok plan" and "\<And>xs. set (order xs) = set xs"
    and "manifest_ok m" and "fs_wf s" and "st \<in> set (pl_steps plan)"
  obtains (create) "st = CreateDir local"
  | (download) f where "f \<in> set (m_files m)" "data_name (mf_filename f)" "st = download_step f url local"
  | (index) "st = SaveIndex m local"
  | (manifest) "st = SaveManifest m local"
  | (delete) n where "n \<in> stale_entries s local m old" "plain_name n" "filter_name n" "st = Delete (path_join local n)"
proof -
  consider "st = CreateDir local" | f where "f \<in> set (m_files m)" "st = download_step f url local"
    | "st = SaveIndex m local" | "st = SaveManifest m local"
    | n where "n \<in> stale_entries s local m old" "st = Delete (path_join local n)"
    using plan_construct_Ok_order [OF assms(1,2,5)] by blast
  then show thesis
  proof cases
    case 2
    with manifest_okD(1) [OF assms(3)] show thesis by (intro download)
  next
    case 5
    moreover have "filter_name n" using 5 by (simp add: stale_entries_def)
    ultimately show thesis using stale_entry_plain [OF assms(4)] by (intro delete)
  qed (use create index manifest in blast)+
qed

lemmas entry_simps = download_step_def entry_keys entry_not_prefix

lemma plan_step_confined:
  assumes "plan_construct short order s m old url local = Ok plan" and "\<And>xs. set (order xs) = set xs"
    and "manifest_ok m" and "fs_wf s" and "st \<in> set (pl_steps plan)"
    and "k \<in> step_targets st \<union> step_temps env st"
  shows "k \<in> set (prefix_keys (path_key local)) \<or> (\<exists>n. k = path_key local @ [n])"
  using assms(6)
  by (cases rule: plan_step_cases [OF assms(1-5)])
     (auto simp: entry_simps simp del: step_targets.simps(2-) step_temps.simps(1,2))

lemma plan_confined:
  assumes plan: "plan_construct short order s m old url local = Ok plan" "\<And>xs. set (order xs) = set xs"
    "manifest_ok m" "fs_wf s"
    and run: "run_steps cl ex envs i (pl_steps plan) s = (r, s')" and k: "node_at s' k \<noteq> node_at s k"
  shows "k \<in> set (prefix_keys (path_key local)) \<or> (\<exists>n. k = path_key local @ [n])"
proof (rule ccontr)
  assume out: "\<not> ?thesis"
  have "node_at s' k = node_at s k"
    by (rule run_steps_frame [OF run]) (use plan_step_confined [OF plan] out in blast)
  with k show False by simp
qed

text \<open>The states a run of steps comes through, up to its end or to the step that fails, and what the
  index file may hold: its old contents, or all of an index written from the manifest in such a state.\<close>

definition visits ::
  "'c crlite \<Rightarrow> 'r externals \<Rightarrow> (nat \<Rightarrow> 'r step_env) \<Rightarrow> plan_step list \<Rightarrow> fs \<Rightarrow> fs \<Rightarrow> bool" where
  "visits cl ex envs steps s t \<longleftrightarrow> (\<exists>k. run_steps cl ex envs 1 (take k steps) s = (Ok (), t))"

definition index_state :: "'c crlite \<Rightarrow> (fs \<Rightarrow> bool) \<Rightarrow> manifest \<Rightarrow> path \<Rightarrow> bytes option \<Rightarrow> bytes option \<Rightarrow> bool" where
  "index_state cl seen m local old new \<longleftrightarrow> new = old \<or> (\<exists>t b. seen t \<and> index_write cl t m local = Some b \<and> new = Some b)"

lemma run_steps_visited:
  assumes "run_steps cl ex envs i steps s = (r, s')" and "I s"
    and "\<And>k t r' t'. k < length steps \<Longrightarrow> run_steps cl ex envs i (take k steps) s = (Ok (), t) \<Longrightarrow> I t \<Longrightarrow>
      execute cl ex (envs (i + k)) (steps ! k) t = (r', t') \<Longrightarrow> I t'"
  shows "I s'"
  using assms
proof (induction steps arbitrary: i s)
  case (Cons st steps)
  obtain r1 s1 where step: "execute cl ex (envs i) st s = (r1, s1)" by fastforce
  have s1: "I s1" using Cons.prems(3) [of 0 s r1 s1] Cons.prems(2) step by simp
  show ?case
  proof (cases r1)
    case (Ok u)
    with step Cons.prems(1) have "run_steps cl ex envs (Suc i) steps s1 = (r, s')" by simp
    from this s1 show ?thesis
    proof (rule Cons.IH)
      fix k t r' t'
      assume "k < length steps" "run_steps cl ex envs (Suc i) (take k steps) s1 = (Ok (), t)" "I t"
        "execute cl ex (envs (Suc i + k)) (steps ! k) t = (r', t')"
      then show "I t'" using Cons.prems(3) [of "Suc k" t r' t'] step Ok by simp
    qed
  qed (use step s1 Cons.prems(1) in simp_all)
qed simp

lemma step_index_state:
  assumes plan: "plan_construct short order s m old url local = Ok plan" "\<And>xs. set (order xs) = set xs"
    "manifest_ok m" "fs_wf s" "st \<in> set (pl_steps plan)"
    and temps: "temps_ok envs" and step: "execute cl ex (envs j) st t = (r, t')"
    and before: "index_state cl seen m local x (file_at t (path_key local @ [INDEX_BIN]))" and seen: "seen t"
  shows "index_state cl seen m local x (file_at t' (path_key local @ [INDEX_BIN]))"
proof (cases "st = SaveIndex m local")
  case False
  then have "path_key local @ [INDEX_BIN] \<notin> step_targets st \<union> step_temps (envs j) st"
    using fixed_not_temp [OF temps, of j] fixed_names filter_name_not_fixed
    by (cases rule: plan_step_cases [OF plan])
       (auto simp: entry_simps data_name_def simp del: step_targets.simps(2-) step_temps.simps(1,2))
  with execute_frame [OF step] before show ?thesis by (auto simp: file_at_def)
next
  case True
  show ?thesis
  proof (cases "index_write cl t m local")
    case None
    with True step before show ?thesis by simp
  next
    case (Some b)
    with True step obtain r0 where "save_file (envs j) (path_key local) (se_temp (envs j) @ ''.new'')
        (path_key local @ [INDEX_BIN]) b t = (r0, t')"
      by (auto simp: Let_def path_key_join fixed_names split: prod.splits)
    from store.save_file_at [OF this] fixed_not_temp [OF temps, of j] Some before seen show ?thesis
      by (auto simp: index_state_def)
  qed
qed

end
