(* ===== verification/Mirror.thy ===== *)
theory Mirror
  imports Fetch
begin

text \<open>
  The mirror tools of \<open>upki-mirror/src/bin\<close>: \<open>mozilla-crlite.rs\<close>, which walks Mozilla's records from
  the full filter along its deltas, downloads and checks each attachment and publishes a manifest, and
  \<open>intermediates.rs\<close>, which publishes Mozilla's intermediate certificates in buckets by the first byte
  of their hash.

  The HTTP client, JSON and CSV decoding, the PEM decoder, the SHA-256 of \<open>aws-lc-rs\<close>, the clock and
  the iteration order of a \<open>HashMap\<close> are fields of \<open>mirror_world\<close>. The walk is a loop that may not
  end: it is a partial function, and \<open>None\<close> means that the program does not return.
\<close>

section \<open>Writing a file\<close>

text \<open>
  \<open>fs::write\<close> creates or truncates the file and writes the data; when the write fails, the first
  \<open>partial\<close> bytes may be there.
\<close>

definition fs_write :: "nat \<Rightarrow> path \<Rightarrow> bytes \<Rightarrow> fs \<Rightarrow> (io_error, unit) outcome \<times> fs" where
  "fs_write partial p data s =
     (let k = path_key p in
      case fs_fault s OpOpen k of
        Some e \<Rightarrow> (Err e, s)
      | None \<Rightarrow>
          if node_at s k = Some Dir then (Err IsADirectory, s)
          else
            (case node_at s (butlast k) of
               None \<Rightarrow> (Err NotFound, s)
             | Some (File _) \<Rightarrow> (Err NotADirectory, s)
             | Some Dir \<Rightarrow>
                 (case fs_fault s OpWrite k of
                    Some e \<Rightarrow> (Err e, set_node k (File (take partial data)) s)
                  | None \<Rightarrow> (Ok (), set_node k (File data) s))))"

section \<open>Records\<close>

record attachment =
  at_hash :: bytes
  at_size :: nat
  at_filename :: string
  at_location :: string

datatype channel = ChannelDefault | ChannelCompat

record item =
  it_attachment :: attachment
  it_channel :: channel
  it_id :: string
  it_incremental :: bool
  it_parent :: "string option"

record moz_manifest =
  mm_data :: "item list"

datatype mozilla_backend = Production

record source =
  records_url :: string
  attachment_host :: string

definition MOZILLA_PROD :: source where
  "MOZILLA_PROD =
     \<lparr>records_url = ''https://firefox.settings.services.mozilla.com/v1/buckets/security-state/collections/cert-revocations/records'',
      attachment_host = ''https://firefox-settings-attachments.cdn.mozilla.net/''\<rparr>"

fun source_from :: "mozilla_backend \<Rightarrow> source" where
  "source_from Production = MOZILLA_PROD"

record moz_opts =
  mo_output_dir :: path
  mo_backend :: mozilla_backend
  mo_comment :: string

record intermediate =
  im_subject :: string
  im_issuer :: string
  im_sha256 :: bytes
  im_full_crl :: string
  im_pem :: string
  im_json_crls :: string

text \<open>\<open>eyre\<close> reports, by the place that makes them.\<close>

datatype mirror_error =
  NoClient string
| RecordsRequest string
| RecordsStatus string
| RecordsDecode string
| DownloadRequest string string
| BodyFailed string
| WrongHash string
| WrongSize string
| WriteData io_error path
| NoPem string
| EncodeManifest string
| WriteManifest io_error

record 'r mirror_world =
  mw_client :: "string + unit"
  mw_send :: "string \<Rightarrow> string + 'r"
  mw_is_success :: "'r \<Rightarrow> bool"
  mw_status :: "'r \<Rightarrow> string"
  mw_bytes :: "'r \<Rightarrow> string + bytes"
  mw_json :: "'r \<Rightarrow> string + moz_manifest"
  mw_csv :: "bytes \<Rightarrow> string + intermediate list"
  mw_pem :: "bytes \<Rightarrow> string + bytes"
  mw_digest :: "bytes \<Rightarrow> bytes"
  mw_now :: "u64 option" \<comment> \<open>seconds since the epoch, unless the clock is before it\<close>
  mw_json_string :: "manifest \<Rightarrow> string + string"
  mw_partial :: nat
  mw_order :: "u8 list \<Rightarrow> u8 list" \<comment> \<open>iteration order of the buckets\<close>

section \<open>The walk\<close>

text \<open>A \<open>HashMap\<close> collected from an iterator keeps the last value of a key.\<close>

definition by_parent :: "item list \<Rightarrow> string \<Rightarrow> item option" where
  "by_parent items p = find (\<lambda>it. it_parent it = Some p) (rev items)"

definition walk_root :: "item list \<Rightarrow> item option" where
  "walk_root items = find (\<lambda>it. \<not> it_incremental it \<and> it_parent it = None \<and> it_channel it = ChannelDefault) items"

partial_function (option) walk :: "item list \<Rightarrow> item option \<Rightarrow> item list option" where
  "walk items next =
     (case next of
        None \<Rightarrow> Some []
      | Some item \<Rightarrow> Option.bind (walk items (by_parent items (it_id item))) (\<lambda>rest. Some (item # rest)))"

section \<open>Publishing the filters\<close>

fun download_all ::
  "'r mirror_world \<Rightarrow> source \<Rightarrow> moz_opts \<Rightarrow> item list \<Rightarrow> manifest_file list \<Rightarrow> fs
   \<Rightarrow> (mirror_error, manifest_file list) outcome \<times> fs" where
  "download_all mw source opts [] files s = (Ok files, s)"
| "download_all mw source opts (p # plan) files s =
     (let attachment_url = attachment_host source @ at_location (it_attachment p) in
      case obind (map_err (DownloadRequest attachment_url) (lift_sum (mw_send mw attachment_url))) (\<lambda>response.
           map_err BodyFailed (lift_sum (mw_bytes mw response))) of
        Err e \<Rightarrow> (Err e, s)
      | Panic \<Rightarrow> (Panic, s)
      | Ok bytes \<Rightarrow>
          if at_hash (it_attachment p) \<noteq> mw_digest mw bytes then (Err (WrongHash attachment_url), s)
          else if at_size (it_attachment p) \<noteq> length bytes then (Err (WrongSize attachment_url), s)
          else
            let output_filename = path_join (mo_output_dir opts) (at_filename (it_attachment p)) in
            case fs_write (mw_partial mw) output_filename bytes s of
              (Err e, s') \<Rightarrow> (Err (WriteData e output_filename), s')
            | (Panic, s') \<Rightarrow> (Panic, s')
            | (Ok _, s') \<Rightarrow>
                download_all mw source opts plan
                  (files @ [\<lparr>mf_filename = at_filename (it_attachment p), mf_size = at_size (it_attachment p),
                             mf_hash = at_hash (it_attachment p)\<rparr>]) s')"

definition write_manifest ::
  "'r mirror_world \<Rightarrow> path \<Rightarrow> string \<Rightarrow> manifest_file list \<Rightarrow> fs \<Rightarrow> (mirror_error, unit) outcome \<times> fs" where
  "write_manifest mw output_dir comment files s =
     (case mw_now mw of
        None \<Rightarrow> (Panic, s)
      | Some now \<Rightarrow>
          (case mw_json_string mw \<lparr>m_generated_at = now, m_comment = comment, m_files = files\<rparr> of
             Inl e \<Rightarrow> (Err (EncodeManifest e), s)
           | Inr text \<Rightarrow>
               (case fs_write (mw_partial mw) (path_join output_dir ''manifest.json'') (as_bytes text) s of
                  (r, s') \<Rightarrow> (map_err WriteManifest r, s'))))"

definition fetch_records ::
  "'r mirror_world \<Rightarrow> string \<Rightarrow> (mirror_error, 'r) outcome" where
  "fetch_records mw url =
     obind (map_err NoClient (lift_sum (mw_client mw))) (\<lambda>_.
     obind (map_err RecordsRequest (lift_sum (mw_send mw url))) (\<lambda>response.
       if mw_is_success mw response then Ok response else Err (RecordsStatus (mw_status mw response))))"

definition mozilla_main ::
  "'r mirror_world \<Rightarrow> moz_opts \<Rightarrow> fs \<Rightarrow> ((mirror_error, unit) outcome \<times> fs) option" where
  "mozilla_main mw opts s =
     (let source = source_from (mo_backend opts) in
      case obind (fetch_records mw (records_url source)) (\<lambda>response.
           map_err RecordsDecode (lift_sum (mw_json mw response))) of
        Err e \<Rightarrow> Some (Err e, s)
      | Panic \<Rightarrow> Some (Panic, s)
      | Ok incoming \<Rightarrow>
          Option.bind (walk (mm_data incoming) (walk_root (mm_data incoming))) (\<lambda>download_plan.
            Some (case download_all mw source opts download_plan [] s of
                (Ok files, s') \<Rightarrow> write_manifest mw (mo_output_dir opts) (mo_comment opts) files s'
              | (Err e, s') \<Rightarrow> (Err e, s')
              | (Panic, s') \<Rightarrow> (Panic, s'))))"

section \<open>Publishing the intermediates\<close>

text \<open>Buckets in a map from the first byte; \<open>push\<close> appends to the bucket.\<close>

fun bucket_all ::
  "'r mirror_world \<Rightarrow> intermediate list \<Rightarrow> (u8 \<Rightarrow> intermediate list) \<Rightarrow> (mirror_error, u8 \<Rightarrow> intermediate list) outcome" where
  "bucket_all mw [] buckets = Ok buckets"
| "bucket_all mw (i # intermediates) buckets =
     (case mw_pem mw (as_bytes (im_pem i)) of
        Inl e \<Rightarrow> Err (NoPem e)
      | Inr der \<Rightarrow>
          if im_sha256 i \<noteq> mw_digest mw der then Err (WrongHash (im_pem i))
          else obind (index_at (im_sha256 i) 0) (\<lambda>bucket.
            bucket_all mw intermediates (buckets(bucket := buckets bucket @ [i]))))"

definition hex_digit :: "nat \<Rightarrow> char" where
  "hex_digit d = (if d < 10 then char_of (48 + d) else char_of (87 + d))"

definition bucket_filename :: "u8 \<Rightarrow> string" where
  "bucket_filename b = [hex_digit (unat b div 16), hex_digit (unat b mod 16)] @ ''.pem''"

definition bucket_contents :: "intermediate list \<Rightarrow> string" where
  "bucket_contents certs = concat (map (\<lambda>inter. im_pem inter @ [char_of (10 :: nat)]) certs)"

fun write_buckets ::
  "'r mirror_world \<Rightarrow> path \<Rightarrow> (u8 \<Rightarrow> intermediate list) \<Rightarrow> u8 list \<Rightarrow> manifest_file list \<Rightarrow> fs
   \<Rightarrow> (mirror_error, manifest_file list) outcome \<times> fs" where
  "write_buckets mw output_dir buckets [] files s = (Ok files, s)"
| "write_buckets mw output_dir buckets (b # bs) files s =
     (let contents = as_bytes (bucket_contents (buckets b)); p = path_join output_dir (bucket_filename b) in
      case fs_write (mw_partial mw) p contents s of
        (Err e, s') \<Rightarrow> (Err (WriteData e p), s')
      | (Panic, s') \<Rightarrow> (Panic, s')
      | (Ok _, s') \<Rightarrow>
          write_buckets mw output_dir buckets bs
            (files @ [\<lparr>mf_filename = bucket_filename b, mf_size = length contents, mf_hash = mw_digest mw contents\<rparr>]) s')"

definition used_buckets :: "(u8 \<Rightarrow> intermediate list) \<Rightarrow> u8 list" where
  "used_buckets buckets = filter (\<lambda>b. buckets b \<noteq> []) (map of_nat [0..<256])"

definition intermediates_main ::
  "'r mirror_world \<Rightarrow> path \<Rightarrow> string \<Rightarrow> fs \<Rightarrow> (mirror_error, unit) outcome \<times> fs" where
  "intermediates_main mw output_dir comment s =
     (case obind (fetch_records mw ''https://ccadb.my.salesforce-sites.com/mozilla/MozillaIntermediateCertsCSVReport'') (\<lambda>response.
           obind (map_err BodyFailed (lift_sum (mw_bytes mw response))) (\<lambda>csv_bytes.
           obind (map_err RecordsDecode (lift_sum (mw_csv mw csv_bytes))) (\<lambda>intermediates.
             bucket_all mw intermediates (\<lambda>_. [])))) of
        Err e \<Rightarrow> (Err e, s)
      | Panic \<Rightarrow> (Panic, s)
      | Ok buckets \<Rightarrow>
          (case write_buckets mw output_dir buckets (mw_order mw (used_buckets buckets)) [] s of
             (Ok files, s') \<Rightarrow> write_manifest mw output_dir comment files s'
           | (Err e, s') \<Rightarrow> (Err e, s')
           | (Panic, s') \<Rightarrow> (Panic, s')))"

section \<open>Writing several files\<close>

text \<open>
  What both tools rely on: a write that succeeds leaves exactly the data at the path and nothing else
  changed. Publishing a list of named contents then leaves each of them in the directory.
\<close>

fun publish ::
  "(path \<Rightarrow> bytes \<Rightarrow> fs \<Rightarrow> (io_error, unit) outcome \<times> fs) \<Rightarrow> path \<Rightarrow> (string \<times> bytes) list \<Rightarrow> fs \<Rightarrow> fs option" where
  "publish w dir [] s = Some s"
| "publish w dir ((n, data) # xs) s =
     (case w (path_join dir n) data s of (Ok _, s') \<Rightarrow> publish w dir xs s' | _ \<Rightarrow> None)"

locale file_writer =
  fixes w :: "path \<Rightarrow> bytes \<Rightarrow> fs \<Rightarrow> (io_error, unit) outcome \<times> fs"
  assumes write_Ok: "w p data s = (Ok u, s') \<Longrightarrow>
    node_at s' (path_key p) = Some (File data) \<and> (\<forall>k. k \<noteq> path_key p \<longrightarrow> node_at s' k = node_at s k)"
begin

lemma publish_frame:
  "publish w dir xs s = Some s' \<Longrightarrow> list_all (\<lambda>(n, _). plain_name n) xs \<Longrightarrow>
   \<forall>n \<in> fst ` set xs. k \<noteq> path_key dir @ [n] \<Longrightarrow> node_at s' k = node_at s k"
proof (induction xs arbitrary: s)
  case (Cons x xs)
  obtain n data where x: "x = (n, data)" by (cases x)
  from Cons.prems(1) obtain u s1 where "w (path_join dir n) data s = (Ok u, s1)" and rest: "publish w dir xs s1 = Some s'"
    by (auto simp: x split: prod.splits outcome.splits)
  moreover have "path_key (path_join dir n) = path_key dir @ [n]" using Cons.prems(2) by (simp add: x path_key_join)
  ultimately have "node_at s1 k = node_at s k" using write_Ok Cons.prems(3) by (auto simp: x)
  with Cons.IH [OF rest] Cons.prems(2,3) show ?case by (simp add: x)
qed simp

lemma publish_files:
  "publish w dir xs s = Some s' \<Longrightarrow> list_all (\<lambda>(n, _). plain_name n) xs \<Longrightarrow> distinct (map fst xs) \<Longrightarrow>
   (n, data) \<in> set xs \<Longrightarrow> node_at s' (path_key dir @ [n]) = Some (File data)"
proof (induction xs arbitrary: s)
  case (Cons x xs)
  obtain n1 d1 where x: "x = (n1, d1)" by (cases x)
  from Cons.prems(1) obtain u s1 where wr: "w (path_join dir n1) d1 s = (Ok u, s1)" and rest: "publish w dir xs s1 = Some s'"
    by (auto simp: x split: prod.splits outcome.splits)
  show ?case
  proof (cases "(n, data) = x")
    case True
    have "node_at s1 (path_key dir @ [n1]) = Some (File d1)"
      using write_Ok [OF wr] Cons.prems(2) by (simp add: x path_key_join)
    moreover have "\<forall>n \<in> fst ` set xs. path_key dir @ [n1] \<noteq> path_key dir @ [n]"
      using Cons.prems(3) by (auto simp: x)
    ultimately show ?thesis
      using publish_frame [OF rest, of "path_key dir @ [n1]"] Cons.prems(2) True by (simp add: x)
  next
    case False
    then show ?thesis using Cons.IH [OF rest] Cons.prems(2-4) by (auto simp: x)
  qed
qed simp

end

lemma fs_write_Ok:
  assumes "fs_write partial p data s = (Ok u, s')"
  shows "node_at s' (path_key p) = Some (File data) \<and> (\<forall>k. k \<noteq> path_key p \<longrightarrow> node_at s' k = node_at s k)"
proof -
  have "path_key p \<noteq> []" using assms by (auto simp: fs_write_def node_at_def Let_def split: option.splits)
  with assms show ?thesis
    by (auto simp: fs_write_def Let_def split: option.splits if_splits node.splits)
qed

interpretation std: file_writer "fs_write partial" for partial
  by unfold_locales (rule fs_write_Ok)

section \<open>The walk ends\<close>

definition delta_chain :: "item list \<Rightarrow> bool" where
  "delta_chain vs \<longleftrightarrow> (\<forall>i. Suc i < length vs \<longrightarrow> it_parent (vs ! Suc i) = Some (it_id (vs ! i)))"

lemma by_parent_Some: "by_parent items p = Some it \<Longrightarrow> it \<in> set items \<and> it_parent it = Some p"
  by (auto simp: by_parent_def find_Some_iff) (metis length_rev nth_mem set_rev)

lemma by_parent_None: "by_parent items p = None \<longleftrightarrow> (\<forall>it \<in> set items. it_parent it \<noteq> Some p)"
  by (auto simp: by_parent_def find_None_iff)

lemma delta_chain_snoc:
  assumes "vs \<noteq> []" and "delta_chain vs" and "it_parent x = Some (it_id (last vs))"
  shows "delta_chain (vs @ [x])"
  unfolding delta_chain_def
proof (intro allI impI)
  fix i
  assume i: "Suc i < length (vs @ [x])"
  show "it_parent ((vs @ [x]) ! Suc i) = Some (it_id ((vs @ [x]) ! i))"
  proof (cases "Suc i < length vs")
    case True
    then show ?thesis using assms(2) by (simp add: delta_chain_def nth_append)
  next
    case False
    with i have "length vs = Suc i" by simp
    then show ?thesis using assms(1,3) by (simp add: nth_append last_conv_nth)
  qed
qed

lemma delta_chain_distinct:
  assumes "inj_on it_id (set vs)" and "delta_chain vs" and "vs \<noteq> []" and "it_parent (hd vs) = None"
  shows "distinct vs"
proof -
  have "i < length vs \<Longrightarrow> j < length vs \<Longrightarrow> vs ! i = vs ! j \<Longrightarrow> i = j" for i j
  proof (induction i arbitrary: j)
    case 0
    then show ?case using assms(2-4) by (cases j) (auto simp: delta_chain_def hd_conv_nth)
  next
    case (Suc i)
    have "it_parent (vs ! Suc i) = Some (it_id (vs ! i))" using assms(2) Suc.prems(1) by (simp add: delta_chain_def)
    moreover from this obtain j' where j: "j = Suc j'"
      using assms(3,4) Suc.prems(3) by (cases j) (auto simp: hd_conv_nth)
    moreover have "it_parent (vs ! Suc j') = Some (it_id (vs ! j'))"
      using assms(2) Suc.prems(2) j by (simp add: delta_chain_def)
    ultimately have "it_id (vs ! i) = it_id (vs ! j')" using Suc.prems(3) by simp
    then have "vs ! i = vs ! j'" using assms(1) Suc.prems j by (auto simp: inj_on_def)
    then show ?case using Suc.IH [of j'] Suc.prems j by simp
  qed
  then show ?thesis by (auto simp: distinct_conv_nth)
qed

lemma walk_ends_from:
  assumes "distinct (map it_id items)"
  shows "delta_chain (vs @ [x]) \<Longrightarrow> set (vs @ [x]) \<subseteq> set items \<Longrightarrow> it_parent (hd (vs @ [x])) = None \<Longrightarrow>
    \<exists>rest. walk items (Some x) = Some (x # rest) \<and> delta_chain (vs @ x # rest) \<and> set rest \<subseteq> set items
      \<and> by_parent items (it_id (last (x # rest))) = None"
proof (induction "length items - length vs" arbitrary: vs x rule: less_induct)
  case less
  have inj: "inj_on it_id (set (vs @ [x]))"
    using assms less.prems(2) by (meson distinct_map inj_on_subset)
  have "distinct (vs @ [x])" by (rule delta_chain_distinct [OF inj less.prems(1)]) (use less.prems(3) in auto)
  then have "length (vs @ [x]) \<le> length items"
    using less.prems(2) assms by (metis card_mono distinct_card distinct_map finite_set)
  then have dec: "length items - length (vs @ [x]) < length items - length vs" by simp
  show ?case
  proof (cases "by_parent items (it_id x)")
    case None
    then have "walk items (Some x) = Some [x]" by (simp add: walk.simps)
    with None less.prems show ?thesis by auto
  next
    case (Some y)
    then have y: "y \<in> set items" "it_parent y = Some (it_id x)" by (auto dest: by_parent_Some)
    have "delta_chain ((vs @ [x]) @ [y])" 
      by (rule delta_chain_snoc) (use less.prems(1) y(2) in auto)
    moreover have "set ((vs @ [x]) @ [y]) \<subseteq> set items" using less.prems(2) y(1) by auto
    moreover have "it_parent (hd ((vs @ [x]) @ [y])) = None" using less.prems(3) by (cases vs) auto
    ultimately obtain rest where "walk items (Some y) = Some (y # rest)" "delta_chain ((vs @ [x]) @ y # rest)"
      "set rest \<subseteq> set items" "by_parent items (it_id (last (y # rest))) = None"
      using less.hyps [OF dec] by blast
    moreover from this Some have "walk items (Some x) = Some (x # y # rest)" by (subst walk.simps) simp
    ultimately show ?thesis using y(1) by (intro exI [of _ "y # rest"]) auto
  qed
qed

section \<open>What is published\<close>

definition published_file :: "item \<Rightarrow> manifest_file" where
  "published_file p =
     \<lparr>mf_filename = at_filename (it_attachment p), mf_size = at_size (it_attachment p), mf_hash = at_hash (it_attachment p)\<rparr>"

lemma download_all_Ok:
  "download_all mw source opts plan files s = (Ok files', s') \<Longrightarrow>
   \<exists>bodies. files' = files @ map published_file plan \<and> length bodies = length plan
     \<and> (\<forall>(p, b) \<in> set (zip plan bodies). mw_digest mw b = at_hash (it_attachment p) \<and> length b = at_size (it_attachment p))
     \<and> publish (fs_write (mw_partial mw)) (mo_output_dir opts) (zip (map (\<lambda>p. at_filename (it_attachment p)) plan) bodies) s
       = Some s'"
proof (induction plan arbitrary: files s)
  case (Cons p plan)
  let ?f = "at_filename (it_attachment p)"
  from Cons.prems obtain b s1 where b: "at_hash (it_attachment p) = mw_digest mw b" "at_size (it_attachment p) = length b"
    and wr: "fs_write (mw_partial mw) (path_join (mo_output_dir opts) ?f) b s = (Ok (), s1)"
    and rest: "download_all mw source opts plan (files @ [published_file p]) s1 = (Ok files', s')"
    by (auto simp: Let_def published_file_def split: outcome.splits prod.splits if_splits)
  from Cons.IH [OF rest] obtain bodies where "files' = (files @ [published_file p]) @ map published_file plan"
    "length bodies = length plan"
    "\<forall>(p, b) \<in> set (zip plan bodies). mw_digest mw b = at_hash (it_attachment p) \<and> length b = at_size (it_attachment p)"
    "publish (fs_write (mw_partial mw)) (mo_output_dir opts) (zip (map (\<lambda>p. at_filename (it_attachment p)) plan) bodies) s1
      = Some s'" by blast
  with b wr show ?case by (intro exI [of _ "b # bodies"]) auto
qed simp

lemma write_manifest_Ok:
  assumes "write_manifest mw dir comment files s = (Ok (), s')"
  shows "\<exists>now text. mw_json_string mw \<lparr>m_generated_at = now, m_comment = comment, m_files = files\<rparr> = Inr text
    \<and> node_at s' (path_key dir @ [''manifest.json'']) = Some (File (as_bytes text))
    \<and> (\<forall>k. k \<noteq> path_key dir @ [''manifest.json''] \<longrightarrow> node_at s' k = node_at s k)"
proof -
  have key: "path_key (path_join dir ''manifest.json'') = path_key dir @ [''manifest.json'']"
    by (rule path_key_join) (simp add: plain_name_def)
  from assms obtain now json where "mw_json_string mw \<lparr>m_generated_at = now, m_comment = comment, m_files = files\<rparr> = Inr json"
    "fs_write (mw_partial mw) (path_join dir ''manifest.json'') (as_bytes json) s = (Ok (), s')"
    by (auto simp: write_manifest_def outcome_simps split: option.splits sum.splits prod.splits)
  with fs_write_Ok [OF this(2)] show ?thesis unfolding key by blast
qed

definition publishable :: "string list \<Rightarrow> bool" where
  "publishable names \<longleftrightarrow> distinct names \<and> list_all plain_name names \<and> ''manifest.json'' \<notin> set names"

text \<open>Files published under these names are there also after the manifest is written.\<close>

lemma published_files:
  assumes "publish (fs_write partial) dir (zip names bodies) s = Some s1" and "length names = length bodies"
    and "publishable names" and "i < length names"
    and "\<forall>k. k \<noteq> path_key dir @ [''manifest.json''] \<longrightarrow> node_at s' k = node_at s1 k"
  shows "file_at s' (path_key dir @ [names ! i]) = Some (bodies ! i)"
proof -
  have "(names ! i, bodies ! i) \<in> set (zip names bodies)" using assms(2,4) by (auto simp: set_zip)
  moreover have "list_all (\<lambda>(n, _). plain_name n) (zip names bodies)"
    using assms(3) by (auto simp: publishable_def list_all_iff dest: set_zip_leftD)
  ultimately have "node_at s1 (path_key dir @ [names ! i]) = Some (File (bodies ! i))"
    using assms(1-3) by (intro std.publish_files) (auto simp: publishable_def)
  moreover have "names ! i \<noteq> ''manifest.json''" using assms(3,4) by (metis nth_mem publishable_def)
  ultimately show ?thesis using assms(5) by (simp add: file_at_def)
qed

lemma bucket_all_Ok:
  "bucket_all mw is buckets = Ok buckets' \<Longrightarrow>
   (\<forall>i \<in> set is. im_sha256 i \<noteq> [] \<and> (\<exists>der. mw_pem mw (as_bytes (im_pem i)) = Inr der \<and> mw_digest mw der = im_sha256 i))
   \<and> (\<forall>b. buckets' b = buckets b @ filter (\<lambda>i. hd (im_sha256 i) = b) is)"
proof (induction "is" arbitrary: buckets)
  case (Cons i "is")
  show ?case
  proof (cases "mw_pem mw (as_bytes (im_pem i))")
    case (Inr der)
    have sha: "mw_digest mw der = im_sha256 i" using Cons.prems Inr by (simp split: if_splits)
    have "obind (index_at (im_sha256 i) 0) (\<lambda>bucket. bucket_all mw is (buckets(bucket := buckets bucket @ [i]))) = Ok buckets'"
      using Cons.prems Inr sha by simp
    then have ne: "im_sha256 i \<noteq> []"
      and rest: "bucket_all mw is (buckets(hd (im_sha256 i) := buckets (hd (im_sha256 i)) @ [i])) = Ok buckets'"
      by (simp_all add: index_at_def hd_conv_nth split: if_splits)
    from Cons.IH [OF rest] ne sha Inr show ?thesis by simp
  qed (use Cons.prems in simp)
qed simp

definition bucket_bodies :: "(u8 \<Rightarrow> intermediate list) \<Rightarrow> u8 list \<Rightarrow> bytes list" where
  "bucket_bodies buckets bs = map (\<lambda>b. as_bytes (bucket_contents (buckets b))) bs"

definition bucket_file :: "'r mirror_world \<Rightarrow> (u8 \<Rightarrow> intermediate list) \<Rightarrow> u8 \<Rightarrow> manifest_file" where
  "bucket_file mw buckets b =
     (let contents = as_bytes (bucket_contents (buckets b))
      in \<lparr>mf_filename = bucket_filename b, mf_size = length contents, mf_hash = mw_digest mw contents\<rparr>)"

lemma write_buckets_Ok:
  "write_buckets mw dir buckets bs files s = (Ok files', s') \<Longrightarrow>
   files' = files @ map (bucket_file mw buckets) bs
   \<and> publish (fs_write (mw_partial mw)) dir (zip (map bucket_filename bs) (bucket_bodies buckets bs)) s = Some s'"
proof (induction bs arbitrary: files s)
  case (Cons b bs)
  let ?c = "as_bytes (bucket_contents (buckets b))"
  from Cons.prems obtain s1 where "fs_write (mw_partial mw) (path_join dir (bucket_filename b)) ?c s = (Ok (), s1)"
    and rest: "write_buckets mw dir buckets bs (files @ [bucket_file mw buckets b]) s1 = (Ok files', s')"
    by (auto simp: Let_def bucket_file_def split: prod.splits outcome.splits)
  with Cons.IH [OF rest] show ?case by (simp add: bucket_bodies_def)
qed (simp add: bucket_bodies_def)

lemma hex_digit_code: "d < 16 \<Longrightarrow> of_char (hex_digit d) = (if d < 10 then 48 + d else 87 + d)"
  by (simp add: hex_digit_def)

lemma hex_digit_inj:
  assumes "a < 16" and "b < 16" and "hex_digit a = hex_digit b"
  shows "a = b"
proof -
  have "(if a < 10 then 48 + a else 87 + a) = (if b < 10 then 48 + b else 87 + b)"
    using hex_digit_code [OF assms(1)] hex_digit_code [OF assms(2)] assms(3) by simp
  then show ?thesis by (simp split: if_splits)
qed

lemma bucket_filename_inj: "inj bucket_filename"
proof (rule injI)
  fix x y
  assume "bucket_filename x = bucket_filename y"
  then have "unat x div 16 = unat y div 16" "unat x mod 16 = unat y mod 16"
    using unsigned_less [of x, where ?'a = nat] unsigned_less [of y, where ?'a = nat]
    by (auto simp: bucket_filename_def intro!: hex_digit_inj)
  then have "unat x = unat y" by (metis div_mult_mod_eq)
  then show "x = y" by (rule word_unat_eq_iff [THEN iffD2])
qed

lemma bucket_filename_plain: "plain_name (bucket_filename b) \<and> bucket_filename b \<noteq> ''manifest.json''"
proof -
  have slash: "CHR ''/'' \<noteq> hex_digit d" if "d < 16" for d
  proof
    assume "CHR ''/'' = hex_digit d"
    then have "(if d < 10 then 48 + d else 87 + d) = of_char CHR ''/''" using hex_digit_code [OF that] by simp
    then show False by (simp split: if_splits)
  qed
  have "unat b div 16 < 16" "unat b mod 16 < 16" using unsigned_less [of b, where ?'a = nat] by simp_all
  then show ?thesis by (simp add: bucket_filename_def plain_name_def slash)
qed

lemma used_buckets_facts:
  "set (used_buckets buckets) = {b. buckets b \<noteq> []} \<and> distinct (used_buckets buckets) \<and> length (used_buckets buckets) \<le> 256"
proof -
  have "b \<in> of_nat ` {0..<256}" for b :: u8
    using unsigned_less [of b, where ?'a = nat] by (intro image_eqI [of _ _ "unat b"]) auto
  then have all: "set (map of_nat [0..<256]) = (UNIV :: u8 set)" by auto
  have "inj_on (of_nat :: nat \<Rightarrow> u8) {0..<256}"
  proof (rule inj_onI)
    fix x y :: nat
    assume "x \<in> {0..<256}" "y \<in> {0..<256}" "(of_nat x :: u8) = of_nat y"
    moreover have "unat (of_nat n :: u8) = n" if "n \<in> {0..<256}" for n
      using that unat_of_nat_small [of n, where ?'a = 8] by simp
    ultimately show "x = y" by metis
  qed
  then have "distinct (map (of_nat :: nat \<Rightarrow> u8) [0..<256])" by (simp add: distinct_map)
  moreover have "length (used_buckets buckets) \<le> 256"
    unfolding used_buckets_def using length_filter_le [of "\<lambda>b. buckets b \<noteq> []" "map of_nat [0..<256]"] by simp
  moreover have "set (used_buckets buckets) = {b. buckets b \<noteq> []}"
    unfolding used_buckets_def set_filter all by simp
  ultimately show ?thesis by (simp add: used_buckets_def del: set_filter)
qed

section \<open>Sample worlds\<close>

definition sample_item :: "string \<Rightarrow> string option \<Rightarrow> u8 \<Rightarrow> item" where
  "sample_item name parent b =
     \<lparr>it_attachment = \<lparr>at_hash = fips_sha256 [b], at_size = 1, at_filename = name, at_location = name\<rparr>,
      it_channel = ChannelDefault, it_id = name, it_incremental = parent \<noteq> None, it_parent = parent\<rparr>"

definition sample_items :: "item list" where
  "sample_items = [sample_item ''b'' (Some ''a'') 2, sample_item ''a'' None 1]"

definition sample_inter :: intermediate where
  "sample_inter = \<lparr>im_subject = ''s'', im_issuer = ''i'', im_sha256 = fips_sha256 [5], im_full_crl = '''',
     im_pem = ''PEM'', im_json_crls = ''''\<rparr>"

definition sample_mirror :: "string mirror_world" where
  "sample_mirror =
     \<lparr>mw_client = Inr (), mw_send = (\<lambda>url. Inr url), mw_is_success = (\<lambda>_. True), mw_status = (\<lambda>_. ''200''),
      mw_bytes = (\<lambda>url. Inr (if last url = CHR ''a'' then [1] else [2])),
      mw_json = (\<lambda>_. Inr \<lparr>mm_data = sample_items\<rparr>), mw_csv = (\<lambda>_. Inr [sample_inter]), mw_pem = (\<lambda>_. Inr [5]),
      mw_digest = fips_sha256, mw_now = Some 7, mw_json_string = (\<lambda>_. Inr ''json''), mw_partial = 0, mw_order = (\<lambda>bs. bs)\<rparr>"

definition sample_opts :: moz_opts where
  "sample_opts = \<lparr>mo_output_dir = ''/o'', mo_backend = Production, mo_comment = ''''\<rparr>"

definition sample_out :: "(key \<times> node) list \<Rightarrow> fs" where
  "sample_out nodes = \<lparr>fs_nodes = ([''o''], Dir) # nodes, fs_fault = (\<lambda>_ _. None)\<rparr>"

lemma sample_walk: "walk sample_items (walk_root sample_items) = Some [sample_item ''a'' None 1, sample_item ''b'' (Some ''a'') 2]"
proof -
  have step: "by_parent sample_items ''a'' = Some (sample_item ''b'' (Some ''a'') 2)" "by_parent sample_items ''b'' = None"
    "walk_root sample_items = Some (sample_item ''a'' None 1)"
    by (simp_all add: by_parent_def walk_root_def sample_items_def sample_item_def)
  have "walk sample_items None = Some []" by (subst walk.simps) simp
  then have "walk sample_items (Some (sample_item ''b'' (Some ''a'') 2)) = Some [sample_item ''b'' (Some ''a'') 2]"
    by (subst walk.simps) (simp add: step(2) sample_item_def [of "''b''"])
  then show ?thesis unfolding step by (subst walk.simps) (simp add: step sample_item_def [of "''a''"])
qed

lemma sample_out_keys:
  "path_key ''/o/a'' = [''o'', ''a'']" "path_key ''/o/b'' = [''o'', ''b'']"
  "path_key ''/o/manifest.json'' = [''o'', ''manifest.json'']" "path_key ''/o'' = [''o'']"
  by code_simp+

lemma sample_out_write:
  "k \<noteq> [] \<Longrightarrow> path_key p = ''o'' # k \<Longrightarrow> length k = 1 \<Longrightarrow> map_of nodes (''o'' # k) = None \<Longrightarrow>
   fs_write n p data (sample_out nodes) = (Ok (), sample_out (nodes @ [(''o'' # k, File data)]))"
proof -
  assume k: "k \<noteq> []" "path_key p = ''o'' # k" "length k = 1" "map_of nodes (''o'' # k) = None"
  have "AList.update a b xs = xs @ [(a, b)]" if "map_of xs a = None" for a b and xs :: "(key \<times> node) list"
    using that by (induction xs) (auto split: if_splits)
  with k show ?thesis
    by (cases k) (auto simp: fs_write_def node_at_def set_node_def sample_out_def Let_def)
qed

lemma sample_mozilla:
  "mozilla_main sample_mirror sample_opts (sample_out [])
   = Some (Ok (), sample_out [([''o'', ''a''], File [1]), ([''o'', ''b''], File [2]), ([''o'', ''manifest.json''], File (as_bytes ''json''))])"
proof -
  have join: "path_join ''/o'' ''a'' = ''/o/a''" "path_join ''/o'' ''b'' = ''/o/b''"
    "path_join ''/o'' ''manifest.json'' = ''/o/manifest.json''" by code_simp+
  have wr: "fs_write n ''/o/a'' d (sample_out []) = (Ok (), sample_out [([''o'', ''a''], File d)])"
    "fs_write n ''/o/b'' d (sample_out [([''o'', ''a''], File c)])
       = (Ok (), sample_out [([''o'', ''a''], File c), ([''o'', ''b''], File d)])"
    "fs_write n ''/o/manifest.json'' d (sample_out [([''o'', ''a''], File c), ([''o'', ''b''], File e)])
       = (Ok (), sample_out [([''o'', ''a''], File c), ([''o'', ''b''], File e), ([''o'', ''manifest.json''], File d)])" for n c d e
    by (simp_all add: sample_out_write [of "[_]"] sample_out_keys)
  have records: "obind (fetch_records sample_mirror (records_url MOZILLA_PROD)) (\<lambda>response.
      map_err RecordsDecode (lift_sum (mw_json sample_mirror response))) = Ok \<lparr>mm_data = sample_items\<rparr>"
    by (simp add: fetch_records_def sample_mirror_def)
  have "\<exists>files. download_all sample_mirror MOZILLA_PROD sample_opts
      [sample_item ''a'' None 1, sample_item ''b'' (Some ''a'') 2] [] (sample_out [])
      = (Ok files, sample_out [([''o'', ''a''], File [1]), ([''o'', ''b''], File [2])])"
    by (simp add: Let_def sample_item_def sample_opts_def sample_mirror_def join wr)
  moreover have "write_manifest sample_mirror ''/o'' comment files (sample_out [([''o'', ''a''], File [1]), ([''o'', ''b''], File [2])])
      = (Ok (), sample_out [([''o'', ''a''], File [1]), ([''o'', ''b''], File [2]), ([''o'', ''manifest.json''], File (as_bytes ''json''))])"
    for comment files by (simp add: write_manifest_def sample_mirror_def join wr)
  ultimately show ?thesis
    by (auto simp: mozilla_main_def Let_def sample_walk records sample_opts_def)
qed

lemma sample_intermediates: "\<exists>s'. intermediates_main sample_mirror ''/o'' [] (sample_out []) = (Ok (), s')"
proof -
  obtain c cs where sha: "fips_sha256 [5] = c # cs"
    using length_fips_sha256 [of "[5]"] by (cases "fips_sha256 [5]") auto
  define buckets where "buckets = (\<lambda>_. [])(c := [sample_inter])"
  have bk: "bucket_all sample_mirror [sample_inter] (\<lambda>_. []) = Ok buckets"
    by (simp add: sample_mirror_def sample_inter_def sha index_at_def buckets_def)
  have "xs = [c]" if "set xs = {c}" "distinct xs" for xs :: "u8 list"
    using that distinct_card [of xs] by (cases xs; cases "tl xs") auto
  then have used: "used_buckets buckets = [c]"
    using used_buckets_facts [of buckets] by (auto simp: buckets_def)
  have key: "path_key (path_join ''/o'' n) = ''o'' # [n]" if "plain_name n" for n
    using path_key_join [OF that, of "''/o''"] by (simp add: sample_out_keys)
  have names: "plain_name (bucket_filename c)" "bucket_filename c \<noteq> ''manifest.json''" "plain_name ''manifest.json''"
    using bucket_filename_plain [of c] by (simp_all add: plain_name_def)
  have fields: "mw_client sample_mirror = Inr ()" "mw_send sample_mirror u = Inr u" "mw_is_success sample_mirror u"
    "mw_bytes sample_mirror u = Inr (if last u = CHR ''a'' then [1] else [2])" "mw_csv sample_mirror b = Inr [sample_inter]"
    "mw_order sample_mirror bs = bs" "mw_now sample_mirror = Some 7" "mw_json_string sample_mirror m = Inr ''json''" for u b bs m
    by (simp_all add: sample_mirror_def)
  show ?thesis
    using names
    by (simp add: intermediates_main_def fetch_records_def fields bk used Let_def write_manifest_def
        sample_out_write [of "[bucket_filename c]"] sample_out_write [of "[''manifest.json'']"] key
        del: bucket_all.simps)
qed

section \<open>Properties\<close>

text \<open>
  C26: the walk over Mozilla's records ends when the identifiers of the items are distinct. It starts at
  the first full filter of the default channel without parent, each further item is a delta whose
  parent is the item before it, and it stops only where no item has the last one as its parent.
\<close>

theorem walk_follows_deltas:
  assumes "distinct (map it_id items)"
  shows "\<exists>plan. walk items (walk_root items) = Some plan \<and> set plan \<subseteq> set items \<and> distinct plan \<and> delta_chain plan
    \<and> (if plan = [] then walk_root items = None
       else walk_root items = Some (hd plan) \<and> (\<forall>it \<in> set items. it_parent it \<noteq> Some (it_id (last plan))))"
proof (cases "walk_root items")
  case None
  then have "walk items (walk_root items) = Some []" by (subst walk.simps) simp
  with None show ?thesis by (intro exI [of _ "[]"]) (simp add: delta_chain_def)
next
  case (Some x)
  then have x: "x \<in> set items" "it_parent x = None"
    by (auto simp: walk_root_def find_Some_iff)
  have "\<exists>rest. walk items (Some x) = Some (x # rest) \<and> delta_chain ([] @ x # rest) \<and> set rest \<subseteq> set items
      \<and> by_parent items (it_id (last (x # rest))) = None"
    by (rule walk_ends_from [OF assms]) (use x in \<open>auto simp: delta_chain_def\<close>)
  then obtain rest where rest: "walk items (Some x) = Some (x # rest)" "delta_chain (x # rest)" "set rest \<subseteq> set items"
    "by_parent items (it_id (last (x # rest))) = None" by auto
  moreover have "distinct (x # rest)"
  proof (rule delta_chain_distinct [OF _ rest(2)])
    have "inj_on it_id (set items)" using assms by (simp add: distinct_map)
    moreover have "set (x # rest) \<subseteq> set items" using x(1) rest(3) by simp
    ultimately show "inj_on it_id (set (x # rest))" by (rule inj_on_subset)
  qed (use x(2) in simp_all)
  ultimately show ?thesis using x(1) Some by (intro exI [of _ "x # rest"]) (simp add: by_parent_None)
qed

theorem walk_follows_deltas_witness:
  "\<exists>plan. walk sample_items (walk_root sample_items) = Some plan \<and> distinct plan \<and> delta_chain plan"
  using walk_follows_deltas [of sample_items] by (auto simp: sample_items_def sample_item_def)

text \<open>With two items of the same identifier the program may walk for ever.\<close>

lemma walk_may_not_end:
  "walk [sample_item ''a'' None 1, sample_item ''a'' (Some ''a'') 2] (Some (sample_item ''a'' None 1)) = None"
proof -
  let ?items = "[sample_item ''a'' None 1, sample_item ''a'' (Some ''a'') 2]" and ?x = "sample_item ''a'' (Some ''a'') 2"
  have next_x: "by_parent ?items ''a'' = Some ?x" by (simp add: by_parent_def sample_item_def)
  have ids: "it_id (sample_item n p b) = n" for n p b by (simp add: sample_item_def)
  have "walk ?items (Some ?x) = Option.bind (walk ?items (Some ?x)) (\<lambda>rest. Some (?x # rest))"
    by (subst (1) walk.simps) (simp add: next_x ids)
  then have "walk ?items (Some ?x) = None"
    by (cases "walk ?items (Some ?x)") (auto dest: arg_cong [of _ _ length])
  then show ?thesis
    by (subst walk.simps) (simp add: next_x ids)
qed

text \<open>
  C27: what the filter mirror publishes can be trusted. When it succeeds, the manifest in the output
  directory lists the walked items in order, and every file it lists is in the directory with the
  listed SHA-256 digest and size, for file names that are distinct plain names.
\<close>

theorem mozilla_publishes:
  assumes "mozilla_main mw opts s = Some (Ok (), s')" and "mw_digest mw = fips_sha256"
  shows "\<exists>response incoming plan now text.
      mw_send mw (records_url MOZILLA_PROD) = Inr response \<and> mw_json mw response = Inr incoming
    \<and> walk (mm_data incoming) (walk_root (mm_data incoming)) = Some plan
    \<and> mw_json_string mw \<lparr>m_generated_at = now, m_comment = mo_comment opts, m_files = map published_file plan\<rparr> = Inr text
    \<and> file_at s' (path_key (mo_output_dir opts) @ [''manifest.json'']) = Some (as_bytes text)
    \<and> (publishable (map (\<lambda>p. at_filename (it_attachment p)) plan) \<longrightarrow>
        (\<forall>f \<in> set (map published_file plan). \<exists>b.
           file_at s' (path_key (mo_output_dir opts) @ [mf_filename f]) = Some b
           \<and> fips_sha256 b = mf_hash f \<and> length b = mf_size f))"
proof -
  have src: "source_from (mo_backend opts) = MOZILLA_PROD" by (cases "mo_backend opts") simp
  from assms(1) obtain response incoming plan files s1 where
    got: "mw_send mw (records_url MOZILLA_PROD) = Inr response" "mw_json mw response = Inr incoming"
    and wk: "walk (mm_data incoming) (walk_root (mm_data incoming)) = Some plan"
    and dl: "download_all mw MOZILLA_PROD opts plan [] s = (Ok files, s1)"
    and wm: "write_manifest mw (mo_output_dir opts) (mo_comment opts) files s1 = (Ok (), s')"
    by (auto simp: mozilla_main_def src fetch_records_def outcome_simps Let_def bind_eq_Some_conv
        split: outcome.splits if_splits prod.splits)
  from download_all_Ok [OF dl] obtain bodies where files: "files = map published_file plan" and len: "length bodies = length plan"
    and ok: "\<forall>(p, b) \<in> set (zip plan bodies). mw_digest mw b = at_hash (it_attachment p) \<and> length b = at_size (it_attachment p)"
    and pub: "publish (fs_write (mw_partial mw)) (mo_output_dir opts) (zip (map (\<lambda>p. at_filename (it_attachment p)) plan) bodies) s
       = Some s1" by auto
  from write_manifest_Ok [OF wm] obtain now json where json:
    "mw_json_string mw \<lparr>m_generated_at = now, m_comment = mo_comment opts, m_files = map published_file plan\<rparr> = Inr json"
    "node_at s' (path_key (mo_output_dir opts) @ [''manifest.json'']) = Some (File (as_bytes json))"
    "\<forall>k. k \<noteq> path_key (mo_output_dir opts) @ [''manifest.json''] \<longrightarrow> node_at s' k = node_at s1 k"
    unfolding files by blast
  have "\<exists>b. file_at s' (path_key (mo_output_dir opts) @ [mf_filename f]) = Some b \<and> fips_sha256 b = mf_hash f \<and> length b = mf_size f"
    if "publishable (map (\<lambda>p. at_filename (it_attachment p)) plan)" and f: "f \<in> set (map published_file plan)" for f
  proof -
    from f obtain i where i: "i < length plan" "f = published_file (plan ! i)" by (auto simp: in_set_conv_nth)
    then have "(plan ! i, bodies ! i) \<in> set (zip plan bodies)" using len by (auto simp: set_zip)
    with ok have "mw_digest mw (bodies ! i) = at_hash (it_attachment (plan ! i))"
      "length (bodies ! i) = at_size (it_attachment (plan ! i))" by auto
    moreover have "file_at s' (path_key (mo_output_dir opts) @ [at_filename (it_attachment (plan ! i))]) = Some (bodies ! i)"
      using published_files [OF pub _ that(1) _ json(3), of i] i(1) len by simp
    ultimately show ?thesis using assms(2) by (simp add: i(2) published_file_def)
  qed
  with got wk json(1,2) show ?thesis by (intro exI conjI) (auto simp: file_at_def)
qed

theorem mozilla_publishes_witness:
  "\<exists>plan. walk sample_items (walk_root sample_items) = Some plan
    \<and> (publishable (map (\<lambda>p. at_filename (it_attachment p)) plan) \<longrightarrow>
        (\<forall>f \<in> set (map published_file plan). \<exists>b s'. mozilla_main sample_mirror sample_opts (sample_out []) = Some (Ok (), s')
           \<and> file_at s' (path_key ''/o'' @ [mf_filename f]) = Some b
           \<and> fips_sha256 b = mf_hash f \<and> length b = mf_size f))"
proof -
  have "mw_digest sample_mirror = fips_sha256" by (simp add: sample_mirror_def)
  from mozilla_publishes [OF sample_mozilla this] sample_mozilla show ?thesis
    by (fastforce simp: sample_mirror_def sample_opts_def)
qed

text \<open>
  C28: every intermediate certificate of the report is published, in exactly one file. When the tool
  succeeds, the whole body of the answer for the address of the CCADB report was decoded; each
  certificate of the report had the digest the report gives; the file named by the first byte of that
  digest holds the PEM texts of all certificates with this byte, in the order of the report; there
  are at most 256 files, and the manifest lists each with its SHA-256 digest and size.
\<close>

theorem intermediates_published:
  assumes "intermediates_main mw dir comment s = (Ok (), s')" and "mw_digest mw = fips_sha256"
    and "\<forall>bs. set (mw_order mw bs) = set bs \<and> (distinct bs \<longrightarrow> distinct (mw_order mw bs))"
  shows "\<exists>response csv_bytes intermediates files now text.
      mw_send mw ''https://ccadb.my.salesforce-sites.com/mozilla/MozillaIntermediateCertsCSVReport'' = Inr response
    \<and> mw_is_success mw response \<and> mw_bytes mw response = Inr csv_bytes \<and> mw_csv mw csv_bytes = Inr intermediates
    \<and> mw_json_string mw \<lparr>m_generated_at = now, m_comment = comment, m_files = files\<rparr> = Inr text
    \<and> file_at s' (path_key dir @ [''manifest.json'']) = Some (as_bytes text) \<and> length files \<le> 256
    \<and> (\<forall>f \<in> set files. \<exists>b. file_at s' (path_key dir @ [mf_filename f]) = Some b \<and> fips_sha256 b = mf_hash f \<and> length b = mf_size f)
    \<and> (\<forall>i \<in> set intermediates. (\<exists>der. mw_pem mw (as_bytes (im_pem i)) = Inr der \<and> fips_sha256 der = im_sha256 i)
        \<and> bucket_filename (hd (im_sha256 i)) \<in> mf_filename ` set files
        \<and> file_at s' (path_key dir @ [bucket_filename (hd (im_sha256 i))])
          = Some (as_bytes (bucket_contents (filter (\<lambda>j. hd (im_sha256 j) = hd (im_sha256 i)) intermediates))))"
proof -
  from assms(1) obtain response csv_bytes intermediates buckets files s1 where
    send: "mw_send mw ''https://ccadb.my.salesforce-sites.com/mozilla/MozillaIntermediateCertsCSVReport'' = Inr response"
      "mw_is_success mw response" "mw_bytes mw response = Inr csv_bytes"
    and csv: "mw_csv mw csv_bytes = Inr intermediates" and bk: "bucket_all mw intermediates (\<lambda>_. []) = Ok buckets"
    and wb: "write_buckets mw dir buckets (mw_order mw (used_buckets buckets)) [] s = (Ok files, s1)"
    and wm: "write_manifest mw dir comment files s1 = (Ok (), s')"
    by (auto simp: intermediates_main_def fetch_records_def outcome_simps split: outcome.splits prod.splits if_splits)
  define bs where "bs = mw_order mw (used_buckets buckets)"
  have buckets: "buckets b = filter (\<lambda>i. hd (im_sha256 i) = b) intermediates" for b
    using bucket_all_Ok [OF bk] by simp
  have pem: "\<forall>i \<in> set intermediates. \<exists>der. mw_pem mw (as_bytes (im_pem i)) = Inr der \<and> fips_sha256 der = im_sha256 i"
    using bucket_all_Ok [OF bk] assms(2) by auto
  have bs: "set bs = {b. buckets b \<noteq> []}" "distinct bs"
    using used_buckets_facts [of buckets] assms(3) by (auto simp: bs_def)
  have "length bs \<le> 256"
    using distinct_card [OF bs(2)] distinct_card [of "used_buckets buckets"] used_buckets_facts [of buckets] bs(1) by simp
  have files: "files = map (bucket_file mw buckets) bs"
    and pub: "publish (fs_write (mw_partial mw)) dir (zip (map bucket_filename bs) (bucket_bodies buckets bs)) s = Some s1"
    using write_buckets_Ok [OF wb] by (simp_all add: bs_def)
  from write_manifest_Ok [OF wm] obtain now json where json:
    "mw_json_string mw \<lparr>m_generated_at = now, m_comment = comment, m_files = files\<rparr> = Inr json"
    "node_at s' (path_key dir @ [''manifest.json'']) = Some (File (as_bytes json))"
    "\<forall>k. k \<noteq> path_key dir @ [''manifest.json''] \<longrightarrow> node_at s' k = node_at s1 k" by blast
  have names: "publishable (map bucket_filename bs)"
  proof -
    have "distinct (map bucket_filename bs)"
      using bs(2) inj_on_subset [OF bucket_filename_inj] by (simp add: distinct_map)
    moreover have "''manifest.json'' \<notin> set (map bucket_filename bs)"
    proof
      assume "''manifest.json'' \<in> set (map bucket_filename bs)"
      then obtain b where "''manifest.json'' = bucket_filename b" by auto
      with bucket_filename_plain [of b] show False by simp
    qed
    ultimately show ?thesis using bucket_filename_plain by (simp add: publishable_def list_all_iff)
  qed
  have there: "file_at s' (path_key dir @ [bucket_filename b]) = Some (as_bytes (bucket_contents (buckets b)))"
    if b: "b \<in> set bs" for b
  proof -
    from b obtain i where "i < length bs" "b = bs ! i" by (auto simp: in_set_conv_nth)
    then show ?thesis using published_files [OF pub _ names _ json(3), of i] by (simp add: bucket_bodies_def)
  qed
  have "(hd (im_sha256 i)) \<in> set bs" if "i \<in> set intermediates" for i
    using that by (auto simp: bs(1) buckets filter_empty_conv)
  then have "bucket_filename (hd (im_sha256 i)) \<in> mf_filename ` set files
      \<and> file_at s' (path_key dir @ [bucket_filename (hd (im_sha256 i))])
        = Some (as_bytes (bucket_contents (filter (\<lambda>j. hd (im_sha256 j) = hd (im_sha256 i)) intermediates)))"
    if "i \<in> set intermediates" for i
    using that there [of "hd (im_sha256 i)"] by (auto simp: files bucket_file_def Let_def image_iff buckets)
  moreover have "\<exists>b. file_at s' (path_key dir @ [mf_filename f]) = Some b \<and> fips_sha256 b = mf_hash f \<and> length b = mf_size f"
    if "f \<in> set files" for f
    using that there assms(2) by (auto simp: files bucket_file_def Let_def)
  moreover have "length files \<le> 256" using \<open>length bs \<le> 256\<close> by (simp add: files)
  moreover have "file_at s' (path_key dir @ [''manifest.json'']) = Some (as_bytes json)" using json(2) by (simp add: file_at_def)
  ultimately show ?thesis using send csv json(1) pem by blast
qed

theorem intermediates_published_witness:
  "\<exists>s'. intermediates_main sample_mirror ''/o'' [] (sample_out []) = (Ok (), s')
    \<and> file_at s' (path_key ''/o'' @ [bucket_filename (hd (im_sha256 sample_inter))]) = Some (as_bytes (bucket_contents [sample_inter]))"
proof -
  obtain s' where ok: "intermediates_main sample_mirror ''/o'' [] (sample_out []) = (Ok (), s')"
    using sample_intermediates by blast
  have "mw_digest sample_mirror = fips_sha256"
    "\<forall>bs. set (mw_order sample_mirror bs) = set bs \<and> (distinct bs \<longrightarrow> distinct (mw_order sample_mirror bs))"
    "mw_csv sample_mirror = (\<lambda>_. Inr [sample_inter])"
    by (simp_all add: sample_mirror_def)
  from intermediates_published [OF ok this(1,2)] this(3) ok show ?thesis by auto
qed

end
