(* ===== verification/Index_Tests.thy ===== *)
theory Index_Tests
  imports Index_Writer Fetch_Correct Mirror "HOL-Library.Countable"
begin

text \<open>
  The unit tests of \<open>upki/src/revocation/index.rs\<close>, run on the model: the index builder and the
  other helpers of the test module, and the test functions themselves. The tests have a second
  encoder of the index format; it is compared with \<open>Index::write\<close>. What a test says of a filter it
  builds with the \<open>clubcard\<close> crates is the hypothesis \<open>clubcard_ok\<close>, stated for the
  filters of the tests only, and the theorem is that every test passes.
\<close>

section \<open>Building an index\<close>

type_synonym interval = "bytes \<times> u64 \<times> u64"
type_synonym test_filter = "string \<times> interval list"

definition by_log_of :: "test_filter list \<Rightarrow> log_map" where
  "by_log_of filters = fold (\<lambda>(filter_idx, (_, entries)). add_universe filter_idx entries) (enumerate 0 filters) []"

fun test_slots :: "test_filter list \<Rightarrow> ('e, bytes list) outcome" where
  "test_slots [] = Ok []"
| "test_slots ((filename, _) # filters) =
     (if length (as_bytes filename) > FILENAME_SIZE then Panic
      else map_ok ((#) (filename_slot filename)) (test_slots filters))"

definition put_test_entry :: "nat \<Rightarrow> u16 \<times> u64 \<times> u64 \<Rightarrow> bytes" where
  "put_test_entry entry_size e =
     (case e of (filter_idx, min_ts, max_ts) \<Rightarrow>
        (if entry_size = ENTRY_SIZE_V0 then [ucast filter_idx] else to_be_bytes filter_idx)
        @ to_be_bytes min_ts @ to_be_bytes max_ts)"

definition build_index_with_magic :: "bytes \<Rightarrow> test_filter list \<Rightarrow> ('e, bytes) outcome" where
  "build_index_with_magic magic filters =
     (let (base_size, entry_size) =
            (if magic = INDEX_MAGIC_V0 then (HEADER_SIZE_V0, ENTRY_SIZE_V0) else (HEADER_SIZE_V1, ENTRY_SIZE_V1));
          by_log_id = by_log_of filters;
          header_size = base_size + length filters * FILENAME_SIZE + length by_log_id * LOG_DIR_ENTRY_SIZE
      in obind (test_slots filters) (\<lambda>slots.
           Ok (magic
             @ (if entry_size = ENTRY_SIZE_V0 then [of_nat (length filters)]
                else to_be_bytes (of_nat (length filters) :: u16))
             @ to_be_bytes (of_nat (length by_log_id) :: u32)
             @ concat slots
             @ concat (map put_dir_entry (dir_entries entry_size header_size by_log_id))
             @ concat (map (\<lambda>(_, entries). concat (map (put_test_entry entry_size) entries)) by_log_id))))"

definition build_index :: "test_filter list \<Rightarrow> ('e, bytes) outcome" where
  "build_index filters = build_index_with_magic INDEX_MAGIC_V1 filters"

definition build_index_v0 :: "test_filter list \<Rightarrow> ('e, bytes) outcome" where
  "build_index_v0 filters = build_index_with_magic INDEX_MAGIC_V0 filters"

lemma test_slots_eq:
  "test_slots filters =
     (if list_all (\<lambda>f. length (fst f) \<le> FILENAME_SIZE) filters then Ok (map (\<lambda>f. filename_slot (fst f)) filters) else Panic)"
  by (induction filters rule: test_slots.induct) auto

lemma to_be_bytes_u8: "to_be_bytes (w :: u8) = [w]"
  by (simp add: to_be_bytes_def)

lemma map_put_test_entry:
  assumes "es = ENTRY_SIZE_V0 \<or> es = ENTRY_SIZE_V1"
  shows "map (put_test_entry es) entries = map (\<lambda>e. put_entry es (number_entry e)) entries"
  using assms entry_sizes_neq
  by (auto simp: put_test_entry_def put_entry_def put_entry_v1_def put_entry_v0_def number_entry_def to_be_bytes_u8)

text \<open>The bytes of the test builder are an encoding of the directory it collects.\<close>

lemma build_index_encoded:
  assumes "es = ENTRY_SIZE_V0 \<or> es = ENTRY_SIZE_V1"
  shows "build_index_with_magic (magic_of es) filters =
    (if list_all (\<lambda>f. length (fst f) \<le> FILENAME_SIZE) filters
     then Ok (encode_index es (map fst filters) (number_entries (by_log_of filters))) else Panic)"
proof -
  have sections: "concat (map (put_section es) (number_entries m))
      = concat (map (\<lambda>(_, entries). concat (map (put_test_entry es) entries)) m)" for m
    by (induction m) (auto simp: number_entries_def put_section_def comp_def map_put_test_entry [OF assms])
  have "length (number_entries m) = length m" for m by (simp add: number_entries_def)
  then show ?thesis using assms entry_sizes_neq
    by (auto simp: build_index_with_magic_def test_slots_eq encode_index_def index_tables_def magic_of_def put_count_def
        header_size_of_def sections to_be_bytes_u8 dir_entries_number Let_def comp_def)
qed

section \<open>The helpers of the tests\<close>

definition SERIAL :: bytes where
  "SERIAL = [1, 2, 3]"

definition test_config :: "path \<Rightarrow> config" where
  "test_config dir = \<lparr>cfg_cache_dir = dir, cfg_revocation = revocation_config_default\<rparr>"

definition multi_sct_input :: "(bytes \<times> u64) list \<Rightarrow> ('e, revocation_check_input) outcome" where
  "multi_sct_input scts =
     input_new SERIAL (replicate 32 0xaa) (map (\<lambda>(log_id, timestamp). \<lparr>ct_log_id = log_id, ct_time = timestamp\<rparr>) scts)"

definition test_input :: "('e, revocation_check_input) outcome" where
  "test_input = input_new SERIAL (replicate 32 0xaa) [\<lparr>ct_log_id = replicate 32 0xbb, ct_time = 1000\<rparr>]"

definition write_file :: "path \<Rightarrow> string \<Rightarrow> bytes \<Rightarrow> fs \<Rightarrow> ('e, fs) outcome" where
  "write_file dir name data s =
     (let revocation_dir = path_join dir ''revocation'' in
      case fs_create_dir_all revocation_dir s of
        (Ok _, s1) \<Rightarrow>
          (case fs_write 0 (path_join revocation_dir name) data s1 of
             (Ok _, s2) \<Rightarrow> Ok s2
           | _ \<Rightarrow> Panic)
      | _ \<Rightarrow> Panic)"

text \<open>
  The builder of the \<open>clubcard\<close> crates is an argument: it takes the approximate and exact ribbons and
  the coverage (handed over as a JSON text, which is left out) and gives the bytes of a filter.
\<close>

datatype builder_item = RevokedItem bytes bytes | NotRevokedItem bytes bytes

record ribbon =
  rb_block :: bytes
  rb_items :: "builder_item list"
  rb_universe :: "nat option"

type_synonym clubcard_builder = "ribbon list \<Rightarrow> ribbon list \<Rightarrow> interval list \<Rightarrow> string + bytes"

definition build_filter ::
  "clubcard_builder \<Rightarrow> bytes \<Rightarrow> bytes list \<Rightarrow> bytes list \<Rightarrow> interval list \<Rightarrow> ('e, bytes) outcome" where
  "build_filter cb issuer revoked unrevoked coverage =
     (let universe_size = 2 ^ 8;
          approx = \<lparr>rb_block = issuer, rb_items = map (RevokedItem issuer) revoked, rb_universe = Some universe_size\<rparr>;
          exact = \<lparr>rb_block = issuer,
            rb_items = map (RevokedItem issuer) revoked @ map (NotRevokedItem issuer) unrevoked
              @ map (\<lambda>j. NotRevokedItem issuer (rev (to_be_bytes (of_nat j :: u64)))) [0..<universe_size],
            rb_universe = None\<rparr>
      in case cb [approx] [exact] coverage of Inr bytes \<Rightarrow> Ok bytes | Inl _ \<Rightarrow> Panic)"

section \<open>The tests\<close>

text \<open>
  Most tests have the same course: filters are built and written to the cache, an index is built and
  written, it is loaded and a certificate is checked, and the verdict is compared. A test passes when
  it ends with \<open>Ok\<close>; an assertion or \<open>unwrap\<close> that fails is a panic.
\<close>

type_synonym filter_spec = "bytes \<times> bytes list \<times> bytes list \<times> interval list"

fun write_filters :: "clubcard_builder \<Rightarrow> path \<Rightarrow> (string \<times> filter_spec) list \<Rightarrow> fs \<Rightarrow> ('e, fs) outcome" where
  "write_filters cb dir [] s = Ok s"
| "write_filters cb dir ((name, issuer, revoked, unrevoked, coverage) # filters) s =
     obind (build_filter cb issuer revoked unrevoked coverage) (\<lambda>filter.
     obind (write_file dir name filter s) (write_filters cb dir filters))"

definition check_from_cache ::
  "'c crlite \<Rightarrow> config \<Rightarrow> fs \<Rightarrow> revocation_check_input \<Rightarrow> (rev_error, revocation_status) outcome" where
  "check_from_cache cl config s input = obind (from_cache config s) (\<lambda>ix. map_ok fst (check cl s ix input))"

definition verdict_test ::
  "clubcard_builder \<Rightarrow> 'c crlite \<Rightarrow> path \<Rightarrow> fs \<Rightarrow> (string \<times> filter_spec) list \<Rightarrow> (rev_error, bytes) outcome
   \<Rightarrow> (rev_error, revocation_check_input) outcome \<Rightarrow> revocation_status \<Rightarrow> (rev_error, unit) outcome" where
  "verdict_test cb cl dir s filters index input expected =
     (let config = test_config dir in
      obind (write_filters cb dir filters s) (\<lambda>s.
      obind index (\<lambda>data.
      obind (write_file dir INDEX_BIN data s) (\<lambda>s.
      obind input (\<lambda>input.
      obind (check_from_cache cl config s input) (\<lambda>status.
        assert_that (status = expected)))))))"

fun is_index_decode :: "rev_error \<Rightarrow> bool" where
  "is_index_decode (IndexDecode _) = True"
| "is_index_decode _ = False"

fun is_file_read :: "rev_error \<Rightarrow> bool" where
  "is_file_read (FileRead _ _) = True"
| "is_file_read _ = False"

text \<open>\<open>Result::unwrap_err\<close>.\<close>

fun unwrap_err :: "('e, 'a) outcome \<Rightarrow> ('f, 'e) outcome" where
  "unwrap_err (Err e) = Ok e"
| "unwrap_err _ = Panic"

definition rejected_test :: "path \<Rightarrow> bytes \<Rightarrow> fs \<Rightarrow> (rev_error, unit) outcome" where
  "rejected_test dir data s =
     obind (write_file dir INDEX_BIN data s) (\<lambda>s.
     obind (unwrap_err (from_cache (test_config dir) s)) (\<lambda>err. assert_that (is_index_decode err)))"

type_synonym 'c index_test = "clubcard_builder \<Rightarrow> 'c crlite \<Rightarrow> path \<Rightarrow> fs \<Rightarrow> (rev_error, unit) outcome"

abbreviation log_a :: bytes where "log_a \<equiv> replicate 32 0xb1"
abbreviation log_b :: bytes where "log_b \<equiv> replicate 32 0xb2"
abbreviation log_bb :: bytes where "log_bb \<equiv> replicate 32 0xbb"
abbreviation our_issuer :: bytes where "our_issuer \<equiv> replicate 32 0xaa"
abbreviation other_issuer :: bytes where "other_issuer \<equiv> replicate 32 0xcc"

definition check_empty_index :: "'c index_test" where
  "check_empty_index cb cl dir s =
     verdict_test cb cl dir s [] (build_index []) test_input NotCoveredByRevocationData"

definition check_no_matching_log_id :: "'c index_test" where
  "check_no_matching_log_id cb cl dir s =
     verdict_test cb cl dir s [] (build_index [(''test.filter'', [(replicate 32 0xcc, 500, 1500)])])
       test_input NotCoveredByRevocationData"

definition check_no_matching_timestamp_range :: "'c index_test" where
  "check_no_matching_timestamp_range cb cl dir s =
     verdict_test cb cl dir s [] (build_index [(''test.filter'', [(log_bb, 2000, 3000)])])
       test_input NotCoveredByRevocationData"

definition invalid_magic :: "'c index_test" where
  "invalid_magic cb cl dir s = rejected_test dir (as_bytes ''wrongmag'' @ [0, 0, 0, 0, 0]) s"

definition truncated_after_magic :: "'c index_test" where
  "truncated_after_magic cb cl dir s = rejected_test dir INDEX_MAGIC_V1 s"

definition truncated_before_magic :: "'c index_test" where
  "truncated_before_magic cb cl dir s = rejected_test dir (as_bytes ''upki'') s"

definition oversized_table_counts :: "'c index_test" where
  "oversized_table_counts cb cl dir s =
     rejected_test dir (INDEX_MAGIC_V1 @ to_be_bytes (- 1 :: u16) @ to_be_bytes (- 1 :: u32)) s"

definition missing_index :: "'c index_test" where
  "missing_index cb cl dir s =
     obind (unwrap_err (from_cache (test_config dir) s)) (\<lambda>err. assert_that (is_file_read err))"

definition check_single_filter_revoked :: "'c index_test" where
  "check_single_filter_revoked cb cl dir s =
     verdict_test cb cl dir s [(''f0.filter'', our_issuer, [SERIAL], [], [(log_bb, 0, 2000)])]
       (build_index [(''f0.filter'', [(log_bb, 0, 2000)])]) test_input CertainlyRevoked"

definition check_single_filter_not_revoked :: "'c index_test" where
  "check_single_filter_not_revoked cb cl dir s =
     verdict_test cb cl dir s [(''f0.filter'', our_issuer, [[9, 9, 9]], [SERIAL], [(log_bb, 0, 2000)])]
       (build_index [(''f0.filter'', [(log_bb, 0, 2000)])]) test_input NotRevoked"

definition check_continues_past_not_enrolled_to_revoked :: "'c index_test" where
  "check_continues_past_not_enrolled_to_revoked cb cl dir s =
     verdict_test cb cl dir s
       [(''f0.filter'', other_issuer, [[7, 7]], [], [(log_a, 0, 2000)]),
        (''f1.filter'', our_issuer, [SERIAL], [], [(log_b, 0, 2000)])]
       (build_index [(''f0.filter'', [(log_a, 0, 2000)]),
        (''f1.filter'', [(log_b, 0, 2000)])])
       (multi_sct_input [(log_a, 1000), (log_b, 1000)]) CertainlyRevoked"

definition check_continues_past_not_enrolled_to_not_revoked :: "'c index_test" where
  "check_continues_past_not_enrolled_to_not_revoked cb cl dir s =
     verdict_test cb cl dir s
       [(''f0.filter'', other_issuer, [[7, 7]], [], [(log_a, 0, 2000)]),
        (''f1.filter'', our_issuer, [[9, 9, 9]], [SERIAL], [(log_b, 0, 2000)])]
       (build_index [(''f0.filter'', [(log_a, 0, 2000)]),
        (''f1.filter'', [(log_b, 0, 2000)])])
       (multi_sct_input [(log_a, 1000), (log_b, 1000)]) NotRevoked"

definition check_all_filters_not_enrolled :: "'c index_test" where
  "check_all_filters_not_enrolled cb cl dir s =
     verdict_test cb cl dir s
       [(''f0.filter'', other_issuer, [[7, 7]], [], [(log_a, 0, 2000)]),
        (''f1.filter'', (replicate 32 0xdd), [[8, 8]], [], [(log_b, 0, 2000)])]
       (build_index [(''f0.filter'', [(log_a, 0, 2000)]),
        (''f1.filter'', [(log_b, 0, 2000)])])
       (multi_sct_input [(log_a, 1000), (log_b, 1000)]) NotCoveredByRevocationData"

definition check_stops_at_first_revoked :: "'c index_test" where
  "check_stops_at_first_revoked cb cl dir s =
     verdict_test cb cl dir s
       [(''f0.filter'', our_issuer, [SERIAL], [], [(log_a, 0, 2000)])]
       (build_index [(''f0.filter'', [(log_a, 0, 2000)]),
        (''f1.filter'', [(log_b, 0, 2000)])])
       (multi_sct_input [(log_a, 1000), (log_b, 1000)]) CertainlyRevoked"

definition check_continues_past_not_revoked_to_revoked :: "'c index_test" where
  "check_continues_past_not_revoked_to_revoked cb cl dir s =
     verdict_test cb cl dir s
       [(''f0.filter'', our_issuer, [[9, 9, 9]], [SERIAL], [(log_a, 0, 2000)]),
        (''f1.filter'', our_issuer, [SERIAL], [], [(log_b, 0, 2000)])]
       (build_index [(''f0.filter'', [(log_a, 0, 2000)]),
        (''f1.filter'', [(log_b, 0, 2000)])])
       (multi_sct_input [(log_a, 1000), (log_b, 1000)]) CertainlyRevoked"

definition check_multiple_filters_same_log_revoked :: "'c index_test" where
  "check_multiple_filters_same_log_revoked cb cl dir s =
     verdict_test cb cl dir s
       [(''f0.filter'', other_issuer, [[7, 7]], [], [(log_a, 0, 2000)]),
        (''f1.filter'', our_issuer, [SERIAL], [], [(log_a, 0, 2000)])]
       (build_index [(''f0.filter'', [(log_a, 0, 2000)]),
        (''f1.filter'', [(log_a, 0, 2000)])])
       (multi_sct_input [(log_a, 1000)]) CertainlyRevoked"

definition check_multiple_filters_same_log_not_revoked :: "'c index_test" where
  "check_multiple_filters_same_log_not_revoked cb cl dir s =
     verdict_test cb cl dir s
       [(''f0.filter'', other_issuer, [[7, 7]], [], [(log_a, 0, 2000)]),
        (''f1.filter'', our_issuer, [[9, 9, 9]], [SERIAL], [(log_a, 0, 2000)])]
       (build_index [(''f0.filter'', [(log_a, 0, 2000)]),
        (''f1.filter'', [(log_a, 0, 2000)])])
       (multi_sct_input [(log_a, 1000)]) NotRevoked"

definition check_later_timestamp_entry_same_log_revoked :: "'c index_test" where
  "check_later_timestamp_entry_same_log_revoked cb cl dir s =
     verdict_test cb cl dir s
       [(''f0.filter'', other_issuer, [[7, 7]], [], [(log_a, 2000, 3000)]),
        (''f1.filter'', our_issuer, [SERIAL], [], [(log_a, 0, 2000)])]
       (build_index [(''f0.filter'', [(log_a, 2000, 3000)]),
        (''f1.filter'', [(log_a, 0, 2000)])])
       (multi_sct_input [(log_a, 1000)]) CertainlyRevoked"

definition check_later_timestamp_entry_same_log_not_revoked :: "'c index_test" where
  "check_later_timestamp_entry_same_log_not_revoked cb cl dir s =
     verdict_test cb cl dir s
       [(''f0.filter'', other_issuer, [[7, 7]], [], [(log_a, 2000, 3000)]),
        (''f1.filter'', our_issuer, [[9, 9, 9]], [SERIAL], [(log_a, 0, 2000)])]
       (build_index [(''f0.filter'', [(log_a, 2000, 3000)]),
        (''f1.filter'', [(log_a, 0, 2000)])])
       (multi_sct_input [(log_a, 1000)]) NotRevoked"

definition check_skips_non_matching_entry_without_loading_filter :: "'c index_test" where
  "check_skips_non_matching_entry_without_loading_filter cb cl dir s =
     verdict_test cb cl dir s
       [(''f1.filter'', our_issuer, [SERIAL], [], [(log_a, 0, 2000)])]
       (build_index [(''f0.filter'', [(log_a, 2000, 3000)]),
        (''f1.filter'', [(log_a, 0, 2000)])])
       (multi_sct_input [(log_a, 1000)]) CertainlyRevoked"

definition check_skips_queried_filter_but_not_later_filters :: "'c index_test" where
  "check_skips_queried_filter_but_not_later_filters cb cl dir s =
     verdict_test cb cl dir s
       [(''f0.filter'', other_issuer, [[7, 7]], [], [(log_a, 0, 2000), (log_b, 0, 2000)]),
        (''f1.filter'', our_issuer, [SERIAL], [], [(log_b, 0, 2000)])]
       (build_index [(''f0.filter'', [(log_a, 0, 2000), (log_b, 0, 2000)]),
        (''f1.filter'', [(log_b, 0, 2000)])])
       (multi_sct_input [(log_a, 1000), (log_b, 1000)]) CertainlyRevoked"

definition check_single_filter_covering_multiple_scts_not_revoked :: "'c index_test" where
  "check_single_filter_covering_multiple_scts_not_revoked cb cl dir s =
     verdict_test cb cl dir s
       [(''f0.filter'', our_issuer, [[9, 9, 9]], [SERIAL], [(log_a, 0, 2000), (log_b, 0, 2000)])]
       (build_index [(''f0.filter'', [(log_a, 0, 2000), (log_b, 0, 2000)])])
       (multi_sct_input [(log_a, 1000), (log_b, 1000)]) NotRevoked"

definition check_v0_index_revoked :: "'c index_test" where
  "check_v0_index_revoked cb cl dir s =
     verdict_test cb cl dir s
       [(''f0.filter'', other_issuer, [[7, 7]], [], [(log_a, 0, 2000)]),
        (''f1.filter'', our_issuer, [SERIAL], [], [(log_b, 0, 2000)])]
       (build_index_v0 [(''f0.filter'', [(log_a, 0, 2000)]),
        (''f1.filter'', [(log_b, 0, 2000)])])
       (multi_sct_input [(log_a, 1000), (log_b, 1000)]) CertainlyRevoked"

definition check_v0_index_not_revoked :: "'c index_test" where
  "check_v0_index_not_revoked cb cl dir s =
     verdict_test cb cl dir s
       [(''f0.filter'', our_issuer, [[9, 9, 9]], [SERIAL], [(log_bb, 0, 2000)])]
       (build_index_v0 [(''f0.filter'', [(log_bb, 0, 2000)])])
       test_input NotRevoked"

definition check_empty_v0_index :: "'c index_test" where
  "check_empty_v0_index cb cl dir s =
     verdict_test cb cl dir s [] (build_index_v0 []) test_input NotCoveredByRevocationData"

definition check_filter_index_out_of_bounds :: "'c index_test" where
  "check_filter_index_out_of_bounds cb cl dir s =
     obind (build_index [(''f0.filter'', [(log_bb, 0, 2000)])]) (\<lambda>data.
     obind (usize_sub (length data) ENTRY_SIZE_V1) (\<lambda>entry_offset.
     obind (copy_at entry_offset (to_be_bytes (500 :: u16)) data) (\<lambda>data.
     obind (write_file dir INDEX_BIN data s) (\<lambda>s.
     obind test_input (\<lambda>input.
     case from_cache (test_config dir) s of
       Ok ix \<Rightarrow> obind (unwrap_err (check cl s ix input)) (\<lambda>err. assert_that (is_index_decode err))
     | _ \<Rightarrow> Panic)))))"

section \<open>A temporary directory\<close>

text \<open>A fresh directory and no I/O failures; \<open>files\<close> are the files written to the cache so far.\<close>

definition tempdir :: "path \<Rightarrow> fs \<Rightarrow> bool" where
  "tempdir dir s \<longleftrightarrow> (\<forall>op k. fs_fault s op k = None)
     \<and> (\<forall>q \<in> set (prefix_keys (path_key dir)). node_at s q = Some Dir)
     \<and> (\<forall>k. k \<noteq> [] \<longrightarrow> node_at s (path_key dir @ k) = None)"

definition cache_holds :: "path \<Rightarrow> (string \<times> bytes) list \<Rightarrow> fs \<Rightarrow> bool" where
  "cache_holds dir files s \<longleftrightarrow> (\<forall>op k. fs_fault s op k = None)
     \<and> (\<forall>q \<in> set (prefix_keys (path_key dir)). node_at s q = Some Dir)
     \<and> node_at s (path_key dir @ [''revocation'']) \<in> {None, Some Dir}
     \<and> (\<forall>n. node_at s (path_key dir @ [''revocation'', n]) = map_option File (map_of files n))"

lemma tempdir_holds: "tempdir dir s \<Longrightarrow> cache_holds dir [] s"
  by (simp add: tempdir_def cache_holds_def)

lemma prefix_keys_snoc: "prefix_keys (k @ [n]) = prefix_keys k @ [k @ [n]]"
  by (induction k) auto

lemma plain_revocation: "plain_name ''revocation''"
  by (simp add: plain_name_def)

lemma create_cache_dir:
  assumes "cache_holds dir files s"
  obtains s1 where "fs_create_dir_all (path_join dir ''revocation'') s = (Ok (), s1)" "fs_fault s1 = fs_fault s"
    "\<And>q. node_at s1 q = (if q = path_key dir @ [''revocation''] \<or> q \<in> set (prefix_keys (path_key dir)) then Some Dir
       else node_at s q)"
proof -
  let ?r = "path_key dir @ [''revocation'']"
  have "\<forall>q \<in> set (prefix_keys (path_key (path_join dir ''revocation''))). file_at s q = None \<and> fs_fault s OpCreateDir q = None"
    using assms by (auto simp: cache_holds_def prefix_keys_snoc file_at_def path_key_join plain_revocation)
  then obtain s1 where "fs_create_dir_all (path_join dir ''revocation'') s = (Ok (), s1)" "fs_fault s1 = fs_fault s"
    "\<And>q. node_at s1 q = (if q \<in> set (prefix_keys ?r) then Some Dir else node_at s q)"
    by (rule create_dir_Ok) (auto simp: path_key_join plain_revocation)
  then show thesis by (intro that [of s1]) (simp_all add: prefix_keys_snoc disj_commute)
qed

lemma write_file_holds:
  assumes holds: "cache_holds dir files s" and "plain_name n"
  shows "\<exists>s'. write_file dir n data s = Ok s' \<and> cache_holds dir ((n, data) # files) s'"
proof -
  let ?d = "path_key dir" and ?k = "path_key dir @ [''revocation'', n]" and ?rd = "path_join dir ''revocation''"
  from create_cache_dir [OF holds] obtain s1 where create: "fs_create_dir_all ?rd s = (Ok (), s1)"
    and s1: "fs_fault s1 = fs_fault s" "\<And>q. node_at s1 q = (if q = ?d @ [''revocation''] \<or> q \<in> set (prefix_keys ?d) then Some Dir
       else node_at s q)"
    by blast
  have key: "path_key (path_join ?rd n) = ?k"
    using assms(2) by (simp add: path_key_join plain_revocation)
  have out: "?d @ [''revocation'', x] \<notin> set (prefix_keys ?d)" for x
    using prefix_keys_length [of "?d @ [''revocation'', x]" ?d] by auto
  have "node_at s1 ?k \<noteq> Some Dir" "node_at s1 (butlast ?k) = Some Dir"
    using holds out by (auto simp: s1(2) cache_holds_def butlast_append)
  then have "fs_write 0 (path_join ?rd n) data s1 = (Ok (), set_node ?k (File data) s1)"
    using holds by (simp add: fs_write_def Let_def key s1(1) cache_holds_def)
  then have "write_file dir n data s = Ok (set_node ?k (File data) s1)"
    by (simp add: write_file_def Let_def create)
  moreover have "cache_holds dir ((n, data) # files) (set_node ?k (File data) s1)"
    using holds out by (auto simp: cache_holds_def s1)
  ultimately show ?thesis by blast
qed

lemma test_cache_key: "plain_name n \<Longrightarrow> path_key (path_join (revocation_cache_dir (test_config dir)) n)
    = path_key dir @ [''revocation'', n]"
  by (simp add: test_config_def path_key_join path_key_revocation_cache_dir)

lemma cache_holds_read:
  assumes "cache_holds dir files s" and "plain_name n"
  shows "map_of files n = Some b \<Longrightarrow> fs_read s (path_join (revocation_cache_dir (test_config dir)) n) = Ok b"
    and "map_of files n = Some b \<Longrightarrow> readable_file s (path_join (revocation_cache_dir (test_config dir)) n) b"
    and "map_of files n = None \<Longrightarrow> file_open s (path_join (revocation_cache_dir (test_config dir)) n) = Err NotFound"
  using assms by (simp_all add: fs_read_def readable_file_def file_open_def test_cache_key cache_holds_def)

section \<open>Filters built by the crates\<close>

text \<open>
  What the crates document of a filter built from exact items of one issuer with no item both revoked and not
  revoked: it decodes, and for a certificate with an SCT it covers it answers by issuer and serial.
\<close>

definition key_ok :: "crlite_key \<Rightarrow> bool" where
  "key_ok key \<longleftrightarrow> key_hash key = fips_sha256 (key_issuer key @ key_serial key)"

definition answers_items :: "'c crlite \<Rightarrow> 'c \<Rightarrow> bytes \<Rightarrow> builder_item list \<Rightarrow> interval list \<Rightarrow> bool" where
  "answers_items cl c issuer items coverage \<longleftrightarrow>
     (\<forall>key ts. key_ok key \<and> list_ex (in_universe coverage) ts \<longrightarrow>
        (key_issuer key \<noteq> issuer \<longrightarrow> cl_contains cl c key ts = NotEnrolled)
        \<and> (key_issuer key = issuer \<and> RevokedItem issuer (key_serial key) \<in> set items \<longrightarrow> cl_contains cl c key ts = Revoked)
        \<and> (key_issuer key = issuer \<and> NotRevokedItem issuer (key_serial key) \<in> set items \<longrightarrow> cl_contains cl c key ts = Good))"

text \<open>
  The filters that the tests build: one revoked serial and at most one that is not, both shorter than
  the eight bytes of the serials that fill the universe, and one or two intervals of different logs.
\<close>

definition spec_ok :: "filter_spec \<Rightarrow> bool" where
  "spec_ok spec \<longleftrightarrow>
     (case spec of (issuer, revoked, unrevoked, coverage) \<Rightarrow>
        length issuer = 32 \<and> length revoked = 1 \<and> length unrevoked \<le> 1
        \<and> list_all (\<lambda>x. length x < 8) (revoked @ unrevoked) \<and> list_all (\<lambda>x. x \<notin> set unrevoked) revoked
        \<and> coverage \<noteq> [] \<and> length coverage \<le> 2 \<and> distinct (map fst coverage)
        \<and> list_all (\<lambda>(log_id, low, high). length log_id = 32 \<and> low \<le> high) coverage)"

text \<open>
  The promise that \<open>build_filter\<close> relies on, for these filters only: with the universe of 256 serials
  filled as it is there, a filter can be built and decoded; it does not enrol other issuers, and it
  answers exactly for the serials that were put into it, when a timestamp is covered.
\<close>

definition clubcard_ok :: "clubcard_builder \<Rightarrow> 'c crlite \<Rightarrow> bool" where
  "clubcard_ok cb cl \<longleftrightarrow>
     (\<forall>issuer revoked unrevoked coverage. spec_ok (issuer, revoked, unrevoked, coverage) \<longrightarrow>
        (let items = map (RevokedItem issuer) revoked @ map (NotRevokedItem issuer) unrevoked
               @ map (\<lambda>j. NotRevokedItem issuer (rev (to_be_bytes (of_nat j :: u64)))) [0..<2 ^ 8] in
         \<exists>b c. cb [\<lparr>rb_block = issuer, rb_items = map (RevokedItem issuer) revoked, rb_universe = Some (2 ^ 8)\<rparr>]
                   [\<lparr>rb_block = issuer, rb_items = items, rb_universe = None\<rparr>] coverage = Inr b
           \<and> cl_from_bytes cl b = Inr c \<and> answers_items cl c issuer items coverage))"

text \<open>What a test can rely on of a filter it builds.\<close>

definition filter_bytes_ok :: "'c crlite \<Rightarrow> filter_spec \<Rightarrow> bytes \<Rightarrow> bool" where
  "filter_bytes_ok cl spec b \<longleftrightarrow>
     (case spec of (issuer, revoked, unrevoked, coverage) \<Rightarrow>
        \<exists>c. cl_from_bytes cl b = Inr c \<and>
          (\<forall>key ts. key_ok key \<and> list_ex (in_universe coverage) ts \<longrightarrow>
             (key_issuer key \<noteq> issuer \<longrightarrow> cl_contains cl c key ts = NotEnrolled)
             \<and> (key_issuer key = issuer \<and> key_serial key \<in> set revoked \<longrightarrow> cl_contains cl c key ts = Revoked)
             \<and> (key_issuer key = issuer \<and> key_serial key \<in> set unrevoked \<longrightarrow> cl_contains cl c key ts = Good)))"

lemma build_filter_ok:
  assumes "clubcard_ok cb cl" and "spec_ok (issuer, revoked, unrevoked, coverage)"
  shows "\<exists>b. build_filter cb issuer revoked unrevoked coverage = Ok b
    \<and> filter_bytes_ok cl (issuer, revoked, unrevoked, coverage) b"
proof -
  let ?items = "map (RevokedItem issuer) revoked @ map (NotRevokedItem issuer) unrevoked
      @ map (\<lambda>j. NotRevokedItem issuer (rev (to_be_bytes (of_nat j :: u64)))) [0..<2 ^ 8]"
  from assms obtain b c where b: "cb [\<lparr>rb_block = issuer, rb_items = map (RevokedItem issuer) revoked, rb_universe = Some (2 ^ 8)\<rparr>]
      [\<lparr>rb_block = issuer, rb_items = ?items, rb_universe = None\<rparr>] coverage = Inr b"
    and c: "cl_from_bytes cl b = Inr c" "answers_items cl c issuer ?items coverage"
    unfolding clubcard_ok_def Let_def by blast
  have "build_filter cb issuer revoked unrevoked coverage = Ok b"
    unfolding build_filter_def Let_def using b by simp
  moreover have "filter_bytes_ok cl (issuer, revoked, unrevoked, coverage) b"
    using c unfolding filter_bytes_ok_def answers_items_def by fastforce
  ultimately show ?thesis by blast
qed

lemma write_filters_ok:
  assumes "clubcard_ok cb cl"
  shows "cache_holds dir files s \<Longrightarrow> distinct (map fst filters) \<Longrightarrow>
    list_all (\<lambda>(n, spec). plain_name n \<and> spec_ok spec) filters \<Longrightarrow>
    \<exists>s' files'. write_filters cb dir filters s = Ok s' \<and> cache_holds dir files' s'
      \<and> (\<forall>n. n \<notin> fst ` set filters \<longrightarrow> map_of files' n = map_of files n)
      \<and> (\<forall>n spec. map_of filters n = Some spec \<longrightarrow> (\<exists>b. map_of files' n = Some b \<and> filter_bytes_ok cl spec b))"
proof (induction filters arbitrary: files s)
  case Nil
  then show ?case by auto
next
  case (Cons x filters)
  obtain n issuer revoked unrevoked coverage where x: "x = (n, issuer, revoked, unrevoked, coverage)" by (cases x)
  from Cons.prems(3) x build_filter_ok [OF assms] obtain b where
    b: "build_filter cb issuer revoked unrevoked coverage = (Ok b :: ('b, bytes) outcome)"
      "filter_bytes_ok cl (issuer, revoked, unrevoked, coverage) b"
    by fastforce
  from Cons.prems(1,3) x obtain s1 where s1: "write_file dir n b s = (Ok s1 :: ('b, fs) outcome)" "cache_holds dir ((n, b) # files) s1"
    using write_file_holds [of dir files s n b] by auto
  from Cons.IH [OF s1(2)] Cons.prems(2,3) obtain s' files' where
    "write_filters cb dir filters s1 = (Ok s' :: ('b, fs) outcome)" "cache_holds dir files' s'"
    "\<forall>m. m \<notin> fst ` set filters \<longrightarrow> map_of files' m = map_of ((n, b) # files) m"
    "\<forall>m spec. map_of filters m = Some spec \<longrightarrow> (\<exists>b. map_of files' m = Some b \<and> filter_bytes_ok cl spec b)"
    by auto
  then show ?case using b s1(1) x Cons.prems(2)
    by (intro exI [of _ s'] exI [of _ files']) (auto simp: image_iff)
qed

section \<open>Evaluating a test\<close>

text \<open>
  A test with a verdict is decided without the bytes: the answer of each filter that covers the
  certificate follows from its description, and the verdict from the answers.
\<close>

definition test_answer :: "(bytes \<times> u64) list \<Rightarrow> filter_spec \<Rightarrow> crlite_status option" where
  "test_answer scts spec =
     (case spec of (issuer, revoked, unrevoked, coverage) \<Rightarrow>
        if \<not> list_ex (in_universe coverage) scts then None
        else if issuer \<noteq> our_issuer then Some NotEnrolled
        else if SERIAL \<in> set revoked then Some Revoked
        else if SERIAL \<in> set unrevoked then Some Good
        else None)"

fun decide :: "(nat \<Rightarrow> crlite_status option) \<Rightarrow> nat list \<Rightarrow> bool list \<Rightarrow> bool \<Rightarrow> revocation_status option" where
  "decide a [] seen good = Some (if good then NotRevoked else NotCoveredByRevocationData)"
| "decide a (i # is) seen good =
     (if seen ! i then decide a is seen good
      else case a i of
        None \<Rightarrow> None
      | Some Revoked \<Rightarrow> Some CertainlyRevoked
      | Some st \<Rightarrow> decide a is (seen[i := True]) (good \<or> st = Good))"

lemma decide_consult:
  "decide a is seen good = Some st \<Longrightarrow> (\<And>i ans. i \<in> set is \<Longrightarrow> a i = Some ans \<Longrightarrow> q i = Ok ans) \<Longrightarrow>
   map_ok verdict (consult q is seen good) = Ok st"
proof (induction a "is" seen good rule: decide.induct)
  case (2 a i "is" seen good)
  show ?case
  proof (cases "seen ! i")
    case True
    with 2 show ?thesis by simp
  next
    case False
    with "2.prems"(1) obtain ans where ans: "a i = Some ans" by (auto split: option.splits)
    with "2.prems"(2) have "q i = Ok ans" by simp
    with False ans 2 show ?thesis by (cases ans) simp_all
  qed
qed simp

definition directory_of :: "test_filter list \<Rightarrow> entry list btree_map" where
  "directory_of idx = number_entries (by_log_of idx)"

definition small_encodable :: "nat \<Rightarrow> string list \<Rightarrow> entry list btree_map \<Rightarrow> bool" where
  "small_encodable es names dir \<longleftrightarrow>
     length names < 9 \<and> length dir < 9
     \<and> list_all (\<lambda>n. plain_name n \<and> rust_str n \<and> length n \<le> FILENAME_SIZE \<and> 0 \<notin> set (as_bytes n)) names
     \<and> sorted_wrt (<) (map fst dir)
     \<and> list_all (\<lambda>(k, entries). length k = 32 \<and> length entries < 9
          \<and> list_all (\<lambda>e. fst e < length names) entries) dir"

lemma length_concat_le: "(\<And>x. x \<in> set xs \<Longrightarrow> length (f x) \<le> n) \<Longrightarrow> length (concat (map f xs)) \<le> length xs * n"
  by (induction xs) (auto, use add_mono in blast)

lemma small_encodable_length:
  assumes "es = ENTRY_SIZE_V0 \<or> es = ENTRY_SIZE_V1" and "small_encodable es names dir"
  shows "length (encode_index es names dir) < 2 ^ 32"
proof -
  have "length (filename_slot n) \<le> 32" if "n \<in> set names" for n
    using assms(2) that by (auto simp: small_encodable_def list_all_iff layout_simps layout_consts)
  then have slots: "length (concat (map filename_slot names)) \<le> length names * 32" by (rule length_concat_le)
  have "length (put_dir_entry e) \<le> 42" if "e \<in> set (dir_entries es off dir)" for e off
  proof -
    have "fst e \<in> set (map fst (dir_entries es off dir))" using that by simp
    then have "fst e \<in> set (map fst dir)" by (simp only: dir_entries_map)
    then have "length (fst e) = 32" using assms(2) by (auto simp: small_encodable_def list_all_iff)
    then show ?thesis by (cases e) (simp add: put_dir_entry_def)
  qed
  then have dirs: "length (concat (map put_dir_entry (dir_entries es off dir))) \<le> length dir * 42" for off
    using length_concat_le [of "dir_entries es off dir" put_dir_entry 42] by (simp add: dir_entries_map)
  have "length (put_entry es e) \<le> 18" for e
    by (cases e) (simp add: put_entry_def put_entry_v0_def put_entry_v1_def)
  then have "length (put_section es d) \<le> length (snd d) * 18" for d
    unfolding put_section_def by (rule length_concat_le)
  moreover have "length (snd d) < 9" if "d \<in> set dir" for d
    using assms(2) that by (auto simp: small_encodable_def list_all_iff)
  ultimately have "length (put_section es d) \<le> 9 * 18" if "d \<in> set dir" for d
    using that by (meson less_imp_le_nat mult_le_mono1 order_trans)
  then have "length (concat (map (put_section es) dir)) \<le> length dir * (9 * 18)" by (rule length_concat_le)
  moreover have "length (magic_of es @ put_count es (length names) @ to_be_bytes (of_nat (length dir) :: u32)) \<le> 14"
    using length_index_header [OF assms(1)] by (auto simp: header_size_of_def layout_consts)
  moreover have "length names < 9" "length dir < 9" using assms(2) by (simp_all add: small_encodable_def)
  ultimately show ?thesis
    unfolding encode_index_def index_tables_def
    using slots dirs [of "header_size_of es + length names * FILENAME_SIZE + length dir * LOG_DIR_ENTRY_SIZE"] by simp
qed

lemma small_encodable_encodable:
  assumes "es = ENTRY_SIZE_V0 \<or> es = ENTRY_SIZE_V1" and "small_encodable es names dir"
  shows "encodable es names dir"
proof -
  have "length names < max_filters es"
    using assms by (auto simp: small_encodable_def max_filters_def)
  moreover have "list_all (\<lambda>(k, entries). length k = 32 \<and> length entries < 2 ^ 16
      \<and> list_all (\<lambda>e. fst e < length names) entries) dir"
    using assms(2) by (auto simp: small_encodable_def list_all_iff)
  ultimately show ?thesis using assms small_encodable_length [OF assms]
    by (auto simp: encodable_def small_encodable_def list_all_iff)
qed

definition sct_of :: "bytes \<times> u64 \<Rightarrow> ct_timestamp" where
  "sct_of t = \<lparr>ct_log_id = fst t, ct_time = snd t\<rparr>"

definition scenario_ok ::
  "nat \<Rightarrow> (string \<times> filter_spec) list \<Rightarrow> test_filter list \<Rightarrow> (bytes \<times> u64) list \<Rightarrow> revocation_status \<Rightarrow> bool" where
  "scenario_ok es filters idx scts expected \<longleftrightarrow>
     distinct (map fst filters) \<and> list_all (\<lambda>(n, spec). plain_name n \<and> n \<noteq> INDEX_BIN \<and> spec_ok spec) filters
     \<and> small_encodable es (map fst idx) (directory_of idx)
     \<and> decide (\<lambda>i. Option.bind (map_of filters (fst (idx ! i))) (test_answer scts))
         (concat (map (\<lambda>t. covering (directory_of idx) (sct_of t)) scts)) (replicate (length idx) False) False = Some expected"

definition test_check_input :: "(bytes \<times> u64) list \<Rightarrow> revocation_check_input" where
  "test_check_input scts =
     \<lparr>in_cert_serial = SERIAL, in_issuer_spki_hash = our_issuer, in_sct_timestamps = map sct_of scts,
      in_issuer_serial_hash = fips_sha256 (our_issuer @ SERIAL)\<rparr>"

lemma test_inputs:
  "multi_sct_input scts = Ok (test_check_input scts)" "test_input = Ok (test_check_input [(log_bb, 1000)])"
proof -
  have "8 * (length our_issuer + length SERIAL) \<le> usize_max" by (simp add: SERIAL_def usize_max_def)
  then show "multi_sct_input scts = Ok (test_check_input scts)" "test_input = Ok (test_check_input [(log_bb, 1000)])"
    by (auto simp: multi_sct_input_def test_input_def input_new_eq test_check_input_def sct_of_def)
qed

lemma covering_lt:
  assumes "encodable es names dir" and "i \<in> set (covering dir sct)"
  shows "i < length names"
proof -
  from assms(2) obtain entries where some: "map_of dir (ct_log_id sct) = Some entries"
    by (cases "map_of dir (ct_log_id sct)") (simp_all add: covering_def)
  with assms(2) obtain e where "e \<in> set entries" "i = fst e" by (auto simp: covering_def)
  with some assms(1) show ?thesis
    by (auto simp: encodable_def list_all_iff dest!: map_of_SomeD)
qed

lemma test_query:
  assumes holds: "cache_holds dir files s" and n: "plain_name n" "map_of files n = Some b"
    and b: "filter_bytes_ok cl spec b" and ans: "test_answer scts spec = Some ans"
  shows "query_filter cl s (revocation_cache_dir (test_config dir)) (test_check_input scts) n = Ok ans"
proof -
  obtain issuer revoked unrevoked coverage where spec: "spec = (issuer, revoked, unrevoked, coverage)" by (cases spec)
  have key: "key_ok (input_key (test_check_input scts))" "key_issuer (input_key (test_check_input scts)) = our_issuer"
    "key_serial (input_key (test_check_input scts)) = SERIAL"
    by (simp_all add: key_ok_def input_key_def test_check_input_def)
  have ts: "map (\<lambda>t. (ct_log_id t, ct_time t)) (in_sct_timestamps (test_check_input scts)) = scts"
    by (simp add: test_check_input_def sct_of_def comp_def)
  from b spec obtain c where c: "cl_from_bytes cl b = Inr c" by (auto simp: filter_bytes_ok_def)
  have "cl_contains cl c (input_key (test_check_input scts)) scts = ans"
    using b ans key c by (auto simp: filter_bytes_ok_def test_answer_def spec split: if_splits)
  then show ?thesis
    using cache_holds_read(1) [OF holds n] c by (simp add: query_filter_def Let_def ts)
qed

text \<open>A test whose scenario evaluates to the expected verdict passes.\<close>

lemma verdict_test_passes:
  assumes cc: "clubcard_ok cb cl" and tmp: "tempdir dir s"
    and es: "es = ENTRY_SIZE_V0 \<or> es = ENTRY_SIZE_V1" and sc: "scenario_ok es filters idx scts expected"
  shows "verdict_test cb cl dir s filters (build_index_with_magic (magic_of es) idx) (Ok (test_check_input scts)) expected = Ok ()"
proof -
  let ?names = "map fst idx" and ?dir = "directory_of idx" and ?cache = "revocation_cache_dir (test_config dir)"
  let ?b = "encode_index es ?names ?dir" and ?input = "test_check_input scts"
  have enc: "encodable es ?names ?dir" and plain: "list_all plain_name ?names"
    using sc small_encodable_encodable [OF es] by (auto simp: scenario_ok_def small_encodable_def list_all_iff)
  have data: "build_index_with_magic (magic_of es) idx = (Ok ?b :: (rev_error, bytes) outcome)"
    using enc by (auto simp: build_index_encoded [OF es] directory_of_def encodable_def list_all_iff)
  have "distinct (map fst filters)" "list_all (\<lambda>(n, spec). plain_name n \<and> spec_ok spec) filters"
    using sc by (auto simp: scenario_ok_def list_all_iff)
  from write_filters_ok [OF cc tempdir_holds [OF tmp] this] obtain s1 files where
    s1: "write_filters cb dir filters s = (Ok s1 :: (rev_error, fs) outcome)" "cache_holds dir files s1"
    and files: "\<And>n spec. map_of filters n = Some spec \<Longrightarrow> \<exists>b. map_of files n = Some b \<and> filter_bytes_ok cl spec b"
    by blast
  from write_file_holds [OF s1(2) fixed_names(1), of ?b] obtain s2 where
    s2: "write_file dir INDEX_BIN ?b s1 = (Ok s2 :: (rev_error, fs) outcome)" "cache_holds dir ((INDEX_BIN, ?b) # files) s2"
    by blast
  have rd: "readable_file s2 (path_join ?cache INDEX_BIN) ?b"
    by (rule cache_holds_read(2) [OF s2(2) fixed_names(1)]) simp
  have "query_filter cl s2 ?cache ?input (?names ! i) = Ok ans"
    if "Option.bind (map_of filters (fst (idx ! i))) (test_answer scts) = Some ans" and "i < length idx" for i ans
  proof -
    from that obtain spec where spec: "map_of filters (fst (idx ! i)) = Some spec" "test_answer scts spec = Some ans"
      by (auto simp: bind_eq_Some_conv)
    moreover have "fst (idx ! i) \<noteq> INDEX_BIN" "plain_name (fst (idx ! i))"
      using sc spec(1) by (auto simp: scenario_ok_def list_all_iff dest!: map_of_SomeD)
    moreover obtain b where "map_of files (fst (idx ! i)) = Some b" "filter_bytes_ok cl spec b"
      using files [OF spec(1)] by blast
    ultimately have "query_filter cl s2 ?cache ?input (fst (idx ! i)) = Ok ans"
      by (intro test_query [OF s2(2)]) simp_all
    with that(2) show ?thesis by simp
  qed
  moreover have "i < length idx" if "i \<in> set (concat (map (\<lambda>t. covering ?dir (sct_of t)) scts))" for i
    using that covering_lt [OF enc] by auto
  ultimately have "map_ok verdict (consult (\<lambda>i. query_filter cl s2 ?cache ?input (?names ! i))
      (concat (map (\<lambda>t. covering ?dir (sct_of t)) scts)) (replicate (length idx) False) False) = Ok expected"
    using sc by (intro decide_consult) (auto simp: scenario_ok_def)
  then have "map_ok fst (obind (from_cache (test_config dir) s2) (\<lambda>ix. check cl s2 ix ?input)) = Ok expected"
    using load_then_check [OF enc rd, of cl s2 ?input] by (simp add: test_check_input_def comp_def)
  then have "check_from_cache cl (test_config dir) s2 ?input = Ok expected"
    by (cases "from_cache (test_config dir) s2") (simp_all add: check_from_cache_def)
  then show ?thesis using s1(1) s2(1) data by (simp add: verdict_test_def assert_that_def Let_def)
qed

section \<open>The scenarios of the tests\<close>

lemma magics: "INDEX_MAGIC_V1 = magic_of ENTRY_SIZE_V1" "INDEX_MAGIC_V0 = magic_of ENTRY_SIZE_V0"
  by (simp_all add: magic_of_def entry_sizes_neq)

lemmas verdict_test_v1 = verdict_test_passes [of _ _ _ _ ENTRY_SIZE_V1, folded magics, folded build_index_def, simplified]
lemmas verdict_test_v0 = verdict_test_passes [of _ _ _ _ ENTRY_SIZE_V0, folded magics, folded build_index_v0_def, simplified]

lemma tests_one_filter:
  assumes "clubcard_ok cb cl" and "tempdir dir s"
  shows "check_empty_index cb cl dir s = Ok ()"
    "check_no_matching_log_id cb cl dir s = Ok ()"
    "check_no_matching_timestamp_range cb cl dir s = Ok ()"
    "check_single_filter_revoked cb cl dir s = Ok ()"
    "check_single_filter_not_revoked cb cl dir s = Ok ()"
    "check_continues_past_not_enrolled_to_revoked cb cl dir s = Ok ()"
  unfolding check_empty_index_def
    check_no_matching_log_id_def
    check_no_matching_timestamp_range_def
    check_single_filter_revoked_def
    check_single_filter_not_revoked_def
    check_continues_past_not_enrolled_to_revoked_def test_inputs
  by (rule verdict_test_v1 [OF assms], code_simp)+

lemma tests_two_logs:
  assumes "clubcard_ok cb cl" and "tempdir dir s"
  shows "check_continues_past_not_enrolled_to_not_revoked cb cl dir s = Ok ()"
    "check_all_filters_not_enrolled cb cl dir s = Ok ()"
    "check_stops_at_first_revoked cb cl dir s = Ok ()"
    "check_continues_past_not_revoked_to_revoked cb cl dir s = Ok ()"
    "check_multiple_filters_same_log_revoked cb cl dir s = Ok ()"
  unfolding check_continues_past_not_enrolled_to_not_revoked_def
    check_all_filters_not_enrolled_def
    check_stops_at_first_revoked_def
    check_continues_past_not_revoked_to_revoked_def
    check_multiple_filters_same_log_revoked_def test_inputs
  by (rule verdict_test_v1 [OF assms], code_simp)+

lemma tests_shared_logs:
  assumes "clubcard_ok cb cl" and "tempdir dir s"
  shows "check_multiple_filters_same_log_not_revoked cb cl dir s = Ok ()"
    "check_later_timestamp_entry_same_log_revoked cb cl dir s = Ok ()"
    "check_later_timestamp_entry_same_log_not_revoked cb cl dir s = Ok ()"
    "check_skips_non_matching_entry_without_loading_filter cb cl dir s = Ok ()"
    "check_skips_queried_filter_but_not_later_filters cb cl dir s = Ok ()"
    "check_single_filter_covering_multiple_scts_not_revoked cb cl dir s = Ok ()"
  unfolding check_multiple_filters_same_log_not_revoked_def
    check_later_timestamp_entry_same_log_revoked_def
    check_later_timestamp_entry_same_log_not_revoked_def
    check_skips_non_matching_entry_without_loading_filter_def
    check_skips_queried_filter_but_not_later_filters_def
    check_single_filter_covering_multiple_scts_not_revoked_def test_inputs
  by (rule verdict_test_v1 [OF assms], code_simp)+

lemma tests_v0:
  assumes "clubcard_ok cb cl" and "tempdir dir s"
  shows "check_v0_index_revoked cb cl dir s = Ok ()"
    "check_v0_index_not_revoked cb cl dir s = Ok ()"
    "check_empty_v0_index cb cl dir s = Ok ()"
  unfolding check_v0_index_revoked_def
    check_v0_index_not_revoked_def
    check_empty_v0_index_def test_inputs
  by (rule verdict_test_v0 [OF assms], code_simp)+

section \<open>Damaged index files\<close>

lemma written_index:
  assumes "tempdir dir s"
  obtains s' where "write_file dir INDEX_BIN data s = (Ok s' :: ('e, fs) outcome)"
    "file_open s' (path_join (revocation_cache_dir (test_config dir)) INDEX_BIN)
      = Ok \<lparr>fh_data = Inr data, fh_meta = Inr (length data), fh_pos = 0\<rparr>"
proof -
  from write_file_holds [OF tempdir_holds [OF assms] fixed_names(1), of data] obtain s' where
    "write_file dir INDEX_BIN data s = (Ok s' :: ('e, fs) outcome)" "cache_holds dir [(INDEX_BIN, data)] s'" by blast
  with cache_holds_read(2) [OF this(2) fixed_names(1), of data] that show thesis
    by (simp add: readable_file_def)
qed

lemma rejected_test_passes:
  assumes "tempdir dir s"
    and "\<And>s'. file_open s' (path_join (revocation_cache_dir (test_config dir)) INDEX_BIN)
        = Ok \<lparr>fh_data = Inr data, fh_meta = Inr (length data), fh_pos = 0\<rparr> \<Longrightarrow>
      \<exists>e. from_cache (test_config dir) s' = Err (IndexDecode e)"
  shows "rejected_test dir data s = Ok ()"
proof -
  obtain s' where "write_file dir INDEX_BIN data s = (Ok s' :: (rev_error, fs) outcome)"
    "file_open s' (path_join (revocation_cache_dir (test_config dir)) INDEX_BIN)
      = Ok \<lparr>fh_data = Inr data, fh_meta = Inr (length data), fh_pos = 0\<rparr>"
    by (rule written_index [OF assms(1)])
  with assms(2) [OF this(2)] show ?thesis by (auto simp: rejected_test_def assert_that_def)
qed

lemma magic_length: "length INDEX_MAGIC_V1 = 8" "length INDEX_MAGIC_V0 = 8"
  by (simp_all add: INDEX_MAGIC_V1_def INDEX_MAGIC_V0_def)

lemma tests_damaged:
  assumes "tempdir dir s"
  shows "invalid_magic cb cl dir s = Ok ()" "truncated_after_magic cb cl dir s = Ok ()"
    "truncated_before_magic cb cl dir s = Ok ()" "oversized_table_counts cb cl dir s = Ok ()"
proof -
  have wrong: "as_bytes ''wrongmag'' \<noteq> INDEX_MAGIC_V1" "as_bytes ''wrongmag'' \<noteq> INDEX_MAGIC_V0"
    by code_simp+
  show "invalid_magic cb cl dir s = Ok ()" unfolding invalid_magic_def
    by (rule rejected_test_passes [OF assms]) (simp add: from_cache_def Let_def read_exact_def index_io_def wrong)
  show "truncated_after_magic cb cl dir s = Ok ()" unfolding truncated_after_magic_def
    by (rule rejected_test_passes [OF assms]) (simp add: from_cache_def Let_def read_exact_def index_io_def magic_length layout_consts)
  show "truncated_before_magic cb cl dir s = Ok ()" unfolding truncated_before_magic_def
    by (rule rejected_test_passes [OF assms]) (simp add: from_cache_def Let_def read_exact_def index_io_def)
  have read: "read_be (to_be_bytes (- 1 :: u16) @ to_be_bytes (- 1 :: u32)) = Ok (- 1 :: u16, to_be_bytes (- 1 :: u32))"
    "read_be (to_be_bytes (- 1 :: u32)) = Ok (- 1 :: u32, [])"
    using u16.get_put [of "- 1" "to_be_bytes (- 1 :: u32)"] u32.get_put [of "- 1" "[]"] by simp_all
  show "oversized_table_counts cb cl dir s = Ok ()" unfolding oversized_table_counts_def
    by (rule rejected_test_passes [OF assms])
       (simp add: from_cache_def Let_def read_exact_def index_io_def magic_length layout_consts read_num_filenames_def read
         unsigned_minus_1_eq_mask mask_eq_exp_minus_1)
qed

lemma test_missing_index:
  assumes "tempdir dir s"
  shows "missing_index cb cl dir s = Ok ()"
  using cache_holds_read(3) [OF tempdir_holds [OF assms] fixed_names(1)]
  by (simp add: missing_index_def from_cache_def Let_def assert_that_def)

text \<open>An entry that names filter 500 of one.\<close>

definition oob_tables :: bytes where
  "oob_tables = filename_slot ''f0.filter'' @ log_bb @ [0, 0, 0, 0, 0, 0, 0, 88, 0, 1]"

definition oob_entry :: bytes where
  "oob_entry = [1, 244, 0, 0, 0, 0, 0, 0, 0, 0, 0, 0, 0, 0, 0, 0, 7, 208]"

definition oob_bytes :: bytes where
  "oob_bytes = (INDEX_MAGIC_V1 @ [0, 1, 0, 0, 0, 1]) @ oob_tables @ oob_entry"

lemma oob_lengths: "length oob_tables = 74" "length oob_entry = 18" "length oob_bytes = 106"
  by (simp_all add: oob_tables_def oob_entry_def oob_bytes_def filename_slot_def INDEX_MAGIC_V1_def layout_consts Let_def)

lemma oob_build:
  "obind (build_index [(''f0.filter'', [(log_bb, 0, 2000)])]) (\<lambda>data.
     obind (usize_sub (length data) ENTRY_SIZE_V1) (\<lambda>entry_offset.
     copy_at entry_offset (to_be_bytes (500 :: u16)) data)) = Ok oob_bytes"
proof -
  have "to_be_bytes (2000 :: u64) = [0, 0, 0, 0, 0, 0, 7, 208]" "to_be_bytes (500 :: u16) = [1, 244]"
    "to_be_bytes (0 :: u64) = [0, 0, 0, 0, 0, 0, 0, 0]" "to_be_bytes (88 :: u64) = [0, 0, 0, 0, 0, 0, 0, 88]"
    "to_be_bytes (1 :: u16) = [0, 1]" "to_be_bytes (0 :: u16) = [0, 0]" "to_be_bytes (1 :: u32) = [0, 0, 0, 1]"
    by code_simp+
  then show ?thesis
    by (simp add: build_index_def build_index_with_magic_def by_log_of_def add_universe_def enumerate_eq_zip
        entry_sizes_neq(2) [symmetric] put_dir_entry_def put_test_entry_def usize_sub_def copy_at_def layout_consts
        oob_bytes_def oob_tables_def oob_entry_def filename_slot_def magic_length Let_def)
qed

definition oob_index :: "path \<Rightarrow> index" where
  "oob_index dir =
     \<lparr>ix_cache_dir = revocation_cache_dir (test_config dir), ix_num_filenames = 1, ix_num_logs = 1, ix_logs_offset = 32,
      ix_entry_size = ENTRY_SIZE_V1, ix_tables = oob_tables,
      ix_file = \<lparr>fh_data = Inr oob_bytes, fh_meta = Inr 106, fh_pos = 88\<rparr>\<rparr>"

lemma oob_load:
  assumes "file_open s' (path_join (revocation_cache_dir (test_config dir)) INDEX_BIN)
    = Ok \<lparr>fh_data = Inr oob_bytes, fh_meta = Inr (length oob_bytes), fh_pos = 0\<rparr>"
  shows "from_cache (test_config dir) s' = Ok (oob_index dir)"
proof -
  have "(read_be [0, 1, 0, 0, 0, 1] :: (rev_error, u16 \<times> bytes) outcome) = Ok (1, [0, 0, 0, 1])"
    "(read_be [0, 0, 0, 1] :: (rev_error, u32 \<times> bytes) outcome) = Ok (1, [])" by code_simp+
  moreover have "take 8 oob_bytes = INDEX_MAGIC_V1" "take 6 (drop 8 oob_bytes) = [0, 1, 0, 0, 0, 1]"
    "take 74 (drop 14 oob_bytes) = oob_tables"
    using oob_lengths by (simp_all add: oob_bytes_def magic_length)
  ultimately show ?thesis
    by (simp add: from_cache_def assms Let_def read_exact_def index_io_def oob_lengths read_num_filenames_def layout_consts
        oob_index_def)
qed

lemma oob_check: "\<exists>e. check cl s' (oob_index dir) (test_check_input [(log_bb, 1000)]) = Err (IndexDecode e)"
proof -
  have dir: "drop 32 oob_tables = log_bb @ [0, 0, 0, 0, 0, 0, 0, 88, 0, 1]" by code_simp
  have search: "log_search (log_bb @ [0, 0, 0, 0, 0, 0, 0, 88, 0, 1]) log_bb 0 1 = Ok (Some 0)" by code_simp
  have fields: "(read_be [0, 0, 0, 0, 0, 0, 0, 88, 0, 1] :: (rev_error, u64 \<times> bytes) outcome) = Ok (88, [0, 1])"
    "(read_be [0, 1] :: (rev_error, u16 \<times> bytes) outcome) = Ok (1, [])" by code_simp+
  have entry: "read_entry ENTRY_SIZE_V1 oob_entry = Ok ((500, 0, 2000), [])" by code_simp
  have sect: "take 18 (drop 88 oob_bytes) = oob_entry"
    using oob_lengths by (simp add: oob_bytes_def magic_length)
  have "scan_entries cl s' ix input 1000 (Suc 0) oob_entry seen good = Err (IndexDecode (MsgCause ''filter index out of bounds''))"
    if "ix_entry_size ix = ENTRY_SIZE_V1" "ix_num_filenames ix = 1" for ix input seen good
    using that by (simp add: entry index_filename_def)
  then show ?thesis
    by (simp add: check_def oob_index_def slice_from_def oob_lengths dir test_check_input_def sct_of_def search [simplified] fields
        index_io_def seek_start_def read_exact_def sect layout_consts del: scan_entries.simps)
qed

lemma test_out_of_bounds:
  assumes "tempdir dir s"
  shows "check_filter_index_out_of_bounds cb cl dir s = Ok ()"
proof -
  obtain s' where s': "write_file dir INDEX_BIN oob_bytes s = (Ok s' :: (rev_error, fs) outcome)"
    "file_open s' (path_join (revocation_cache_dir (test_config dir)) INDEX_BIN)
      = Ok \<lparr>fh_data = Inr oob_bytes, fh_meta = Inr (length oob_bytes), fh_pos = 0\<rparr>"
    by (rule written_index [OF assms])
  have "check_filter_index_out_of_bounds cb cl dir s =
      obind (obind (build_index [(''f0.filter'', [(log_bb, 0, 2000)])]) (\<lambda>data.
        obind (usize_sub (length data) ENTRY_SIZE_V1) (\<lambda>entry_offset.
        copy_at entry_offset (to_be_bytes (500 :: u16)) data))) (\<lambda>data.
      obind (write_file dir INDEX_BIN data s) (\<lambda>s.
      obind test_input (\<lambda>input.
      case from_cache (test_config dir) s of
        Ok ix \<Rightarrow> obind (unwrap_err (check cl s ix input)) (\<lambda>err. assert_that (is_index_decode err))
      | _ \<Rightarrow> Panic)))"
    by (simp add: check_filter_index_out_of_bounds_def obind_assoc)
  also have "\<dots> = Ok ()"
    using oob_check [of cl s' dir] by (auto simp: oob_build s'(1) test_inputs oob_load [OF s'(2)] assert_that_def)
  finally show ?thesis .
qed

section \<open>Properties\<close>

definition index_tests :: "'c index_test list" where
  "index_tests =
     [check_empty_index,
      check_no_matching_log_id,
      check_no_matching_timestamp_range,
      invalid_magic,
      truncated_after_magic,
      truncated_before_magic,
      oversized_table_counts,
      missing_index,
      check_single_filter_revoked,
      check_single_filter_not_revoked,
      check_continues_past_not_enrolled_to_revoked,
      check_continues_past_not_enrolled_to_not_revoked,
      check_all_filters_not_enrolled,
      check_stops_at_first_revoked,
      check_continues_past_not_revoked_to_revoked,
      check_multiple_filters_same_log_revoked,
      check_multiple_filters_same_log_not_revoked,
      check_later_timestamp_entry_same_log_revoked,
      check_later_timestamp_entry_same_log_not_revoked,
      check_skips_non_matching_entry_without_loading_filter,
      check_skips_queried_filter_but_not_later_filters,
      check_single_filter_covering_multiple_scts_not_revoked,
      check_v0_index_revoked,
      check_v0_index_not_revoked,
      check_empty_v0_index,
      check_filter_index_out_of_bounds]"

text \<open>
  C25: every unit test of the index passes on the model, in any fresh directory and with any filter
  library that builds the filters of the tests so that they answer for the serials put into them: the verdicts over one and several filters, logs and
  intervals, in both versions of the format, that no filter is read without need, and that damaged
  index files are refused.
\<close>

theorem index_tests_pass:
  assumes "clubcard_ok cb cl" and "tempdir dir s"
  shows "list_all (\<lambda>test. test cb cl dir s = Ok ()) index_tests"
  unfolding index_tests_def
  using tests_one_filter [OF assms] tests_two_logs [OF assms] tests_shared_logs [OF assms] tests_v0 [OF assms]
    tests_damaged [OF assms(2), of cb cl] test_missing_index [OF assms(2), of cb cl] test_out_of_bounds [OF assms(2), of cb cl]
  by simp

text \<open>A filter library that keeps the promise: a filter is the number of its description, in unary.\<close>

type_synonym toy_filter = "nat list \<times> nat list list \<times> nat list list \<times> (nat list \<times> nat \<times> nat) list"

definition revoked_serials :: "bytes \<Rightarrow> builder_item list \<Rightarrow> bytes list" where
  "revoked_serials issuer items =
     List.map_filter (\<lambda>it. case it of RevokedItem i x \<Rightarrow> if i = issuer then Some x else None | _ \<Rightarrow> None) items"

definition unrevoked_serials :: "bytes \<Rightarrow> builder_item list \<Rightarrow> bytes list" where
  "unrevoked_serials issuer items =
     List.map_filter (\<lambda>it. case it of NotRevokedItem i x \<Rightarrow> if i = issuer then Some x else None | _ \<Rightarrow> None) items"

definition toy_builder :: clubcard_builder where
  "toy_builder approx exact coverage =
     (case exact of
        [ribbon] \<Rightarrow> Inr (replicate (to_nat ((map unat (rb_block ribbon),
            map (map unat) (revoked_serials (rb_block ribbon) (rb_items ribbon)),
            map (map unat) (unrevoked_serials (rb_block ribbon) (rb_items ribbon)),
            map (\<lambda>(k, low, high). (map unat k, unat low, unat high)) coverage) :: toy_filter)) 0)
      | _ \<Rightarrow> Inl ''one ribbon expected'')"

definition toy_crlite :: "toy_filter crlite" where
  "toy_crlite =
     \<lparr>cl_from_bytes = (\<lambda>b. Inr (from_nat (length b))),
      cl_universe = (\<lambda>_. []),
      cl_contains = (\<lambda>(issuer, revoked, unrevoked, coverage) key ts.
        if map unat (key_issuer key) \<noteq> issuer then NotEnrolled
        else if map unat (key_serial key) \<in> set revoked then Revoked
        else if map unat (key_serial key) \<in> set unrevoked then Good else NotCovered)\<rparr>"

lemma map_unat_inj [simp]: "map unat xs = map unat ys \<longleftrightarrow> xs = (ys :: bytes)"
  by (metis inj_map_eq_map injI word_unat_eq_iff)

lemma serials_iff:
  "x \<in> set (revoked_serials issuer items) \<longleftrightarrow> RevokedItem issuer x \<in> set items"
  "x \<in> set (unrevoked_serials issuer items) \<longleftrightarrow> NotRevokedItem issuer x \<in> set items"
  by (induction items)
     (auto simp: revoked_serials_def unrevoked_serials_def map_filter_simps split: builder_item.splits)

lemma toy_clubcard_ok: "clubcard_ok toy_builder toy_crlite"
proof -
  have mem: "map unat x \<in> map unat ` set xs \<longleftrightarrow> x \<in> set xs" for x :: bytes and xs
    by (auto simp: image_iff)
  have built: "\<exists>b c. toy_builder a [\<lparr>rb_block = issuer, rb_items = items, rb_universe = None\<rparr>] coverage = Inr b
      \<and> cl_from_bytes toy_crlite b = Inr c \<and> answers_items toy_crlite c issuer items coverage"
    if "\<And>x. RevokedItem issuer x \<in> set items \<Longrightarrow> NotRevokedItem issuer x \<notin> set items" for a issuer items coverage
    using that unfolding answers_items_def toy_builder_def toy_crlite_def by (auto simp: mem serials_iff)
  have clash: "x \<notin> set unrevoked \<and> length x \<noteq> 8"
    if "spec_ok (issuer, revoked, unrevoked, coverage)" "x \<in> set revoked" for issuer revoked unrevoked coverage x
  proof -
    have "length x < 8" "x \<notin> set unrevoked" using that by (simp_all add: spec_ok_def list_all_iff)
    then show ?thesis by simp
  qed
  show ?thesis
    unfolding clubcard_ok_def Let_def
  proof (intro allI impI built)
    fix issuer revoked unrevoked coverage x
    assume ok: "spec_ok (issuer, revoked, unrevoked, coverage)"
      and "RevokedItem issuer x \<in> set (map (RevokedItem issuer) revoked @ map (NotRevokedItem issuer) unrevoked
        @ map (\<lambda>j. NotRevokedItem issuer (rev (to_be_bytes (of_nat j :: u64)))) [0..<2 ^ 8])"
    then have "x \<in> set revoked" by auto
    from clash [OF ok this] show "NotRevokedItem issuer x \<notin> set (map (RevokedItem issuer) revoked
        @ map (NotRevokedItem issuer) unrevoked
        @ map (\<lambda>j. NotRevokedItem issuer (rev (to_be_bytes (of_nat j :: u64)))) [0..<2 ^ 8])"
      by auto
  qed
qed

theorem index_tests_pass_witness:
  "list_all (\<lambda>test. test toy_builder toy_crlite ''/tmp''
      \<lparr>fs_nodes = [([''tmp''], Dir)], fs_fault = (\<lambda>_ _. None)\<rparr> = Ok ()) index_tests"
proof -
  have "path_key ''/tmp'' = [''tmp'']" by code_simp
  then have "tempdir ''/tmp'' \<lparr>fs_nodes = [([''tmp''], Dir)], fs_fault = (\<lambda>_ _. None)\<rparr>"
    by (simp add: tempdir_def node_at_def)
  with toy_clubcard_ok show ?thesis by (rule index_tests_pass)
qed

text \<open>
  The encoder of the tests and \<open>Index::write\<close> agree: for filters whose universes are the
  intervals given to the test builder, the writer produces the same index, byte for byte.
\<close>

lemma test_index_is_written_index:
  assumes "list_all2 (\<lambda>f (name, entries). mf_filename f = name \<and> length name \<le> FILENAME_SIZE
      \<and> (\<exists>b c. fs_read s (path_join dir name) = Ok b \<and> cl_from_bytes cl b = Inr c \<and> cl_universe cl c = entries))
    (m_files m) filters"
  shows "\<exists>b. index_write cl s m dir = Some b \<and> build_index filters = Ok b"
proof -
  have collect: "collect_filters cl s dir i files acc
      = Some (fold (\<lambda>(j, (_, entries)). add_universe j entries) (enumerate i flts) acc)"
    if "list_all2 (\<lambda>f (name, entries). mf_filename f = name \<and> length name \<le> FILENAME_SIZE
      \<and> (\<exists>b c. fs_read s (path_join dir name) = Ok b \<and> cl_from_bytes cl b = Inr c \<and> cl_universe cl c = entries)) files flts"
    for i files acc flts
    using that by (induction files flts arbitrary: i acc rule: list_all2_induct) (auto simp: enumerate_simps)
  have names: "map mf_filename (m_files m) = map fst filters" and short: "list_all (\<lambda>f. length (fst f) \<le> FILENAME_SIZE) filters"
    using assms by (induction rule: list_all2_induct) auto
  show ?thesis
    using collect [OF assms, of 0 "[]"] names short
    by (simp add: index_write_encoded build_index_def magics(1) build_index_encoded by_log_of_def [symmetric])
qed

lemma test_index_is_written_index_witness:
  "\<exists>b. index_write sample_crlite sample_fs sample_manifest ''/c/revocation'' = Some b
     \<and> build_index [(''a'', [(sample_log, 10, 20)]), (''b'', [(sample_log, 10, 20)])] = Ok b"
proof (rule test_index_is_written_index)
  have keys: "path_key (path_join ''/c/revocation'' ''a'') = [''c'', ''revocation'', ''a'']"
    "path_key (path_join ''/c/revocation'' ''b'') = [''c'', ''revocation'', ''b'']" by code_simp+
  then have "fs_read sample_fs (path_join ''/c/revocation'' ''a'') = Ok [2]"
    "fs_read sample_fs (path_join ''/c/revocation'' ''b'') = Ok [1]"
    by (simp_all add: fs_read_def sample_fs_def sample_nodes_def node_at_def)
  then show "list_all2 (\<lambda>f (name, entries). mf_filename f = name \<and> length name \<le> FILENAME_SIZE
      \<and> (\<exists>b c. fs_read sample_fs (path_join ''/c/revocation'' name) = Ok b \<and> cl_from_bytes sample_crlite b = Inr c
           \<and> cl_universe sample_crlite c = entries))
    (m_files sample_manifest) [(''a'', [(sample_log, 10, 20)]), (''b'', [(sample_log, 10, 20)])]"
    by (simp add: sample_manifest_def sample_file_def sample_crlite_def layout_consts)
qed

end
