(* ===== verification/Fetch_Properties.thy ===== *)
theory Fetch_Properties
  imports Fetch_Correct Samples
begin

text \<open>
  The properties of the fetcher, with a small server and cache directory on which they are
  instantiated: a manifest of one file that is missing, and a stale filter that is deleted.
\<close>

section \<open>A sample fetch\<close>

definition demo_file :: manifest_file where
  "demo_file = \<lparr>mf_filename = ''a.filter'', mf_size = 1, mf_hash = fips_sha256 [2]\<rparr>"

definition demo_manifest :: manifest where
  "demo_manifest = \<lparr>m_generated_at = 0, m_comment = '''', m_files = [demo_file]\<rparr>"

definition demo_externals :: "bytes externals" where
  "demo_externals =
     \<lparr>ex_client = Inr (), ex_error_for_status = Inr, ex_bytes = Inr, ex_json = (\<lambda>_. Inr demo_manifest),
      ex_json_reader = (\<lambda>_. Inl ''none''), ex_json_vec = (\<lambda>_. Inr [0]), ex_rfc3339 = (\<lambda>_. Some ''date''),
      ex_debug_path = (\<lambda>p. p)\<rparr>"

definition demo_envs :: "nat \<Rightarrow> bytes step_env" where
  "demo_envs i = \<lparr>se_send = (\<lambda>_. Inr [2]), se_temp = ''.tmp1'', se_partial = 0, se_short = (\<lambda>_. 1)\<rparr>"

definition demo_fs :: fs where
  "demo_fs = \<lparr>fs_nodes = [([''c''], Dir), ([''c'', ''revocation''], Dir),
      ([''c'', ''revocation'', ''old.filter''], File [9])], fs_fault = (\<lambda>_ _. None)\<rparr>"

definition demo_plan :: plan where
  "demo_plan = \<lparr>pl_steps =
     [Download demo_file ''https://upki.rustls.dev/revocation/a.filter'' ''/c/revocation/a.filter'',
      SaveIndex demo_manifest ''/c/revocation'', SaveManifest demo_manifest ''/c/revocation'',
      Delete ''/c/revocation/old.filter'']\<rparr>"

lemma demo_keys:
  "path_key ''/c/revocation'' = [''c'', ''revocation'']"
  "path_key ''/c/revocation/a.filter'' = [''c'', ''revocation'', ''a.filter'']"
  "path_key ''/c/revocation/old.filter'' = [''c'', ''revocation'', ''old.filter'']"
  "path_key ''/c/revocation/manifest.json'' = [''c'', ''revocation'', ''manifest.json'']"
  "path_join ''/c/revocation'' ''a.filter'' = ''/c/revocation/a.filter''"
  "path_join ''/c/revocation'' ''old.filter'' = ''/c/revocation/old.filter''"
  "path_join ''/c/revocation'' ''manifest.json'' = ''/c/revocation/manifest.json''"
  "path_join ''/c/revocation'' ''index.bin'' = ''/c/revocation/index.bin''"
  "parent_key ''/c/revocation/a.filter'' = Some [''c'', ''revocation'']"
  "parent_key ''/c/revocation/manifest.json'' = Some [''c'', ''revocation'']"
  "ends_with ''old.filter'' ''.filter''"
  "path_id ''old.filter'' \<noteq> path_id ''a.filter''"
  by code_simp+

lemma demo_small: "8 * length [2 :: u8] \<le> usize_max" "8 * length [9 :: u8] \<le> usize_max"
  by (simp_all add: usize_max_def)

lemma demo_fetch_plan:
  "fetch_plan demo_externals (demo_envs 0) (\<lambda>xs. xs) sample_config demo_fs = Ok (demo_manifest, demo_plan)"
proof -
  have url: "rc_fetch_url (cfg_revocation sample_config) = ''https://upki.rustls.dev/revocation/''"
    by (simp add: sample_config_def revocation_config_default_def)
  have names: "mf_filename demo_file = ''a.filter''" "m_files demo_manifest = [demo_file]"
    by (simp_all add: demo_file_def demo_manifest_def)
  have "hash_file short demo_fs ''/c/revocation/a.filter'' = Err NotFound" for short
    by (simp add: hash_file_eq file_open_def demo_keys demo_fs_def node_at_def)
  then have files: "plan_files short demo_fs u ''/c/revocation'' [demo_file] [] [''old.filter'']
      = Ok ([download_step demo_file u ''/c/revocation''], [''old.filter''])" for short u
    by (simp add: names demo_keys Let_def remove_name_def)
  have dir: "fs_exists demo_fs ''/c/revocation''" "fs_read_dir demo_fs ''/c/revocation'' = Ok [Inr ''old.filter'']"
    by (simp_all add: fs_exists_def fs_read_dir_def demo_keys demo_fs_def node_at_def)
  have "plan_construct short (\<lambda>xs. xs) demo_fs demo_manifest None ''https://upki.rustls.dev/revocation/'' ''/c/revocation''
      = Ok demo_plan" for short
    by (simp add: plan_construct_def dir names demo_keys files demo_plan_def download_step_def del: plan_files.simps)
  moreover have "manifest_from_config demo_externals sample_config demo_fs
      = Err (FileRead NotFound (Some ''/c/revocation/manifest.json''))"
    by (simp add: manifest_from_config_def sample_revocation_dir demo_keys file_open_def demo_fs_def node_at_def)
  ultimately show ?thesis
    by (simp add: fetch_plan_def url sample_revocation_dir http_get_def introduce_def demo_externals_def demo_envs_def)
qed

definition demo_nodes :: "(key \<times> node) list \<Rightarrow> fs" where
  "demo_nodes ns = \<lparr>fs_nodes = [([''c''], Dir), ([''c'', ''revocation''], Dir)] @ ns, fs_fault = (\<lambda>_ _. None)\<rparr>"

abbreviation demo_entry :: "string \<Rightarrow> key" where
  "demo_entry n \<equiv> [''c'', ''revocation'', n]"

lemma demo_save:
  assumes "list_all (\<lambda>x. fst x \<noteq> demo_entry n \<and> fst x \<noteq> demo_entry t) ns" and "t \<noteq> n"
  shows "save_file (demo_envs i) [''c'', ''revocation''] t (demo_entry n) d (demo_nodes ns)
    = (Ok (), demo_nodes (ns @ [(demo_entry n, File d)]))"
proof -
  have none: "map_of ns (demo_entry n) = None" "map_of ns (demo_entry t) = None"
    using assms(1) by (induction ns) auto
  have "AList.update k v xs = xs @ [(k, v)]" if "k \<notin> fst ` set xs" for k v and xs :: "(key \<times> node) list"
    using that by (induction xs) auto
  moreover have "AList.update k v (xs @ [(k, w)]) = xs @ [(k, v)]" if "k \<notin> fst ` set xs"
    for k v w and xs :: "(key \<times> node) list"
    using that by (induction xs) auto
  moreover have "demo_entry n \<notin> fst ` set ns" "demo_entry t \<notin> fst ` set ns"
    using assms(1) by (auto simp: list_all_iff)
  moreover have keep: "filter (\<lambda>(k, _). demo_entry t \<noteq> k) ns = ns"
    using assms(1) by (auto simp: filter_id_conv list_all_iff)
  ultimately show ?thesis using assms(2) none
    by (auto simp: save_file_def tempfile_in_def write_all_def persist_def file_at_def map_add_def demo_nodes_def node_at_def
        set_node_def del_node_def AList.delete_eq demo_envs_def keep)
qed

definition demo_index :: bytes where
  "demo_index = INDEX_MAGIC_V1 @ [0, 1] @ [0, 0, 0, 1] @ filename_slot ''a.filter''
     @ sample_log @ [0, 0, 0, 0, 0, 0, 0, 88] @ [0, 1]
     @ [0, 0] @ [0, 0, 0, 0, 0, 0, 0, 10] @ [0, 0, 0, 0, 0, 0, 0, 20]"

lemma demo_index_bytes:
  "INDEX_MAGIC_V1 @ to_be_bytes (1 :: u16) @ to_be_bytes (1 :: u32) @ filename_slot ''a.filter''
     @ put_dir_entry (sample_log, 88, 1) @ put_entry_v1 (0, 10, 20) = demo_index" "length demo_index = 106"
  by code_simp+

lemma demo_index_write:
  assumes "fs_read s ''/c/revocation/a.filter'' = Ok [2]"
  shows "index_write sample_crlite s demo_manifest ''/c/revocation'' = Some demo_index"
  using assms demo_index_bytes(1)
  by (simp add: index_write_def demo_manifest_def demo_file_def demo_keys
      sample_crlite_def Let_def add_universe_def layout_consts)

definition demo_final :: fs where
  "demo_final = demo_nodes [(demo_entry ''a.filter'', File [2]), (demo_entry ''index.bin'', File demo_index),
     (demo_entry ''manifest.json'', File [0])]"

lemma demo_start: "demo_fs = demo_nodes [(demo_entry ''old.filter'', File [9])]"
  by (simp add: demo_fs_def demo_nodes_def)

lemma demo_env: "se_temp (demo_envs i) = ''.tmp1''" "se_send (demo_envs i) u = Inr [2]"
  by (simp_all add: demo_envs_def)

lemma demo_ext:
  "ex_error_for_status demo_externals = Inr" "ex_bytes demo_externals = Inr" "ex_json_vec demo_externals m = Inr [0]"
  by (simp_all add: demo_externals_def)

lemma demo_hash:
  "hash_file short (demo_nodes [(demo_entry ''old.filter'', File [9]), (demo_entry ''a.filter'', File [2])])
     ''/c/revocation/a.filter'' = Ok (fips_sha256 [2])"
  using demo_small by (simp add: hash_file_eq file_open_def demo_keys demo_nodes_def node_at_def sha256_outcome_def)

lemma demo_nodes_simps:
  "fs_fault (demo_nodes ns) op k = None"
  "node_at (demo_nodes ((demo_entry n, v) # ns)) (demo_entry n) = Some v"
  by (simp_all add: demo_nodes_def node_at_def)

lemma demo_fetch:
  "fetch sample_crlite demo_externals demo_envs (\<lambda>xs. xs) False sample_config demo_fs
   = (Ok ([], EXIT_SUCCESS), demo_final)"
proof -
  have "fs_read (demo_nodes [(demo_entry ''old.filter'', File [9]), (demo_entry ''a.filter'', File [2])])
      ''/c/revocation/a.filter'' = Ok [2]"
    by (simp add: fs_read_def demo_keys demo_nodes_def node_at_def)
  note index = demo_index_write [OF this]
  have del: "del_node (demo_entry ''old.filter'') (demo_nodes [(demo_entry ''old.filter'', File [9]),
      (demo_entry ''a.filter'', File [2]), (demo_entry ''index.bin'', File demo_index),
      (demo_entry ''manifest.json'', File [0])]) = demo_final"
    by (simp add: del_node_def demo_nodes_def demo_final_def)
  have "run_steps sample_crlite demo_externals demo_envs 1 (pl_steps demo_plan) demo_fs = (Ok (), demo_final)"
    unfolding demo_start
    by (simp add: demo_plan_def http_get_def demo_env demo_ext atomic_write_def demo_keys demo_save demo_hash demo_file_def
        INDEX_BIN_def MANIFEST_JSON_def index [unfolded demo_file_def] sample_keys Let_def fs_remove_file_def
        demo_nodes_simps del)
  then show ?thesis by (simp add: fetch_def demo_fetch_plan)
qed

lemma demo_ok:
  "manifest_ok demo_manifest" "temps_ok demo_envs" "fs_wf demo_fs"
proof -
  have "data_name (mf_filename demo_file)"
    by (simp add: demo_file_def data_name_def plain_name_def temp_name_def INDEX_BIN_def MANIFEST_JSON_def)
  then show "manifest_ok demo_manifest" by (simp add: manifest_ok_def demo_manifest_def)
  show "temps_ok demo_envs" by (simp add: temps_ok_def demo_envs_def temp_name_def)
  show "fs_wf demo_fs" by (simp add: fs_wf_def demo_fs_def plain_name_def)
qed

text \<open>The number of bytes to download is the wrapped sum of the sizes the manifest claims.\<close>

definition step_size :: "plan_step \<Rightarrow> nat" where
  "step_size st = (case st of Download f _ _ \<Rightarrow> mf_size f | _ \<Rightarrow> 0)"

lemma download_bytes_sum: "download_bytes p = (\<Sum>st \<leftarrow> pl_steps p. step_size st) mod 2 ^ 64"
proof -
  have "foldl (\<lambda>n st. case st of Download f _ _ \<Rightarrow> (n + mf_size f) mod 2 ^ 64 | _ \<Rightarrow> n) a steps
      = (a + (\<Sum>st \<leftarrow> steps. step_size st)) mod 2 ^ 64" if "a < 2 ^ 64" for a steps
    using that
  proof (induction steps arbitrary: a)
    case (Cons st steps)
    then show ?case by (cases st) (simp_all add: step_size_def mod_simps add.assoc)
  qed simp
  from this [of 0 "pl_steps p"] show ?thesis
    unfolding download_bytes_def add_0 by (simp only: zero_less_power zero_less_numeral)
qed

lemma download_bytes_plan:
  assumes "plan_construct short order s m old url local = Ok p"
  shows "download_bytes p = (\<Sum>f \<leftarrow> filter (\<lambda>f. \<not> up_to_date s local f) (m_files m). mf_size f) mod 2 ^ 64"
proof -
  have "(\<Sum>n \<leftarrow> ns. step_size (Delete (path_join local n))) = 0" for ns by (simp add: step_size_def)
  with plan_construct_steps [OF assms] show ?thesis
    by (auto simp: download_bytes_sum comp_def step_size_def download_step_def)
qed

section \<open>Properties\<close>

text \<open>
  C20: hashing a file by reads of at most 4096 bytes gives the SHA-256 digest of its contents, however
  many bytes the system returns for each read; a file that cannot be opened or read gives the error.
  The loop always ends.
\<close>

theorem hash_file_is_sha256:
  "hash_file short s p =
     (case fs_read s p of
        Ok b \<Rightarrow> if 8 * length b \<le> usize_max then Ok (fips_sha256 b) else Panic
      | Err e \<Rightarrow> Err e
      | Panic \<Rightarrow> Panic)"
  unfolding hash_file_eq fs_read_def file_open_def Let_def sha256_outcome_def
  by (auto split: option.split node.split)

text \<open>
  C19: the plan compares the manifest with the cache. It creates the directory only if it is missing,
  downloads exactly the files whose digest is not the one of the manifest, in the order of the
  manifest, then saves the index and the manifest, and last deletes exactly the filter files of the
  directory that neither the new nor the old manifest names.
\<close>

theorem plan_matches_cache:
  assumes "plan_construct short order s m old url local = Ok plan"
  shows "\<exists>unwanted. distinct unwanted \<and> set unwanted = stale_entries s local m old
    \<and> pl_steps plan = (if fs_exists s local then [] else [CreateDir local])
        @ map (\<lambda>f. download_step f url local) (filter (\<lambda>f. \<not> up_to_date s local f) (m_files m))
        @ [SaveIndex m local, SaveManifest m local]
        @ map (\<lambda>n. Delete (path_join local n)) (order unwanted)"
  using assms by (rule plan_construct_steps)

theorem plan_matches_cache_witness:
  "\<exists>unwanted. distinct unwanted \<and> set unwanted
      = stale_entries demo_fs (revocation_cache_dir sample_config) demo_manifest
          (ok_option (manifest_from_config demo_externals sample_config demo_fs))
    \<and> pl_steps demo_plan = (if fs_exists demo_fs (revocation_cache_dir sample_config) then []
          else [CreateDir (revocation_cache_dir sample_config)])
        @ map (\<lambda>f. download_step f (rc_fetch_url (cfg_revocation sample_config)) (revocation_cache_dir sample_config))
            (filter (\<lambda>f. \<not> up_to_date demo_fs (revocation_cache_dir sample_config) f) (m_files demo_manifest))
        @ [SaveIndex demo_manifest (revocation_cache_dir sample_config),
           SaveManifest demo_manifest (revocation_cache_dir sample_config)]
        @ map (\<lambda>n. Delete (path_join (revocation_cache_dir sample_config) n)) unwanted"
  using plan_matches_cache [OF fetch_planD(2) [OF demo_fetch_plan]] by simp

text \<open>
  C14: after a successful fetch of a well-behaved manifest (one with plain file names) every file of
  the manifest is in the cache directory with the digest the manifest gives, and verifying the cache against the manifest succeeds unless the directory
  itself cannot be listed.
\<close>

theorem fetch_success_current:
  assumes "fetch cl ex envs order False config s = (Ok out, s')"
    and "fetch_plan ex (envs 0) order config s = Ok (m, plan)"
    and "\<forall>xs. set (order xs) = set xs" and "manifest_ok m" and "temps_ok envs" and "fs_wf s"
  shows "(\<forall>f \<in> set (m_files m). \<exists>b.
        file_at s' (path_key (revocation_cache_dir config) @ [mf_filename f]) = Some b \<and> fips_sha256 b = mf_hash f)
    \<and> manifest_verify ex short order' config s' m
      = map_ok (\<lambda>_. EXIT_SUCCESS)
          (plan_construct short order' s' m None ''https://.../'' (revocation_cache_dir config))"
proof -
  let ?dir = "revocation_cache_dir config"
  have order: "\<And>xs. set (order xs) = set xs" using assms(3) by blast
  from fetch_runs [OF assms(1,2)] have run: "run_steps cl ex envs 1 (pl_steps plan) s = (Ok (), s')" by auto
  have current: "up_to_date s' ?dir f" if "f \<in> set (m_files m)" for f
    by (rule run_plan_current [OF fetch_planD(2) [OF assms(2)] run order assms(4-6) that])
  have "\<exists>b. file_at s' (path_key ?dir @ [mf_filename f]) = Some b \<and> fips_sha256 b = mf_hash f"
    if "f \<in> set (m_files m)" for f
    using hash_file_Ok current [OF that] manifest_okD(1) [OF assms(4) that]
    by (fastforce simp: up_to_date_def path_key_join data_name_def)
  moreover have none: "filter (\<lambda>f. \<not> up_to_date s' ?dir f) (m_files m) = []"
    using current by (simp add: filter_empty_conv)
  have "download_bytes p = 0" if "plan_construct short order' s' m None ''https://.../'' ?dir = Ok p" for p
    using download_bytes_plan [OF that] none by simp
  then have "manifest_verify ex short order' config s' m
      = map_ok (\<lambda>_. EXIT_SUCCESS) (plan_construct short order' s' m None ''https://.../'' ?dir)"
    using fetch_planD(1) [OF assms(2)]
    by (cases "plan_construct short order' s' m None ''https://.../'' ?dir") (simp_all add: manifest_verify_def)
  ultimately show ?thesis by blast
qed

theorem fetch_success_current_witness:
  "\<exists>s'. fetch sample_crlite demo_externals demo_envs (\<lambda>xs. xs) False sample_config demo_fs = (Ok ([], EXIT_SUCCESS), s')
    \<and> (\<forall>f \<in> set (m_files demo_manifest). \<exists>b.
        file_at s' (path_key (revocation_cache_dir sample_config) @ [mf_filename f]) = Some b \<and> fips_sha256 b = mf_hash f)"
  using fetch_success_current [OF demo_fetch demo_fetch_plan _ demo_ok] demo_fetch by auto

text \<open>
  C16: the index is replaced atomically. Whatever the outcome of a fetch and whatever fails on the
  way, \<open>index.bin\<close> afterwards is what it was before, or all the bytes of the index that \<open>Index::write\<close>
  gives for the new manifest in a state of the cache that this fetch came through. The manifest is
  assumed to have plain file names.
\<close>

theorem fetch_index_atomic:
  assumes "fetch cl ex envs order False config s = (r, s')"
    and "fetch_plan ex (envs 0) order config s = Ok (m, plan)"
    and "\<forall>xs. set (order xs) = set xs" and "manifest_ok m" and "temps_ok envs" and "fs_wf s"
  shows "index_state cl (visits cl ex envs (pl_steps plan) s) m (revocation_cache_dir config)
    (file_at s (path_key (revocation_cache_dir config) @ [INDEX_BIN]))
    (file_at s' (path_key (revocation_cache_dir config) @ [INDEX_BIN]))"
proof -
  let ?dir = "revocation_cache_dir config" and ?idx = "path_key (revocation_cache_dir config) @ [INDEX_BIN]"
  let ?I = "\<lambda>t. index_state cl (visits cl ex envs (pl_steps plan) s) m ?dir (file_at s ?idx) (file_at t ?idx)"
  have order: "\<And>xs. set (order xs) = set xs" using assms(3) by blast
  from fetch_runs [OF assms(1,2)] obtain r0 where run: "run_steps cl ex envs 1 (pl_steps plan) s = (r0, s')" by auto
  from run show "?I s'"
  proof (rule run_steps_visited [where I = ?I])
    show "?I s" by (simp add: index_state_def)
    fix k t r' t'
    assume k: "k < length (pl_steps plan)" and before: "run_steps cl ex envs 1 (take k (pl_steps plan)) s = (Ok (), t)" "?I t"
      and step: "execute cl ex (envs (1 + k)) (pl_steps plan ! k) t = (r', t')"
    have "visits cl ex envs (pl_steps plan) s t" unfolding visits_def using before(1) by (rule exI)
    then show "?I t'"
      by (rule step_index_state [OF fetch_planD(2) [OF assms(2)] order assms(4,6) nth_mem [OF k] assms(5) step before(2)])
  qed
qed

theorem fetch_index_atomic_witness:
  "\<exists>r s'. fetch sample_crlite demo_externals demo_envs (\<lambda>xs. xs) False sample_config demo_fs = (r, s')
    \<and> index_state sample_crlite (visits sample_crlite demo_externals demo_envs (pl_steps demo_plan) demo_fs)
        demo_manifest (revocation_cache_dir sample_config)
        (file_at demo_fs (path_key (revocation_cache_dir sample_config) @ [INDEX_BIN]))
        (file_at s' (path_key (revocation_cache_dir sample_config) @ [INDEX_BIN]))"
proof (intro exI conjI)
  show "fetch sample_crlite demo_externals demo_envs (\<lambda>xs. xs) False sample_config demo_fs
      = (Ok ([], EXIT_SUCCESS), demo_final)" by (rule demo_fetch)
  show "index_state sample_crlite (visits sample_crlite demo_externals demo_envs (pl_steps demo_plan) demo_fs)
      demo_manifest (revocation_cache_dir sample_config)
      (file_at demo_fs (path_key (revocation_cache_dir sample_config) @ [INDEX_BIN]))
      (file_at demo_final (path_key (revocation_cache_dir sample_config) @ [INDEX_BIN]))"
    by (rule fetch_index_atomic [OF demo_fetch demo_fetch_plan _ demo_ok]) simp
qed

text \<open>
  C17: a fetch is confined to the cache directory, for a well-behaved manifest, whose names are plain file
  names. Whatever its outcome, it then changes only entries of that directory, and the directory and
  its parents, which it creates. The code does not check the names, and for others this fails.
\<close>

theorem fetch_confined:
  assumes "fetch cl ex envs order False config s = (r, s')"
    and "fetch_plan ex (envs 0) order config s = Ok (m, plan)"
    and "\<forall>xs. set (order xs) = set xs" and "manifest_ok m" and "fs_wf s"
    and "node_at s' k \<noteq> node_at s k"
  shows "k \<in> set (prefix_keys (path_key (revocation_cache_dir config)))
    \<or> (\<exists>n. k = path_key (revocation_cache_dir config) @ [n])"
proof -
  from fetch_runs [OF assms(1,2)] obtain r0 where run: "run_steps cl ex envs 1 (pl_steps plan) s = (r0, s')" by auto
  show ?thesis
    by (rule plan_confined [OF fetch_planD(2) [OF assms(2)] _ assms(4,5) run assms(6)]) (use assms(3) in blast)
qed


theorem fetch_confined_witness:
  "\<exists>s'. fetch sample_crlite demo_externals demo_envs (\<lambda>xs. xs) False sample_config demo_fs = (Ok ([], EXIT_SUCCESS), s')
    \<and> (\<forall>k. node_at s' k \<noteq> node_at demo_fs k \<longrightarrow>
          k \<in> set (prefix_keys (path_key (revocation_cache_dir sample_config)))
          \<or> (\<exists>n. k = path_key (revocation_cache_dir sample_config) @ [n]))"
  using fetch_confined [OF demo_fetch demo_fetch_plan _ demo_ok(1,3)] demo_fetch by blast


definition demo_old :: manifest where
  "demo_old = \<lparr>m_generated_at = 0, m_comment = '''',
     m_files = [\<lparr>mf_filename = ''old.filter'', mf_size = 1, mf_hash = fips_sha256 [9]\<rparr>]\<rparr>"


text \<open>
  C21: a download whose digest is wrong is reported, but the received bytes have already replaced the
  file: they are what the cache holds afterwards.
\<close>

theorem bad_download_stays:
  assumes "execute cl ex env (Download f url p) s = (Err (HashMismatch p), s')"
    and "path_key p \<notin> write_temps env p"
  shows "\<exists>response body. http_get ex env url = Ok response \<and> ex_bytes ex response = Inr body
    \<and> file_at s' (path_key p) = Some body \<and> fips_sha256 body \<noteq> mf_hash f"
proof -
  from assms(1) obtain body d where got: "obind (http_get ex env url) (\<lambda>response.
        map_err (\<lambda>e. HttpFetch (ExtCause e) url) (lift_sum (ex_bytes ex response))) = Ok body"
    and wr: "atomic_write env p body s = (Ok (), s')" and d: "hash_file (se_short env) s' p = Ok d" "d \<noteq> mf_hash f"
    by (auto simp: outcome_simps http_get_def split: outcome.splits prod.splits if_splits)
  have "node_at s' (path_key p) = Some (File body)"
    using atomic_write_frame(4) [OF wr assms(2)] by simp
  moreover from this hash_file_Ok [OF d(1)] have "d = fips_sha256 body" by (simp add: file_at_def)
  ultimately show ?thesis using got d(2) by (auto simp: outcome_simps file_at_def)
qed

theorem bad_download_stays_witness:
  "\<exists>s' response body. execute sample_crlite demo_externals (demo_envs 1)
        (Download (demo_file\<lparr>mf_hash := []\<rparr>) ''u'' ''/c/revocation/a.filter'') demo_fs
        = (Err (HashMismatch ''/c/revocation/a.filter''), s')
     \<and> http_get demo_externals (demo_envs 1) ''u'' = Ok response \<and> ex_bytes demo_externals response = Inr body
     \<and> file_at s' (path_key ''/c/revocation/a.filter'') = Some body
     \<and> fips_sha256 body \<noteq> mf_hash (demo_file\<lparr>mf_hash := []\<rparr>)"
proof -
  have "fips_sha256 [2] \<noteq> []" using length_fips_sha256 [of "[2]"] by (metis length_0_conv zero_neq_numeral)
  then obtain s' where bad: "execute sample_crlite demo_externals (demo_envs 1)
      (Download (demo_file\<lparr>mf_hash := []\<rparr>) ''u'' ''/c/revocation/a.filter'') demo_fs
      = (Err (HashMismatch ''/c/revocation/a.filter''), s')"
    unfolding demo_start
    by (simp add: http_get_def demo_env demo_ext atomic_write_def demo_keys demo_save demo_hash)
  moreover have "path_key ''/c/revocation/a.filter'' \<notin> write_temps (demo_envs 1) ''/c/revocation/a.filter''"
    by (simp add: write_temps_def demo_keys demo_envs_def)
  ultimately show ?thesis using bad_download_stays by blast
qed

text \<open>
  Verification reports the sum of the sizes the manifest claims for the files that are missing or
  differ (modulo 2 to the power of 64), and succeeds when that sum is zero: a damaged file whose claimed size is zero
  goes unnoticed.
\<close>

lemma verify_sums_sizes:
  "manifest_verify ex short order config s m =
     obind (introduce (ex_rfc3339 ex) m) (\<lambda>_.
     obind (plan_construct short order s m None ''https://.../'' (revocation_cache_dir config)) (\<lambda>_.
       let n = (\<Sum>f \<leftarrow> filter (\<lambda>f. \<not> up_to_date s (revocation_cache_dir config) f) (m_files m). mf_size f) mod 2 ^ 64
       in if n = 0 then Ok EXIT_SUCCESS else Err (Outdated n)))"
proof -
  have "(case n of 0 \<Rightarrow> Ok EXIT_SUCCESS | Suc k \<Rightarrow> Err (Outdated (Suc k))) = (if n = 0 then Ok EXIT_SUCCESS else Err (Outdated n))"
    for n by (cases n) simp_all
  then show ?thesis
    unfolding manifest_verify_def by (intro obind_cong refl) (simp add: download_bytes_plan Let_def)
qed

end
