(* ===== verification/Fetch_Live.thy ===== *)
theory Fetch_Live
  imports Fetch_Properties
begin

text \<open>
  Progress of the fetcher. The theorems of \<open>Fetch_Properties\<close> say what holds after a fetch that
  succeeded; here it is shown that a fetch does succeed when the server answers as the manifest says
  and the file system reports no failure, from any state of the cache directory: a missing
  directory, missing, damaged or stale files. Each step of a plan succeeds in a state that is
  \<open>cache_ready\<close> and leads to such a state again.
\<close>

section \<open>States in which every step succeeds\<close>

text \<open>
  The names a plan may replace or delete. They must not be taken by directories, and the names of
  temporary files (which \<open>tempfile\<close> draws until it finds a free one) must be free.
\<close>

definition cache_name :: "manifest \<Rightarrow> string \<Rightarrow> bool" where
  "cache_name m n \<longleftrightarrow> n = INDEX_BIN \<or> n = MANIFEST_JSON \<or> filter_name n \<or> n \<in> mf_filename ` set (m_files m)"

definition temp_names :: "(nat \<Rightarrow> 'r step_env) \<Rightarrow> string set" where
  "temp_names envs = (\<Union>i. {se_temp (envs i), se_temp (envs i) @ ''.new''})"

definition cache_ready :: "(nat \<Rightarrow> 'r step_env) \<Rightarrow> manifest \<Rightarrow> path \<Rightarrow> fs \<Rightarrow> bool" where
  "cache_ready envs m local s \<longleftrightarrow>
     (\<forall>op k. fs_fault s op k = None)
     \<and> (\<forall>n. cache_name m n \<longrightarrow> node_at s (path_key local @ [n]) \<noteq> Some Dir)
     \<and> (\<forall>n \<in> temp_names envs. node_at s (path_key local @ [n]) = None)"

lemma temp_names_mem:
  "se_temp (envs i) \<in> temp_names envs" "se_temp (envs i) @ ''.new'' \<in> temp_names envs"
  by (auto simp: temp_names_def)

lemma cache_readyD:
  assumes "cache_ready envs m local s"
  shows "fs_fault s op k = None"
    and "cache_name m n \<Longrightarrow> node_at s (path_key local @ [n]) \<noteq> Some Dir"
    and "n \<in> temp_names envs \<Longrightarrow> node_at s (path_key local @ [n]) = None"
  using assms by (auto simp: cache_ready_def)

text \<open>Replacing an entry succeeds and changes that entry only.\<close>

lemma save_file_succeeds:
  assumes "\<And>op k. fs_fault s op k = None" and "node_at s dir = Some Dir" and "node_at s (dir @ [t]) = None"
    and "node_at s (dir @ [n]) \<noteq> Some Dir" and "t \<noteq> n"
  shows "\<exists>s'. save_file env dir t (dir @ [n]) d s = (Ok (), s') \<and> fs_fault s' = fs_fault s
    \<and> (\<forall>k. node_at s' k = (if k = dir @ [n] then Some (File d) else node_at s k))"
  using assms by (simp add: save_file_def tempfile_in_def write_all_def persist_def file_at_def)

lemma atomic_write_succeeds:
  assumes "cache_ready envs m local s" and "node_at s (path_key local) = Some Dir"
    and "plain_name n" and "cache_name m n" and "n \<notin> temp_names envs"
  shows "\<exists>s'. atomic_write (envs i) (path_join local n) d s = (Ok (), s') \<and> fs_fault s' = fs_fault s
    \<and> (\<forall>k. node_at s' k = (if k = path_key local @ [n] then Some (File d) else node_at s k))"
proof -
  have "se_temp (envs i) \<noteq> n" using assms(5) temp_names_mem(1) by metis
  then obtain s' where "save_file (envs i) (path_key local) (se_temp (envs i)) (path_key local @ [n]) d s = (Ok (), s')"
    "fs_fault s' = fs_fault s" "\<forall>k. node_at s' k = (if k = path_key local @ [n] then Some (File d) else node_at s k)"
    using save_file_succeeds cache_readyD [OF assms(1)] assms(2,4) temp_names_mem(1) by metis
  with assms(3) show ?thesis by (simp add: atomic_write_def parent_key_join path_key_join)
qed

lemma ready_after_write:
  assumes "cache_ready envs m local s" and "fs_fault s' = fs_fault s" and "n \<notin> temp_names envs"
    and "\<forall>k. node_at s' k = (if k = path_key local @ [n] then Some (File d) else node_at s k)"
  shows "cache_ready envs m local s'"
  using assms by (auto simp: cache_ready_def)

section \<open>The steps\<close>

text \<open>
  What a client needs to run a list of steps to its end: each step succeeds in a good state and
  leads to a good state for the steps that follow.
\<close>

locale progress =
  fixes good :: "plan_step list \<Rightarrow> fs \<Rightarrow> bool"
    and exec :: "nat \<Rightarrow> plan_step \<Rightarrow> fs \<Rightarrow> (rev_error, unit) outcome \<times> fs"
    and run :: "nat \<Rightarrow> plan_step list \<Rightarrow> fs \<Rightarrow> (rev_error, unit) outcome \<times> fs"
  assumes step: "good (st # steps) s \<Longrightarrow> \<exists>s'. exec i st s = (Ok (), s') \<and> good steps s'"
    and run_Nil: "run i [] s = (Ok (), s)"
    and run_Cons: "exec i st s = (Ok (), s') \<Longrightarrow> run i (st # steps) s = run (Suc i) steps s'"
begin

lemma run_succeeds: "good steps s \<Longrightarrow> \<exists>s'. run i steps s = (Ok (), s') \<and> good [] s'"
proof (induction steps arbitrary: i s)
  case (Cons st steps)
  from step [OF Cons.prems, of i] obtain s1 where "exec i st s = (Ok (), s1)" "good steps s1" by blast
  with Cons.IH [of s1 "Suc i"] show ?case by (simp add: run_Cons)
qed (simp add: run_Nil)

end

text \<open>The server answers every request for a file of the manifest with contents of the right digest.\<close>

definition server_ok :: "'r externals \<Rightarrow> (nat \<Rightarrow> 'r step_env) \<Rightarrow> string \<Rightarrow> manifest \<Rightarrow> bool" where
  "server_ok ex envs url m \<longleftrightarrow> (\<forall>i. \<forall>f \<in> set (m_files m). \<exists>response body.
     http_get ex (envs i) (url @ mf_filename f) = Ok response \<and> ex_bytes ex response = Inr body
     \<and> 8 * length body \<le> usize_max \<and> fips_sha256 body = mf_hash f)"

text \<open>
  A state is good for the rest of a plan when it is ready, the directory exists or is created first,
  downloads are of files of the manifest, and the files to delete exist and are named once.
\<close>

fun deleted :: "plan_step \<Rightarrow> path option" where
  "deleted (Delete p) = Some p"
| "deleted _ = None"

fun step_good :: "manifest \<Rightarrow> string \<Rightarrow> path \<Rightarrow> plan_step \<Rightarrow> bool" where
  "step_good m url local (CreateDir p) = (p = local)"
| "step_good m url local (Download f u p) = (f \<in> set (m_files m) \<and> Download f u p = download_step f url local)"
| "step_good m url local (Delete p) = (\<exists>n. plain_name n \<and> filter_name n \<and> n \<notin> mf_filename ` set (m_files m)
     \<and> p = path_join local n)"
| "step_good m url local (SaveIndex m' d) = (m' = m \<and> d = local)"
| "step_good m url local (SaveManifest m' d) = (m' = m \<and> d = local)"

definition plan_good ::
  "'r externals \<Rightarrow> (nat \<Rightarrow> 'r step_env) \<Rightarrow> manifest \<Rightarrow> string \<Rightarrow> path \<Rightarrow> plan_step list \<Rightarrow> fs \<Rightarrow> bool" where
  "plan_good ex envs m url local steps s \<longleftrightarrow>
     server_ok ex envs url m \<and> manifest_ok m \<and> temps_ok envs \<and> (\<exists>data. ex_json_vec ex m = Inr data)
     \<and> cache_ready envs m local s
     \<and> (\<forall>st \<in> set steps. step_good m url local st)
     \<and> (if CreateDir local \<in> set steps
        then hd steps = CreateDir local \<and> CreateDir local \<notin> set (tl steps)
          \<and> (\<forall>q \<in> set (prefix_keys (path_key local)). file_at s q = None)
        else node_at s (path_key local) = Some Dir)
     \<and> distinct (map path_key (List.map_filter deleted steps))
     \<and> (\<forall>p \<in> set (List.map_filter deleted steps). file_at s (path_key p) \<noteq> None)"

lemma plan_good_dir:
  "plan_good ex envs m url local (st # steps) s \<Longrightarrow> st \<noteq> CreateDir local \<Longrightarrow> node_at s (path_key local) = Some Dir"
  by (auto simp: plan_good_def split: if_splits)

lemma names_not_temp:
  assumes "temps_ok envs"
  shows "data_name n \<Longrightarrow> n \<notin> temp_names envs" "INDEX_BIN \<notin> temp_names envs" "MANIFEST_JSON \<notin> temp_names envs"
proof -
  have "temp_name n" if "n \<in> temp_names envs" for n
    using that assms temp_name_new by (auto simp: temp_names_def temps_ok_def)
  then show "data_name n \<Longrightarrow> n \<notin> temp_names envs" "INDEX_BIN \<notin> temp_names envs" "MANIFEST_JSON \<notin> temp_names envs"
    using fixed_names by (auto simp: data_name_def)
qed

text \<open>Writing an entry keeps the rest of the plan good.\<close>

lemma plan_good_write:
  assumes good: "plan_good ex envs m url local (st # steps) s" and "st \<noteq> CreateDir local" "deleted st = None"
    and fault: "fs_fault s' = fs_fault s" and n: "n \<notin> temp_names envs"
    and nodes: "\<forall>k. node_at s' k = (if k = path_key local @ [n] then Some (File d) else node_at s k)"
  shows "plan_good ex envs m url local steps s'"
proof -
  have "cache_ready envs m local s'"
    using ready_after_write [OF _ fault n nodes] good by (simp add: plan_good_def)
  moreover have "node_at s' (path_key local) = Some Dir"
    using plan_good_dir [OF good assms(2)] nodes by simp
  moreover have "CreateDir local \<notin> set steps"
    using good assms(2) by (auto simp: plan_good_def split: if_splits)
  moreover have "file_at s' k \<noteq> None" if "file_at s k \<noteq> None" for k
    using that nodes by (simp add: file_at_def)
  ultimately show ?thesis using good assms(3) by (simp add: plan_good_def map_filter_simps)
qed

lemma download_succeeds:
  assumes good: "plan_good ex envs m url local (Download f u p # steps) s"
  shows "\<exists>s'. execute cl ex (envs i) (Download f u p) s = (Ok (), s') \<and> plan_good ex envs m url local steps s'"
proof -
  let ?n = "mf_filename f"
  have f: "f \<in> set (m_files m)" and st: "u = url @ ?n" "p = path_join local ?n"
    using good by (auto simp: plan_good_def download_step_def)
  then obtain response body where get: "http_get ex (envs i) u = Ok response" "ex_bytes ex response = Inr body"
    and body: "8 * length body \<le> usize_max" "fips_sha256 body = mf_hash f"
    using good by (fastforce simp: plan_good_def server_ok_def)
  have n: "data_name ?n" "plain_name ?n" "cache_name m ?n" "?n \<notin> temp_names envs"
    using good f names_not_temp(1) manifest_okD(1) [of m f]
    by (auto simp: plan_good_def data_name_def cache_name_def)
  obtain s' where w: "atomic_write (envs i) p body s = (Ok (), s')" and s': "fs_fault s' = fs_fault s"
      "\<forall>k. node_at s' k = (if k = path_key local @ [?n] then Some (File body) else node_at s k)"
    using atomic_write_succeeds [OF _ plan_good_dir [OF good] n(2-4), of i body] good st(2)
    by (auto simp: plan_good_def)
  have "\<And>op k. fs_fault s op k = None" using good cache_readyD(1) by (auto simp: plan_good_def)
  then have "hash_file (se_short (envs i)) s' p = Ok (mf_hash f)"
    using s' st(2) n(2) body by (simp add: hash_file_eq file_open_def path_key_join sha256_outcome_def Let_def)
  then have "execute cl ex (envs i) (Download f u p) s = (Ok (), s')"
    using get w by simp
  moreover have "plan_good ex envs m url local steps s'"
    by (rule plan_good_write [OF good _ _ s'(1) n(4) s'(2)]) simp_all
  ultimately show ?thesis by blast
qed

lemma save_index_succeeds:
  assumes good: "plan_good ex envs m url local (SaveIndex m' d # steps) s"
  shows "\<exists>s'. execute cl ex (envs i) (SaveIndex m' d) s = (Ok (), s') \<and> plan_good ex envs m url local steps s'"
proof -
  have st: "m' = m" "d = local" and temps: "temps_ok envs" and ready: "cache_ready envs m local s"
    using good by (auto simp: plan_good_def)
  show ?thesis
  proof (cases "index_write cl s m local")
    case None
    moreover have "plan_good ex envs m url local steps s"
      using good by (auto simp: plan_good_def map_filter_simps split: if_splits)
    ultimately show ?thesis using st by simp
  next
    case (Some buf)
    have "node_at s (path_key local @ [INDEX_BIN]) \<noteq> Some Dir"
      by (rule cache_readyD(2) [OF ready]) (simp add: cache_name_def)
    moreover have "node_at s (path_key local @ [se_temp (envs i) @ ''.new'']) = None"
      by (rule cache_readyD(3) [OF ready temp_names_mem(2)])
    moreover have "se_temp (envs i) @ ''.new'' \<noteq> INDEX_BIN" using fixed_not_temp [OF temps, of i] by metis
    ultimately obtain s' where "save_file (envs i) (path_key local) (se_temp (envs i) @ ''.new'') (path_key local @ [INDEX_BIN]) buf s = (Ok (), s')"
      and s': "fs_fault s' = fs_fault s"
        "\<forall>k. node_at s' k = (if k = path_key local @ [INDEX_BIN] then Some (File buf) else node_at s k)"
      using save_file_succeeds [OF cache_readyD(1) [OF ready] plan_good_dir [OF good], of "se_temp (envs i) @ ''.new''" INDEX_BIN "envs i" buf]
      by auto
    then have "execute cl ex (envs i) (SaveIndex m' d) s = (Ok (), s')"
      using st Some by (simp add: Let_def path_key_join fixed_names)
    moreover have "plan_good ex envs m url local steps s'"
      by (rule plan_good_write [OF good _ _ s'(1) names_not_temp(2) [OF temps] s'(2)]) simp_all
    ultimately show ?thesis by blast
  qed
qed

lemma save_manifest_succeeds:
  assumes good: "plan_good ex envs m url local (SaveManifest m' d # steps) s"
  shows "\<exists>s'. execute cl ex (envs i) (SaveManifest m' d) s = (Ok (), s') \<and> plan_good ex envs m url local steps s'"
proof -
  from good obtain data where st: "m' = m" "d = local" and temps: "temps_ok envs" and ready: "cache_ready envs m local s"
    and data: "ex_json_vec ex m = Inr data"
    by (auto simp: plan_good_def)
  obtain s' where "atomic_write (envs i) (path_join local MANIFEST_JSON) data s = (Ok (), s')"
    and s': "fs_fault s' = fs_fault s"
      "\<forall>k. node_at s' k = (if k = path_key local @ [MANIFEST_JSON] then Some (File data) else node_at s k)"
    using atomic_write_succeeds [OF ready plan_good_dir [OF good] fixed_names(2) _ names_not_temp(3) [OF temps], of i data]
    by (auto simp: cache_name_def)
  then have "execute cl ex (envs i) (SaveManifest m' d) s = (Ok (), s')" using st data by (simp add: Let_def)
  moreover have "plan_good ex envs m url local steps s'"
    by (rule plan_good_write [OF good _ _ s'(1) names_not_temp(3) [OF temps] s'(2)]) simp_all
  ultimately show ?thesis by blast
qed

lemma create_dir_succeeds:
  assumes good: "plan_good ex envs m url local (CreateDir p # steps) s"
  shows "\<exists>s'. execute cl ex (envs i) (CreateDir p) s = (Ok (), s') \<and> plan_good ex envs m url local steps s'"
proof -
  let ?k = "path_key local"
  have p: "p = local" and ready: "cache_ready envs m local s" and files: "\<forall>q \<in> set (prefix_keys ?k). file_at s q = None"
    and steps: "CreateDir local \<notin> set steps"
    using good by (auto simp: plan_good_def split: if_splits)
  from files cache_readyD(1) [OF ready] obtain s' where create: "fs_create_dir_all local s = (Ok (), s')" "fs_fault s' = fs_fault s"
    and nodes: "\<And>q. node_at s' q = (if q \<in> set (prefix_keys ?k) then Some Dir else node_at s q)"
    by (rule_tac create_dir_Ok [of local s]) auto
  have run: "execute cl ex (envs i) (CreateDir p) s = (Ok (), s')"
    using p create(1) by simp
  moreover have "cache_ready envs m local s'"
    using ready by (simp add: cache_ready_def nodes entry_not_prefix create(2))
  moreover have "?k = [] \<or> ?k \<in> set (prefix_keys ?k)"
  proof -
    have "k \<noteq> [] \<Longrightarrow> k \<in> set (prefix_keys k)" for k :: key by (induction k) auto
    then show ?thesis by blast
  qed
  then have "node_at s' ?k = Some Dir" using target_nonempty by (auto simp: nodes)
  moreover have "file_at s' q \<noteq> None" if "file_at s q \<noteq> None" for q
    using that files by (auto simp: file_at_def nodes)
  ultimately have "plan_good ex envs m url local steps s'"
    using good steps by (simp add: plan_good_def map_filter_simps)
  with run show ?thesis by blast
qed

lemma delete_succeeds:
  assumes good: "plan_good ex envs m url local (Delete p # steps) s"
  shows "\<exists>s'. execute cl ex (envs i) (Delete p) s = (Ok (), s') \<and> plan_good ex envs m url local steps s'"
proof -
  let ?k = "path_key p" and ?s' = "del_node (path_key p) s"
  have ready: "cache_ready envs m local s" and other: "?k \<notin> path_key ` set (List.map_filter deleted steps)"
    and "file_at s ?k \<noteq> None"
    using good by (auto simp: plan_good_def map_filter_simps)
  then obtain b where b: "node_at s ?k = Some (File b)" by (auto simp: file_at_def split: option.splits node.splits)
  then have k: "?k \<noteq> []" by (auto simp: node_at_def)
  have "execute cl ex (envs i) (Delete p) s = (Ok (), ?s')"
    using b cache_readyD(1) [OF ready] by (simp add: fs_remove_file_def Let_def)
  moreover have "cache_ready envs m local ?s'" using ready k by (simp add: cache_ready_def)
  moreover have "CreateDir local \<notin> set steps" "node_at s (path_key local) = Some Dir"
    using good plan_good_dir [OF good] by (auto simp: plan_good_def split: if_splits)
  moreover have "file_at ?s' (path_key q) = file_at s (path_key q)" if "q \<in> set (List.map_filter deleted steps)" for q
  proof -
    have "path_key q \<noteq> ?k" using that other by (metis imageI)
    with k show ?thesis by (simp add: file_at_def)
  qed
  ultimately have "plan_good ex envs m url local steps ?s'"
    using good k b by (auto simp: plan_good_def map_filter_simps)
  with \<open>execute cl ex (envs i) (Delete p) s = (Ok (), ?s')\<close> show ?thesis by blast
qed

interpretation live: progress "plan_good ex envs m url local" "\<lambda>i. execute cl ex (envs i)" "run_steps cl ex envs"
  for cl ex envs m url local
proof
  show "\<exists>s'. execute cl ex (envs i) st s = (Ok (), s') \<and> plan_good ex envs m url local steps s'"
    if "plan_good ex envs m url local (st # steps) s" for st steps s i
    using that create_dir_succeeds download_succeeds delete_succeeds save_index_succeeds save_manifest_succeeds
    by (cases st) (simp_all del: execute.simps)
qed simp_all

section \<open>The plan\<close>

text \<open>
  The cache directory before a fetch: it exists and can be listed, or can be created; its files are
  small enough to be hashed.
\<close>

definition cache_usable :: "(nat \<Rightarrow> 'r step_env) \<Rightarrow> manifest \<Rightarrow> path \<Rightarrow> fs \<Rightarrow> bool" where
  "cache_usable envs m local s \<longleftrightarrow>
     cache_ready envs m local s \<and> fs_wf s
     \<and> (\<forall>q \<in> set (prefix_keys (path_key local)). file_at s q = None)
     \<and> (\<forall>f \<in> set (m_files m). \<forall>b. file_at s (path_key local @ [mf_filename f]) = Some b \<longrightarrow> 8 * length b \<le> usize_max)"

lemma own_prefix: "k \<noteq> [] \<Longrightarrow> k \<in> set (prefix_keys k)"
  by (induction k) auto

lemma usable_dir:
  assumes "cache_usable envs m local s" and "fs_exists s local"
  shows "node_at s (path_key local) = Some Dir"
proof (cases "path_key local = []")
  case False
  then have "file_at s (path_key local) = None"
    using assms(1) own_prefix by (auto simp: cache_usable_def)
  with assms(2) show ?thesis by (auto simp: fs_exists_def file_at_def split: option.splits node.splits)
qed (simp add: node_at_def)

lemma hash_no_panic:
  assumes "\<And>b. file_at s (path_key p) = Some b \<Longrightarrow> 8 * length b \<le> usize_max"
  shows "hash_file short s p \<noteq> Panic"
  using assms by (auto simp: hash_file_eq file_open_def file_at_def sha256_outcome_def outcome_simps Let_def
      split: option.splits node.splits sum.splits if_splits)

lemma scan_dir_succeeds: "scan_dir (map Inr names) acc \<noteq> Panic" "scan_dir (map Inr names) acc \<noteq> Err e"
  by (induction names arbitrary: acc) auto

lemma plan_construct_Dir:
  assumes dir: "fs_exists s local \<Longrightarrow> node_at s (path_key local) = Some Dir" and fault: "\<And>op k. fs_fault s op k = None"
    and "\<And>f. f \<in> set (m_files m) \<Longrightarrow> hash_file short s (path_join local (mf_filename f)) \<noteq> Panic"
  shows "\<exists>plan. plan_construct short order s m old url local = Ok plan"
proof -
  have files: "\<exists>r. plan_files short s url local (m_files m) steps unwanted = Ok r" for steps unwanted
    using assms(3) by (auto simp: plan_files_eq)
  have "\<exists>names. fs_read_dir s local = Ok (map Inr names)" if "fs_exists s local"
    using dir [OF that] fault
    by (intro exI [of _ "map last (filter (\<lambda>c. c \<noteq> [] \<and> butlast c = path_key local) (map fst (fs_nodes s)))"])
       (simp add: fs_read_dir_def Let_def comp_def)
  then have "\<exists>r. (if fs_exists s local
            then obind (map_err (\<lambda>e. CreateDirectory e local) (fs_read_dir s local)) (\<lambda>entries.
                   map_ok (\<lambda>unwanted. ([], unwanted)) (scan_dir entries []))
            else Ok ([CreateDir local], [])) = Ok r"
    using scan_dir_succeeds by (auto simp: outcome_simps) (metis outcome.exhaust)
  then show ?thesis using files by (fastforce simp: plan_construct_def outcome_simps Let_def)
qed

lemma plan_construct_succeeds:
  assumes "cache_usable envs m local s" and m: "manifest_ok m"
  shows "\<exists>plan. plan_construct short order s m old url local = Ok plan"
proof (rule plan_construct_Dir)
  show "node_at s (path_key local) = Some Dir" if "fs_exists s local" using usable_dir [OF assms(1) that] .
  show "fs_fault s op k = None" for op k using assms(1) by (simp add: cache_usable_def cache_ready_def)
  show "hash_file short s (path_join local (mf_filename f)) \<noteq> Panic" if "f \<in> set (m_files m)" for f
    using assms(1) that manifest_okD(1) [OF m that]
    by (intro hash_no_panic) (auto simp: cache_usable_def data_name_def path_key_join)
qed

lemma map_filter_deletes:
  "List.map_filter deleted (map (\<lambda>n. Delete (path_join local n)) ns) = map (path_join local) ns"
  by (induction ns) (simp_all add: map_filter_simps)

lemma map_filter_no_deletes:
  "(\<forall>st \<in> set steps. deleted st = None) \<Longrightarrow> List.map_filter deleted (steps @ rest) = List.map_filter deleted rest"
  by (induction steps) (simp_all add: map_filter_simps)

lemma stale_entry_file:
  assumes "cache_usable envs m local s" and n: "n \<in> stale_entries s local m old"
  shows "file_at s (path_key local @ [n]) \<noteq> None"
proof -
  have fault: "fs_fault s op k = None" for op k using assms(1) by (simp add: cache_usable_def cache_ready_def)
  have "cache_name m n" using n by (simp add: stale_entries_def cache_name_def)
  then have "node_at s (path_key local @ [n]) \<noteq> Some Dir"
    using assms(1) by (simp add: cache_usable_def cache_ready_def)
  moreover have "path_key local @ [n] \<in> set (map fst (fs_nodes s))"
    using n fault by (auto simp: stale_entries_def fs_read_dir_def Let_def split: option.splits node.splits)
       (metis append_butlast_last_id fst_conv image_eqI)
  then have "node_at s (path_key local @ [n]) \<noteq> None"
    by (simp add: node_at_def map_of_eq_None_iff)
  ultimately show ?thesis by (auto simp: file_at_def split: option.splits node.splits)
qed

lemma plan_is_good:
  assumes plan: "plan_construct short order s m old url local = Ok plan"
    and usable: "cache_usable envs m local s" and m: "manifest_ok m" and temps: "temps_ok envs"
    and server: "server_ok ex envs url m" "ex_json_vec ex m = Inr data"
    and order: "\<forall>xs. set (order xs) = set xs \<and> length (order xs) = length xs"
  shows "plan_good ex envs m url local (pl_steps plan) s"
proof -
  from plan_construct_steps [OF plan] obtain unwanted where dist: "distinct unwanted"
    and stale: "set unwanted = stale_entries s local m old"
    and steps: "pl_steps plan = (if fs_exists s local then [] else [CreateDir local])
        @ map (\<lambda>f. download_step f url local) (filter (\<lambda>f. \<not> up_to_date s local f) (m_files m))
        @ [SaveIndex m local, SaveManifest m local]
        @ map (\<lambda>n. Delete (path_join local n)) (order unwanted)"
    by blast
  define ns where "ns = order unwanted"
  have wf: "fs_wf s" using usable by (simp add: cache_usable_def)
  have "set ns = set unwanted" "length ns = length unwanted" using order by (simp_all add: ns_def)
  then have ns: "distinct ns" "set ns = stale_entries s local m old"
    using dist stale card_distinct [of ns] distinct_card [of unwanted] by simp_all
  have name: "plain_name n \<and> filter_name n \<and> n \<notin> mf_filename ` set (m_files m)" if "n \<in> set ns" for n
  proof -
    have n: "n \<in> stale_entries s local m old" using that ns(2) by simp
    then have "filter_name n" "\<not> named_by (m_files m) n" by (simp_all add: stale_entries_def)
    with stale_entry_plain [OF wf n] show ?thesis by (auto simp: named_by_def)
  qed
  have del: "List.map_filter deleted (pl_steps plan) = map (path_join local) ns"
    unfolding steps ns_def [symmetric] append_assoc [symmetric]
    by (subst map_filter_no_deletes) (auto simp: download_step_def map_filter_deletes)
  have keys: "map path_key (map (path_join local) ns) = map (\<lambda>n. path_key local @ [n]) ns"
    using name by (simp add: path_key_join)
  have "distinct (map path_key (List.map_filter deleted (pl_steps plan)))"
    unfolding del keys using ns(1) by (simp add: distinct_map inj_on_def)
  moreover have "file_at s (path_key p) \<noteq> None" if "p \<in> set (List.map_filter deleted (pl_steps plan))" for p
    using that name stale_entry_file [OF usable] ns(2) by (auto simp: del path_key_join)
  moreover have "\<forall>st \<in> set (pl_steps plan). step_good m url local st"
    using name by (auto simp: steps ns_def [symmetric] download_step_def split: if_splits) blast+
  moreover have "CreateDir local \<in> set (pl_steps plan) \<longleftrightarrow> \<not> fs_exists s local"
    "\<not> fs_exists s local \<Longrightarrow> hd (pl_steps plan) = CreateDir local \<and> CreateDir local \<notin> set (tl (pl_steps plan))"
    by (auto simp: steps download_step_def)
  ultimately show ?thesis
    using usable_dir [OF usable] usable m temps server unfolding plan_good_def cache_usable_def by auto
qed

section \<open>Properties\<close>

text \<open>
  C15: a fetch makes progress. When the server offers a well-behaved manifest and answers each
  request for its files with contents of the right digest, and the file system reports no failure,
  then from any state of the cache directory, a missing one included, the fetch ends with success,
  and verifying the cache against that manifest succeeds afterwards.
\<close>

theorem fetch_succeeds:
  assumes "ex_client ex = Inr ()"
    and "http_get ex (envs 0) (rc_fetch_url (cfg_revocation config) @ MANIFEST_JSON) = Ok response"
    and "ex_json ex response = Inr m" and "introduce (ex_rfc3339 ex) m = Ok ()" and "ex_json_vec ex m = Inr data"
    and "server_ok ex envs (rc_fetch_url (cfg_revocation config)) m" and "manifest_ok m" and "temps_ok envs"
    and "cache_usable envs m (revocation_cache_dir config) s"
    and "\<forall>xs. set (order xs) = set xs \<and> length (order xs) = length xs"
  shows "\<exists>s'. fetch cl ex envs order False config s = (Ok ([], EXIT_SUCCESS), s')
    \<and> manifest_verify ex short order' config s' m = Ok EXIT_SUCCESS"
proof -
  let ?dir = "revocation_cache_dir config" and ?url = "rc_fetch_url (cfg_revocation config)"
  obtain plan where plan: "plan_construct (se_short (envs 0)) order s m (ok_option (manifest_from_config ex config s)) ?url ?dir
      = Ok plan"
    using plan_construct_succeeds [OF assms(9,7)] by blast
  then have fp: "fetch_plan ex (envs 0) order config s = Ok (m, plan)"
    using assms(1-4) by (simp add: fetch_plan_def Let_def)
  from live.run_succeeds [OF plan_is_good [OF plan assms(9,7,8,6,5,10)]] obtain s' where
    run: "run_steps cl ex envs 1 (pl_steps plan) s = (Ok (), s')" and good: "plan_good ex envs m ?url ?dir [] s'"
    by blast
  have fetch: "fetch cl ex envs order False config s = (Ok ([], EXIT_SUCCESS), s')"
    using fp run by (simp add: fetch_def)
  have order: "\<And>xs. set (order xs) = set xs" using assms(10) by blast
  have wf: "fs_wf s" using assms(9) by (simp add: cache_usable_def)
  have current: "up_to_date s' ?dir f" if "f \<in> set (m_files m)" for f
    by (rule run_plan_current [OF plan run order assms(7,8) wf that])
  then have "hash_file short s' (path_join ?dir (mf_filename f)) \<noteq> Panic" if "f \<in> set (m_files m)" for f
    using that up_to_date_iff [of short s' ?dir f] by force
  moreover have "node_at s' (path_key ?dir) = Some Dir" "\<And>op k. fs_fault s' op k = None"
    using good by (simp_all add: plan_good_def cache_ready_def)
  ultimately obtain p where "plan_construct short order' s' m None ''https://.../'' ?dir = Ok p"
    using plan_construct_Dir by blast
  moreover from this have "download_bytes p = 0"
    using download_bytes_plan current by (simp add: filter_False)
  ultimately show ?thesis using fetch assms(4) by (auto simp: manifest_verify_def)
qed

theorem fetch_succeeds_witness:
  "\<exists>s'. fetch sample_crlite demo_externals demo_envs (\<lambda>xs. xs) False sample_config
        \<lparr>fs_nodes = [], fs_fault = (\<lambda>_ _. None)\<rparr> = (Ok ([], EXIT_SUCCESS), s')
     \<and> manifest_verify demo_externals (\<lambda>_. 1) (\<lambda>xs. xs) sample_config s' demo_manifest = Ok EXIT_SUCCESS"
proof -
  let ?url = "rc_fetch_url (cfg_revocation sample_config)" and ?s = "\<lparr>fs_nodes = [], fs_fault = (\<lambda>_ _. None)\<rparr>"
  have "http_get demo_externals (demo_envs 0) (?url @ MANIFEST_JSON) = Ok [2]"
    by (simp add: http_get_def demo_env demo_ext)
  moreover have "ex_json demo_externals [2] = Inr demo_manifest" "introduce (ex_rfc3339 demo_externals) demo_manifest = Ok ()"
    "ex_client demo_externals = Inr ()"
    by (simp_all add: demo_externals_def introduce_def)
  moreover have "server_ok demo_externals demo_envs ?url demo_manifest"
    using demo_small by (simp add: server_ok_def http_get_def demo_env demo_ext demo_manifest_def demo_file_def)
  moreover have "cache_usable demo_envs demo_manifest (revocation_cache_dir sample_config) ?s"
    by (simp add: cache_usable_def cache_ready_def fs_wf_def sample_revocation_dir demo_keys node_at_def file_at_def)
  ultimately show ?thesis
    using fetch_succeeds [of demo_externals demo_envs sample_config "[2]" demo_manifest "[0]" ?s "\<lambda>xs. xs"] demo_ok demo_ext(3)
    by simp
qed

end
