(* ===== verification/Ffi.thy ===== *)
theory Ffi
  imports Index_Safety
begin

text \<open>
  The C interface of \<open>upki/src/ffi.rs\<close>: result codes, the conversion of errors, the check of a
  certificate array and the life cycle of a configuration handle.

  Memory is explicit. A \<open>c_memory\<close> holds what raw pointers can denote here: bytes, certificate
  descriptors, storage for a pointer, and boxed configurations. Dereferencing a pointer outside its
  allocation, a null or misaligned slice, a second \<open>upki_config_free\<close> of a handle and the like are
  undefined behaviour and give \<open>Undefined\<close>; a panic inside \<open>catch_unwind\<close> gives the result
  \<open>UPKI_ERR_PANICKED\<close>. The address of a new box is the allocator's choice and an argument.
\<close>

section \<open>Result codes\<close>

datatype upki_result =
  UPKI_OK
| UPKI_REVOCATION_NOT_COVERED
| UPKI_REVOCATION_REVOKED
| UPKI_REVOCATION_NOT_REVOKED
| UPKI_ERR_NULL_POINTER
| UPKI_ERR_CONFIG_PATH
| UPKI_ERR_UNKNOWN
| UPKI_ERR_PANICKED
| UPKI_ERR_CONFIG_DECODE
| UPKI_ERR_CONFIG_READ
| UPKI_ERR_NO_CACHE_DIR
| UPKI_ERR_NO_CONFIG_DIR
| UPKI_ERR_NO_HOME_DIR
| UPKI_ERR_REVOCATION_CREATE_DIR
| UPKI_ERR_REVOCATION_FILE_WRITE
| UPKI_ERR_REVOCATION_FILE_DECODE
| UPKI_ERR_REVOCATION_FILE_READ
| UPKI_ERR_REVOCATION_HASH_MISMATCH
| UPKI_ERR_REVOCATION_HTTP_FETCH
| UPKI_ERR_REVOCATION_INVALID_BASE64
| UPKI_ERR_REVOCATION_INVALID_END_ENTITY_CERT
| UPKI_ERR_REVOCATION_INVALID_INTERMEDIATE_CERT
| UPKI_ERR_REVOCATION_INVALID_LENGTH
| UPKI_ERR_REVOCATION_INVALID_SCT_ENCODING
| UPKI_ERR_REVOCATION_INVALID_SCT_IN_CERT
| UPKI_ERR_REVOCATION_INVALID_TIMESTAMP
| UPKI_ERR_REVOCATION_MANIFEST_ENCODE
| UPKI_ERR_REVOCATION_NO_ISSUER
| UPKI_ERR_REVOCATION_OUTDATED
| UPKI_ERR_REVOCATION_REMOVE_FILE
| UPKI_ERR_REVOCATION_TOO_FEW_CERTS

text \<open>The values of the \<open>repr(C)\<close> enumeration.\<close>

primrec upki_result_code :: "upki_result \<Rightarrow> nat" where
  "upki_result_code UPKI_OK = 0"
| "upki_result_code UPKI_REVOCATION_NOT_COVERED = 1"
| "upki_result_code UPKI_REVOCATION_REVOKED = 2"
| "upki_result_code UPKI_REVOCATION_NOT_REVOKED = 3"
| "upki_result_code UPKI_ERR_NULL_POINTER = 16"
| "upki_result_code UPKI_ERR_CONFIG_PATH = 17"
| "upki_result_code UPKI_ERR_UNKNOWN = 18"
| "upki_result_code UPKI_ERR_PANICKED = 19"
| "upki_result_code UPKI_ERR_CONFIG_DECODE = 32"
| "upki_result_code UPKI_ERR_CONFIG_READ = 33"
| "upki_result_code UPKI_ERR_NO_CACHE_DIR = 34"
| "upki_result_code UPKI_ERR_NO_CONFIG_DIR = 35"
| "upki_result_code UPKI_ERR_NO_HOME_DIR = 36"
| "upki_result_code UPKI_ERR_REVOCATION_CREATE_DIR = 64"
| "upki_result_code UPKI_ERR_REVOCATION_FILE_WRITE = 65"
| "upki_result_code UPKI_ERR_REVOCATION_FILE_DECODE = 66"
| "upki_result_code UPKI_ERR_REVOCATION_FILE_READ = 67"
| "upki_result_code UPKI_ERR_REVOCATION_HASH_MISMATCH = 68"
| "upki_result_code UPKI_ERR_REVOCATION_HTTP_FETCH = 69"
| "upki_result_code UPKI_ERR_REVOCATION_INVALID_BASE64 = 70"
| "upki_result_code UPKI_ERR_REVOCATION_INVALID_END_ENTITY_CERT = 71"
| "upki_result_code UPKI_ERR_REVOCATION_INVALID_INTERMEDIATE_CERT = 72"
| "upki_result_code UPKI_ERR_REVOCATION_INVALID_LENGTH = 73"
| "upki_result_code UPKI_ERR_REVOCATION_INVALID_SCT_ENCODING = 74"
| "upki_result_code UPKI_ERR_REVOCATION_INVALID_SCT_IN_CERT = 75"
| "upki_result_code UPKI_ERR_REVOCATION_INVALID_TIMESTAMP = 76"
| "upki_result_code UPKI_ERR_REVOCATION_MANIFEST_ENCODE = 77"
| "upki_result_code UPKI_ERR_REVOCATION_NO_ISSUER = 78"
| "upki_result_code UPKI_ERR_REVOCATION_OUTDATED = 79"
| "upki_result_code UPKI_ERR_REVOCATION_REMOVE_FILE = 80"
| "upki_result_code UPKI_ERR_REVOCATION_TOO_FEW_CERTS = 81"

text \<open>\<open>From<Error>\<close>, in the order of its arms; the last arm is the wildcard.\<close>

fun upki_result_from :: "upki_error \<Rightarrow> upki_result" where
  "upki_result_from (ConfigError _ _) = UPKI_ERR_CONFIG_DECODE"
| "upki_result_from (ConfigFileRead _ _) = UPKI_ERR_CONFIG_READ"
| "upki_result_from NoCacheDirectoryFound = UPKI_ERR_NO_CACHE_DIR"
| "upki_result_from NoConfigDirectoryFound = UPKI_ERR_NO_CONFIG_DIR"
| "upki_result_from NoValidHomeDirectory = UPKI_ERR_NO_HOME_DIR"
| "upki_result_from (RevocationError (CreateDirectory _ _)) = UPKI_ERR_REVOCATION_CREATE_DIR"
| "upki_result_from (RevocationError (FileWrite _ _)) = UPKI_ERR_REVOCATION_FILE_WRITE"
| "upki_result_from (RevocationError (FileDecode _ _)) = UPKI_ERR_REVOCATION_FILE_DECODE"
| "upki_result_from (RevocationError (FileRead _ _)) = UPKI_ERR_REVOCATION_FILE_READ"
| "upki_result_from (RevocationError (HashMismatch _)) = UPKI_ERR_REVOCATION_HASH_MISMATCH"
| "upki_result_from (RevocationError (HttpFetch _ _)) = UPKI_ERR_REVOCATION_HTTP_FETCH"
| "upki_result_from (RevocationError (InvalidBase64 _ _)) = UPKI_ERR_REVOCATION_INVALID_BASE64"
| "upki_result_from (RevocationError (InvalidEndEntityCertificate _)) =
     UPKI_ERR_REVOCATION_INVALID_END_ENTITY_CERT"
| "upki_result_from (RevocationError (InvalidIntermediateCertificate _ _)) =
     UPKI_ERR_REVOCATION_INVALID_INTERMEDIATE_CERT"
| "upki_result_from (RevocationError (InvalidLength _ _ _)) = UPKI_ERR_REVOCATION_INVALID_LENGTH"
| "upki_result_from (RevocationError InvalidSctEncoding) = UPKI_ERR_REVOCATION_INVALID_SCT_ENCODING"
| "upki_result_from (RevocationError (InvalidSctInCertificate _)) = UPKI_ERR_REVOCATION_INVALID_SCT_IN_CERT"
| "upki_result_from (RevocationError (InvalidTimestamp _ _)) = UPKI_ERR_REVOCATION_INVALID_TIMESTAMP"
| "upki_result_from (RevocationError (ManifestEncode _ _)) = UPKI_ERR_REVOCATION_MANIFEST_ENCODE"
| "upki_result_from (RevocationError NoIssuer) = UPKI_ERR_REVOCATION_NO_ISSUER"
| "upki_result_from (RevocationError (Outdated _)) = UPKI_ERR_REVOCATION_OUTDATED"
| "upki_result_from (RevocationError (RemoveFile _ _)) = UPKI_ERR_REVOCATION_REMOVE_FILE"
| "upki_result_from (RevocationError TooFewCertificates) = UPKI_ERR_REVOCATION_TOO_FEW_CERTS"
| "upki_result_from _ = UPKI_ERR_UNKNOWN"

section \<open>Memory\<close>

type_synonym ptr = nat

abbreviation (input) NULL :: ptr where
  "NULL \<equiv> 0"

datatype 'a c_call = Defined 'a | Undefined

record upki_certificate_der =
  der_data :: ptr
  der_len :: nat

record c_memory =
  cm_bytes :: "(ptr \<times> u8) list"
  cm_ders :: "(ptr \<times> upki_certificate_der) list"
  cm_slots :: "(ptr \<times> ptr) list"
  cm_configs :: "(ptr \<times> config) list"

text \<open>
  \<open>slice::from_raw_parts\<close>: the pointer is not null and aligned, the slice is no longer than
  \<open>isize::MAX\<close> bytes, and every element is there.
\<close>

definition raw_slice :: "nat \<Rightarrow> nat \<Rightarrow> (ptr \<times> 'a) list \<Rightarrow> ptr \<Rightarrow> nat \<Rightarrow> 'a list option" where
  "raw_slice sz align mem p n =
     (if p = NULL \<or> p mod align \<noteq> 0 \<or> n * sz \<ge> 2 ^ 63 then None
      else those (map (\<lambda>i. map_of mem (p + i * sz)) [0..<n]))"

text \<open>
  \<open>CStr::from_ptr\<close> reads up to the first zero byte; running off the allocation is undefined.
\<close>

partial_function (option) c_str :: "(ptr \<times> u8) list \<Rightarrow> ptr \<Rightarrow> bytes option" where
  "c_str mem p =
     (case map_of mem p of
        None \<Rightarrow> None
      | Some b \<Rightarrow> if b = 0 then Some [] else Option.bind (c_str mem (p + 1)) (\<lambda>bs. Some (b # bs)))"

definition der_slices :: "c_memory \<Rightarrow> ptr \<Rightarrow> nat \<Rightarrow> bytes list option" where
  "der_slices mem p n =
     Option.bind (raw_slice 16 8 (cm_ders mem) p n) (\<lambda>certificates.
       those (map (\<lambda>c. raw_slice 1 1 (cm_bytes mem) (der_data c) (der_len c)) certificates))"

section \<open>Checking a certificate\<close>

fun catch_unwind :: "('e \<Rightarrow> upki_result) \<Rightarrow> ('e, upki_result) outcome \<Rightarrow> upki_result" where
  "catch_unwind from (Ok r) = r"
| "catch_unwind from (Err e) = from e"
| "catch_unwind from Panic = UPKI_ERR_PANICKED"

fun status_result :: "revocation_status \<Rightarrow> upki_result" where
  "status_result NotCoveredByRevocationData = UPKI_REVOCATION_NOT_COVERED"
| "status_result CertainlyRevoked = UPKI_REVOCATION_REVOKED"
| "status_result NotRevoked = UPKI_REVOCATION_NOT_REVOKED"

text \<open>The verdict on a chain: the input of the check, the index of the cache, the check.\<close>

definition chain_status ::
  "('ee, 'ta) webpki \<Rightarrow> 'c crlite \<Rightarrow> fs \<Rightarrow> config \<Rightarrow> bytes list \<Rightarrow> (rev_error, revocation_status) outcome" where
  "chain_status wp cl s config certs =
     obind (from_certificates wp certs) (\<lambda>input.
     obind (from_cache config s) (\<lambda>ix.
       map_ok fst (check cl s ix input)))"

definition upki_check_revocation ::
  "('ee, 'ta) webpki \<Rightarrow> 'c crlite \<Rightarrow> fs \<Rightarrow> c_memory \<Rightarrow> ptr \<Rightarrow> ptr \<Rightarrow> nat \<Rightarrow> upki_result c_call" where
  "upki_check_revocation wp cl s mem config certificates certificates_len =
     (if config = NULL \<or> certificates = NULL then Defined UPKI_ERR_NULL_POINTER
      else case map_of (cm_configs mem) config of
        None \<Rightarrow> Undefined
      | Some cfg \<Rightarrow>
          (case der_slices mem certificates certificates_len of
             None \<Rightarrow> Undefined
           | Some certs \<Rightarrow>
               Defined (catch_unwind (\<lambda>e. upki_result_from (RevocationError e))
                 (map_ok status_result (chain_status wp cl s cfg certs)))))"

section \<open>Configuration handles\<close>

definition upki_config_new ::
  "environment \<Rightarrow> fs \<Rightarrow> (c_memory \<Rightarrow> ptr) \<Rightarrow> c_memory \<Rightarrow> ptr \<Rightarrow> ptr \<Rightarrow> (upki_result \<times> c_memory) c_call" where
  "upki_config_new env s alloc mem path out =
     (if out = NULL then Defined (UPKI_ERR_NULL_POINTER, mem)
      else
        let load = (\<lambda>p. case config_from_file_or_user_default env s p of
              Ok config \<Rightarrow>
                if map_of (cm_slots mem) out = None then Undefined
                else let h = alloc mem in
                  Defined (UPKI_OK, mem\<lparr>cm_configs := (h, config) # cm_configs mem,
                                        cm_slots := AList.update out h (cm_slots mem)\<rparr>)
            | Err e \<Rightarrow> Defined (upki_result_from e, mem)
            | Panic \<Rightarrow> Defined (UPKI_ERR_PANICKED, mem))
        in if path = NULL
           then (case config_path_new env s None of
                   Ok p \<Rightarrow> load p
                 | Err e \<Rightarrow> Defined (upki_result_from e, mem)
                 | Panic \<Rightarrow> Defined (UPKI_ERR_PANICKED, mem))
           else (case c_str (cm_bytes mem) path of
                   None \<Rightarrow> Undefined
                 | Some bs \<Rightarrow>
                     (case from_utf8 bs of
                        None \<Rightarrow> Defined (UPKI_ERR_CONFIG_PATH, mem)
                      | Some p \<Rightarrow> load (Specified p))))"

definition upki_config_free :: "c_memory \<Rightarrow> ptr \<Rightarrow> c_memory c_call" where
  "upki_config_free mem config =
     (if config = NULL then Defined mem
      else if map_of (cm_configs mem) config = None then Undefined
      else Defined (mem\<lparr>cm_configs := AList.delete config (cm_configs mem)\<rparr>))"

section \<open>Handles as an interface\<close>

text \<open>
  What the users of configuration handles rely on: a live handle can be released once, releasing
  does not touch the others, and using a dead one is undefined.
\<close>

locale handle_store =
  fixes live :: "'m \<Rightarrow> ptr \<Rightarrow> 'v option"
    and release :: "'m \<Rightarrow> ptr \<Rightarrow> 'm c_call"
  assumes release_null: "release m NULL = Defined m"
    and release_live: "h \<noteq> NULL \<Longrightarrow> live m h = Some v \<Longrightarrow>
      \<exists>m'. release m h = Defined m' \<and> (\<forall>k. live m' k = (if k = h then None else live m k))"
    and release_dead: "h \<noteq> NULL \<Longrightarrow> live m h = None \<Longrightarrow> release m h = Undefined"
begin

text \<open>The live handles are exactly the ones somebody owns.\<close>

definition owns :: "'m \<Rightarrow> ptr set \<Rightarrow> bool" where
  "owns m H \<longleftrightarrow> NULL \<notin> H \<and> (\<forall>h. live m h \<noteq> None \<longleftrightarrow> h \<in> H)"

lemma owns_live: "owns m H \<Longrightarrow> h \<in> H \<Longrightarrow> h \<noteq> NULL \<and> (\<exists>v. live m h = Some v)"
  by (auto simp: owns_def)

lemma owns_release:
  assumes "owns m H" and "release m h = Defined m'"
  shows "owns m' (H - {h}) \<and> (h \<noteq> NULL \<longrightarrow> h \<in> H)"
proof (cases "h = NULL")
  case True
  then show ?thesis using assms release_null by (auto simp: owns_def)
next
  case False
  obtain v where v: "live m h = Some v" using assms release_dead [OF False] by fastforce
  with release_live [OF False v] assms(2) have "live m' k = (if k = h then None else live m k)" for k by auto
  moreover have "h \<in> H" using assms(1) v by (auto simp: owns_def)
  ultimately show ?thesis using assms(1) by (auto simp: owns_def)
qed

lemma owned_releasable: "owns m H \<Longrightarrow> h \<in> insert NULL H \<Longrightarrow> \<exists>m'. release m h = Defined m' \<and> owns m' (H - {h})"
  using owns_live release_live owns_release release_null by (metis insertE)

lemma stranger_undefined: "owns m H \<Longrightarrow> h \<notin> H \<Longrightarrow> h \<noteq> NULL \<Longrightarrow> release m h = Undefined"
  by (rule release_dead) (auto simp: owns_def)

lemma owns_add:
  assumes "owns m H" and "h \<noteq> NULL" and "live m h = None"
    and "\<And>k. live m' k = (if k = h then Some v else live m k)"
  shows "owns m' (insert h H) \<and> h \<notin> H"
proof -
  have "h \<notin> H" using assms(1,3) owns_live by force
  then show ?thesis using assms(1,2) unfolding owns_def assms(4) by auto
qed

end

abbreviation live_config :: "c_memory \<Rightarrow> ptr \<Rightarrow> config option" where
  "live_config mem h \<equiv> map_of (cm_configs mem) h"

interpretation handles: handle_store live_config upki_config_free
  by unfold_locales (auto simp: upki_config_free_def delete_conv)

section \<open>Lemmas\<close>

lemma config_new_cases:
  assumes "upki_config_new env s alloc mem path out = Defined (r, mem')"
  obtains (failed) "mem' = mem" "r \<noteq> UPKI_OK"
  | (created) config where "r = UPKI_OK" "out \<noteq> NULL"
      "cm_configs mem' = (alloc mem, config) # cm_configs mem" "map_of (cm_slots mem') out = Some (alloc mem)"
proof -
  have err: "upki_result_from e \<noteq> UPKI_OK" for e by (cases e rule: upki_result_from.cases) simp_all
  from assms err that show thesis
    by (auto simp: upki_config_new_def Let_def update_conv split: if_splits outcome.splits option.splits)
qed

lemma from_certificates_no_panic:
  assumes "\<And>ee. 8 * (32 + length (wp_serial wp ee)) \<le> usize_max"
    and "\<And>ta. 8 * length (wp_spki wp ta) \<le> usize_max"
  shows "from_certificates wp certs \<noteq> Panic"
proof -
  have "find_issuer_from wp name i cs \<noteq> Panic" for name i cs
    by (induction cs arbitrary: i) (auto split: sum.splits)
  moreover have "collect_scts ts \<noteq> Panic" for ts
    by (induction ts) (auto simp: outcome_simps split: sum.splits)
  ultimately show ?thesis using assms
    by (auto simp: from_certificates_def find_issuer_def outcome_simps input_new_eq digest_from_eq
        sha256_outcome_def length_fips_sha256 split: list.splits if_splits)
qed

lemma chain_status_no_panic:
  assumes "\<And>ee. 8 * (32 + length (wp_serial wp ee)) \<le> usize_max"
    and "\<And>ta. 8 * length (wp_spki wp ta) \<le> usize_max"
  shows "chain_status wp cl s config certs \<noteq> Panic"
  using from_certificates_no_panic [of wp certs, OF assms]
  by (auto simp: chain_status_def outcome_simps from_cache_no_panic dest!: from_cache_index_wf check_no_panic)

lemma result_from_error: "16 \<le> upki_result_code (upki_result_from e) \<and> upki_result_from e \<noteq> UPKI_ERR_PANICKED"
  by (cases e rule: upki_result_from.cases) simp_all

lemma result_from_unknown: "upki_result_from e = UPKI_ERR_UNKNOWN \<longleftrightarrow> (\<exists>c. e = RevocationError (IndexDecode c))"
  by (cases e rule: upki_result_from.cases) simp_all

text \<open>The variant of an error, by its name in the source.\<close>

fun error_variant :: "upki_error \<Rightarrow> string" where
  "error_variant (ConfigError _ _) = ''ConfigError''"
| "error_variant (ConfigFileRead _ _) = ''ConfigFileRead''"
| "error_variant NoCacheDirectoryFound = ''NoCacheDirectoryFound''"
| "error_variant NoConfigDirectoryFound = ''NoConfigDirectoryFound''"
| "error_variant NoValidHomeDirectory = ''NoValidHomeDirectory''"
| "error_variant (RevocationError (CreateDirectory _ _)) = ''Revocation::CreateDirectory''"
| "error_variant (RevocationError (FileWrite _ _)) = ''Revocation::FileWrite''"
| "error_variant (RevocationError (FileDecode _ _)) = ''Revocation::FileDecode''"
| "error_variant (RevocationError (FileRead _ _)) = ''Revocation::FileRead''"
| "error_variant (RevocationError (HashMismatch _)) = ''Revocation::HashMismatch''"
| "error_variant (RevocationError (HttpFetch _ _)) = ''Revocation::HttpFetch''"
| "error_variant (RevocationError (IndexDecode _)) = ''Revocation::IndexDecode''"
| "error_variant (RevocationError (InvalidBase64 _ _)) = ''Revocation::InvalidBase64''"
| "error_variant (RevocationError (InvalidEndEntityCertificate _)) = ''Revocation::InvalidEndEntityCertificate''"
| "error_variant (RevocationError (InvalidIntermediateCertificate _ _)) = ''Revocation::InvalidIntermediateCertificate''"
| "error_variant (RevocationError (InvalidLength _ _ _)) = ''Revocation::InvalidLength''"
| "error_variant (RevocationError InvalidSctEncoding) = ''Revocation::InvalidSctEncoding''"
| "error_variant (RevocationError (InvalidSctInCertificate _)) = ''Revocation::InvalidSctInCertificate''"
| "error_variant (RevocationError (InvalidTimestamp _ _)) = ''Revocation::InvalidTimestamp''"
| "error_variant (RevocationError (ManifestEncode _ _)) = ''Revocation::ManifestEncode''"
| "error_variant (RevocationError NoIssuer) = ''Revocation::NoIssuer''"
| "error_variant (RevocationError (Outdated _)) = ''Revocation::Outdated''"
| "error_variant (RevocationError (RemoveFile _ _)) = ''Revocation::RemoveFile''"
| "error_variant (RevocationError TooFewCertificates) = ''Revocation::TooFewCertificates''"

lemma result_of_variant: "upki_result_from e = upki_result_from e' \<longleftrightarrow> error_variant e = error_variant e'"
  by (cases e rule: error_variant.cases; cases e' rule: error_variant.cases; simp)

lemma status_result_inj [simp]: "status_result a = status_result b \<longleftrightarrow> a = b"
  by (cases a; cases b) simp_all

lemma status_result_code: "0 < upki_result_code (status_result st)" "upki_result_code (status_result st) < 16"
  by (cases st; simp)+

section \<open>Use of handles over time\<close>

text \<open>
  The calls a C client may make under the documented rules, given the handles it owns, and what they
  lead to, which is \<open>Undefined\<close> when the call is. It may create a configuration at any moment, with
  any environment and file system, where \<open>out\<close> is null or storage for a pointer and \<open>path\<close> is null or a
  terminated string; check a valid array of certificates, or a null one, with a handle it owns or the
  null pointer; and release a handle it owns or the null pointer. A handle that was created is owned.
\<close>

inductive client_call ::
  "('ee, 'ta) webpki \<Rightarrow> 'c crlite \<Rightarrow> (c_memory \<Rightarrow> ptr) \<Rightarrow> c_memory \<times> ptr set \<Rightarrow> (c_memory \<times> ptr set) c_call \<Rightarrow> bool"
  for wp cl alloc where
  create: "out = NULL \<or> map_of (cm_slots mem) out \<noteq> None \<Longrightarrow> path = NULL \<or> c_str (cm_bytes mem) path \<noteq> None \<Longrightarrow>
     client_call wp cl alloc (mem, owned)
       (map_c_call (\<lambda>(r, mem'). (mem', if r = UPKI_OK then insert (the (map_of (cm_slots mem') out)) owned else owned))
          (upki_config_new env s alloc mem path out))"
| check: "h \<in> insert NULL owned \<Longrightarrow> p = NULL \<or> der_slices mem p n \<noteq> None \<Longrightarrow>
     client_call wp cl alloc (mem, owned) (map_c_call (\<lambda>_. (mem, owned)) (upki_check_revocation wp cl s mem h p n))"
| free: "h \<in> insert NULL owned \<Longrightarrow>
     client_call wp cl alloc (mem, owned) (map_c_call (\<lambda>mem'. (mem', owned - {h})) (upki_config_free mem h))"

definition client_step ::
  "('ee, 'ta) webpki \<Rightarrow> 'c crlite \<Rightarrow> (c_memory \<Rightarrow> ptr) \<Rightarrow> c_memory \<times> ptr set \<Rightarrow> c_memory \<times> ptr set \<Rightarrow> bool" where
  "client_step wp cl alloc a b \<longleftrightarrow> client_call wp cl alloc a (Defined b)"

definition allocator_ok :: "(c_memory \<Rightarrow> ptr) \<Rightarrow> bool" where
  "allocator_ok alloc \<longleftrightarrow> (\<forall>mem. alloc mem \<noteq> NULL \<and> live_config mem (alloc mem) = None)"

text \<open>Handles that others own, the set \<open>R\<close>, are not affected.\<close>

lemma config_new_defined:
  assumes "out = NULL \<or> map_of (cm_slots mem) out \<noteq> None" and "path = NULL \<or> c_str (cm_bytes mem) path \<noteq> None"
  shows "upki_config_new env s alloc mem path out \<noteq> Undefined"
proof (cases "out = NULL")
  case True
  then show ?thesis by (simp add: upki_config_new_def)
next
  case False
  with assms show ?thesis by (auto simp: upki_config_new_def Let_def split: outcome.split option.split)
qed

lemma check_defined:
  "config = NULL \<or> p = NULL \<or> live_config mem config \<noteq> None \<and> der_slices mem p n \<noteq> None \<Longrightarrow>
   upki_check_revocation wp cl s mem config p n \<noteq> Undefined"
  by (auto simp: upki_check_revocation_def)

lemma client_call_defined:
  assumes "client_call wp cl alloc (mem, owned) r" and "handles.owns mem (owned \<union> R)"
  shows "r \<noteq> Undefined"
  using assms(1)
proof cases
  case (create out path env s)
  from config_new_defined [OF create(2,3), of env s alloc] create(1) show ?thesis
    by (cases "upki_config_new env s alloc mem path out") auto
next
  case (check h p n s)
  then have "h = NULL \<or> p = NULL \<or> live_config mem h \<noteq> None \<and> der_slices mem p n \<noteq> None"
    using handles.owns_live [OF assms(2), of h] by auto
  from check_defined [OF this, of wp cl s] check(1) show ?thesis
    by (cases "upki_check_revocation wp cl s mem h p n") auto
next
  case (free h)
  then show ?thesis using handles.owned_releasable [OF assms(2), of h] by auto
qed

lemma client_step_owns:
  assumes "client_step wp cl alloc (mem, owned) (mem', owned')" and "allocator_ok alloc"
    and "handles.owns mem (owned \<union> R)" and "owned \<inter> R = {}"
  shows "handles.owns mem' (owned' \<union> R) \<and> owned' \<inter> R = {}"
  using assms(1) unfolding client_step_def
proof cases
  case (create out path env s)
  then obtain r where new: "upki_config_new env s alloc mem path out = Defined (r, mem')"
    and owned': "owned' = (if r = UPKI_OK then insert (the (map_of (cm_slots mem') out)) owned else owned)"
    by (cases "upki_config_new env s alloc mem path out") auto
  from new show ?thesis
  proof (cases rule: config_new_cases)
    case failed
    then show ?thesis using assms(3,4) owned' by simp
  next
    case (created config)
    have "handles.owns mem' (insert (alloc mem) (owned \<union> R)) \<and> alloc mem \<notin> owned \<union> R"
      by (rule handles.owns_add [OF assms(3)])
         (use assms(2) created(3) in \<open>auto simp: allocator_ok_def\<close>)
    then show ?thesis using created(1,4) owned' assms(4) by simp
  qed
next
  case (check h p n s)
  then show ?thesis using assms(3,4) by (cases "upki_check_revocation wp cl s mem h p n") auto
next
  case (free h)
  then have "upki_config_free mem h = Defined mem'" and owned': "owned' = owned - {h}"
    by (cases "upki_config_free mem h", auto)+
  from handles.owns_release [OF assms(3) this(1)] have "handles.owns mem' (owned \<union> R - {h})" by simp
  moreover have "owned \<union> R - {h} = owned - {h} \<union> R"
    using free(2) assms(3,4) by (auto simp: handles.owns_def)
  ultimately show ?thesis using owned' assms(4) by auto
qed

lemma client_run_owns:
  "(client_step wp cl alloc)\<^sup>*\<^sup>* (mem, owned) (mem', owned') \<Longrightarrow> allocator_ok alloc \<Longrightarrow> handles.owns mem owned
   \<Longrightarrow> handles.owns mem' owned'"
  by (induction rule: rtranclp_induct2) (auto dest: client_step_owns [where R = "{}"])

section \<open>A sample client\<close>

definition sample_alloc :: "c_memory \<Rightarrow> ptr" where
  "sample_alloc mem = Suc (sum_list (map fst (cm_configs mem)))"

lemma sample_allocator: "allocator_ok sample_alloc"
proof -
  have "h \<noteq> Suc (sum_list (map fst cs))" if "(h, c) \<in> set cs" for h c and cs :: "(ptr \<times> config) list"
    using member_le_sum_list [of h "map fst cs"] image_eqI [of h fst "(h, c)" "set cs", OF _ that] by simp
  then show ?thesis
    by (fastforce simp: allocator_ok_def sample_alloc_def map_of_eq_None_iff)
qed

definition sample_memory :: c_memory where
  "sample_memory = \<lparr>cm_bytes = [(100, 1), (101, 2)],
     cm_ders = [(32, \<lparr>der_data = 100, der_len = 1\<rparr>), (48, \<lparr>der_data = 101, der_len = 1\<rparr>)],
     cm_slots = [(8, 0)], cm_configs = []\<rparr>"

definition sample_created :: c_memory where
  "sample_created = sample_memory\<lparr>cm_slots := [(8, 1)], cm_configs := [(1,
     \<lparr>cfg_cache_dir = ''/home/u/cache'', cfg_revocation = revocation_config_default\<rparr>)]\<rparr>"

lemma sample_create:
  "upki_config_new sample_env \<lparr>fs_nodes = [], fs_fault = (\<lambda>_ _. None)\<rparr> sample_alloc sample_memory NULL 8
   = Defined (UPKI_OK, sample_created)"
proof -
  have "path_key ''/home/u/config/config.toml'' \<noteq> []" "path_key ''/etc/upki/config.toml'' \<noteq> []"
    "path_key ''/home/u/cache'' \<noteq> []" "path_key ''/var/cache/upki'' \<noteq> []" by code_simp+
  then show ?thesis
    by (simp add: upki_config_new_def config_path_new_def config_try_default_def project_dirs_def sample_env_def
        system_config_dir_def system_cache_dir_def fs_exists_def node_at_def path_join_def is_absolute_def
        PREFIX_def CONFIG_FILE_def sample_memory_def sample_created_def sample_alloc_def)
qed

lemma sample_ders: "der_slices sample_created 32 2 = Some [[1], [2]]"
proof -
  have upto: "[0..<2] = [0, 1 :: nat]" "[0..<Suc 0] = [0 :: nat]" by code_simp+
  show ?thesis
    by (simp add: der_slices_def raw_slice_def upto sample_created_def sample_memory_def)
qed

lemma sample_client_step: "client_step wp cl sample_alloc (sample_memory, {}) (sample_created, {1})"
proof -
  have "map_of (cm_slots sample_memory) 8 \<noteq> None" by (simp add: sample_memory_def)
  then have "client_call wp cl sample_alloc (sample_memory, {})
      (map_c_call (\<lambda>(r, mem'). (mem', if r = UPKI_OK then insert (the (map_of (cm_slots mem') 8)) {} else {}))
        (upki_config_new sample_env \<lparr>fs_nodes = [], fs_fault = (\<lambda>_ _. None)\<rparr> sample_alloc sample_memory NULL 8))"
    by (intro client_call.create) simp_all
  moreover have "map_of (cm_slots sample_created) 8 = Some 1" by (simp add: sample_created_def)
  ultimately show ?thesis unfolding client_step_def sample_create by simp
qed

lemma sample_run: "(client_step wp cl sample_alloc)\<^sup>*\<^sup>* (sample_memory, {}) (sample_created, {1})"
  using sample_client_step by (rule r_into_rtranclp)

section \<open>Properties\<close>

text \<open>
  C11: a client that follows the documented rules never meets undefined behaviour. Starting without
  handles, after any number of creations, checks and releases, no call the rules allow is undefined:
  creating a configuration (also with null pointers), checking a valid array of certificates with a
  handle it owns, and releasing that handle. A handle it does not own any more cannot be released;
  and when it has released all of them no configuration is left in memory. The allocator is assumed to
  return addresses that are not null and not in use.
\<close>

theorem handles_are_safe:
  assumes "allocator_ok alloc" and "cm_configs mem0 = []" and "(client_step wp cl alloc)\<^sup>*\<^sup>* (mem0, {}) (mem, owned)"
  shows "\<not> client_call wp cl alloc (mem, owned) Undefined
    \<and> (\<forall>env s path out. (out = NULL \<or> map_of (cm_slots mem) out \<noteq> None) \<and> (path = NULL \<or> c_str (cm_bytes mem) path \<noteq> None)
         \<longrightarrow> upki_config_new env s alloc mem path out \<noteq> Undefined)
    \<and> (\<forall>h \<in> owned. upki_config_free mem h \<noteq> Undefined
      \<and> (\<forall>s p n. der_slices mem p n \<noteq> None \<longrightarrow> upki_check_revocation wp cl s mem h p n \<noteq> Undefined))
    \<and> (\<forall>h. h \<notin> owned \<and> h \<noteq> NULL \<longrightarrow> upki_config_free mem h = Undefined)
    \<and> (owned = {} \<longrightarrow> cm_configs mem = [])"
proof -
  have "handles.owns mem0 {}" using assms(2) by (simp add: handles.owns_def)
  then have owns: "handles.owns mem owned" using client_run_owns assms(1,3) by blast
  have "cm_configs mem = []" if "owned = {}"
    using owns that by (cases "cm_configs mem") (auto simp: handles.owns_def split: if_splits)
  moreover have "upki_config_free mem h \<noteq> Undefined" "live_config mem h \<noteq> None" if "h \<in> owned" for h
    using handles.owned_releasable [OF owns, of h] handles.owns_live [OF owns that] that by auto
  moreover have "\<not> client_call wp cl alloc (mem, owned) Undefined"
    using client_call_defined [of wp cl alloc mem owned Undefined "{}"] owns by auto
  ultimately show ?thesis
    by (intro conjI allI ballI impI) (simp_all add: handles.stranger_undefined [OF owns] check_defined config_new_defined)
qed

theorem handles_are_safe_witness:
  "upki_config_free sample_created 1 \<noteq> Undefined
   \<and> upki_config_new sample_env sample_fs sample_alloc sample_created NULL 8 \<noteq> Undefined
   \<and> upki_check_revocation sample_webpki sample_crlite sample_fs sample_created 1 32 2 \<noteq> Undefined
   \<and> upki_config_free sample_created 7 = Undefined"
proof -
  have "cm_configs sample_memory = []" by (simp add: sample_memory_def)
  from handles_are_safe [OF sample_allocator this sample_run, of sample_webpki sample_crlite] sample_ders
  show ?thesis by (simp add: sample_created_def [THEN arg_cong [of _ _ cm_slots]])
qed

text \<open>
  C12: the result of a check says what happened. With a live handle and a valid array of certificates
  the call is defined. Its result is \<open>UPKI_REVOCATION_NOT_COVERED\<close> (code 1), \<open>UPKI_REVOCATION_REVOKED\<close>
  (code 2) or \<open>UPKI_REVOCATION_NOT_REVOKED\<close> (code 3) exactly when the check of that chain gives the
  verdict of this name, and a code below 16 exactly when there is a verdict; \<open>UPKI_ERR_UNKNOWN\<close> exactly
  when the index cannot be decoded, which has no code of its own; and it is not \<open>UPKI_ERR_PANICKED\<close> as
  long as serials and key information are short enough to be hashed.
\<close>

theorem ffi_check_result:
  assumes "config \<noteq> NULL" and "p \<noteq> NULL" and "live_config mem config = Some cfg" and "der_slices mem p n = Some certs"
  shows "\<exists>r. upki_check_revocation wp cl s mem config p n = Defined r
    \<and> (r = UPKI_REVOCATION_NOT_COVERED \<longleftrightarrow> chain_status wp cl s cfg certs = Ok NotCoveredByRevocationData)
    \<and> (r = UPKI_REVOCATION_REVOKED \<longleftrightarrow> chain_status wp cl s cfg certs = Ok CertainlyRevoked)
    \<and> (r = UPKI_REVOCATION_NOT_REVOKED \<longleftrightarrow> chain_status wp cl s cfg certs = Ok NotRevoked)
    \<and> (upki_result_code r = 1 \<longleftrightarrow> r = UPKI_REVOCATION_NOT_COVERED)
    \<and> (upki_result_code r = 2 \<longleftrightarrow> r = UPKI_REVOCATION_REVOKED)
    \<and> (upki_result_code r = 3 \<longleftrightarrow> r = UPKI_REVOCATION_NOT_REVOKED)
    \<and> (upki_result_code r < 16 \<longleftrightarrow> (\<exists>st. chain_status wp cl s cfg certs = Ok st))
    \<and> (r = UPKI_ERR_UNKNOWN \<longleftrightarrow> (\<exists>c. chain_status wp cl s cfg certs = Err (IndexDecode c)))
    \<and> ((\<forall>ee. 8 * (32 + length (wp_serial wp ee)) \<le> usize_max) \<and> (\<forall>ta. 8 * length (wp_spki wp ta) \<le> usize_max)
       \<longrightarrow> r \<noteq> UPKI_ERR_PANICKED)"
proof -
  have codes: "upki_result_code r = 1 \<longleftrightarrow> r = UPKI_REVOCATION_NOT_COVERED" "upki_result_code r = 2 \<longleftrightarrow> r = UPKI_REVOCATION_REVOKED"
    "upki_result_code r = 3 \<longleftrightarrow> r = UPKI_REVOCATION_NOT_REVOKED" for r by (cases r; simp)+
  show ?thesis
  proof (cases "chain_status wp cl s cfg certs")
    case (Ok st)
    then show ?thesis using assms by (cases st) (simp_all add: upki_check_revocation_def)
  next
    case (Err e)
    have "r \<noteq> UPKI_REVOCATION_NOT_COVERED \<and> r \<noteq> UPKI_REVOCATION_REVOKED \<and> r \<noteq> UPKI_REVOCATION_NOT_REVOKED"
      if "16 \<le> upki_result_code r" for r using that by auto
    with Err assms codes result_from_error [of "RevocationError e"] result_from_unknown [of "RevocationError e"]
    show ?thesis by (auto simp: upki_check_revocation_def)
  next
    case Panic
    with assms chain_status_no_panic [of wp cl s cfg certs] show ?thesis
      by (auto simp: upki_check_revocation_def)
  qed
qed

theorem ffi_check_result_witness:
  "\<exists>r. upki_check_revocation sample_webpki sample_crlite sample_fs sample_created 1 32 2 = Defined r
    \<and> r \<noteq> UPKI_ERR_PANICKED
    \<and> (r = UPKI_REVOCATION_REVOKED \<longleftrightarrow>
         chain_status sample_webpki sample_crlite sample_fs
           \<lparr>cfg_cache_dir = ''/home/u/cache'', cfg_revocation = revocation_config_default\<rparr> [[1], [2]] = Ok CertainlyRevoked)"
proof -
  have "live_config sample_created 1
      = Some \<lparr>cfg_cache_dir = ''/home/u/cache'', cfg_revocation = revocation_config_default\<rparr>"
    by (simp add: sample_created_def)
  from ffi_check_result [OF _ _ this sample_ders, of sample_webpki sample_crlite sample_fs] sample_webpki_short
  show ?thesis by auto
qed

text \<open>
  C33: the numeric codes of the C interface tell outcomes apart. Codes are distinct; the three verdicts
  are the codes 1, 2 and 3; an error has a code of at least 16 that is not the one of a panic; two errors
  have the same result only if they are the same variant of the error type, whatever their contents;
  and the only variant without a named code is an index that cannot be decoded.
\<close>

theorem result_codes:
  "inj upki_result_code
   \<and> map (\<lambda>st. upki_result_code (status_result st)) [NotCoveredByRevocationData, CertainlyRevoked, NotRevoked] = [1, 2, 3]
   \<and> (\<forall>e. 16 \<le> upki_result_code (upki_result_from e) \<and> upki_result_from e \<noteq> UPKI_ERR_PANICKED
          \<and> (upki_result_from e = UPKI_ERR_UNKNOWN \<longleftrightarrow> (\<exists>c. e = RevocationError (IndexDecode c))))
   \<and> (\<forall>e e'. upki_result_from e = upki_result_from e' \<longleftrightarrow> error_variant e = error_variant e')"
proof (intro conjI allI)
  have "upki_result_code a = upki_result_code b \<Longrightarrow> a = b" for a b by (cases a; cases b; simp)
  then show "inj upki_result_code" by (rule injI)
  show "upki_result_from e = upki_result_from e' \<longleftrightarrow> error_variant e = error_variant e'" for e e'
    using result_of_variant by metis
qed (use result_from_error result_from_unknown in auto)

end
