(* ===== verification/Cli.thy ===== *)
theory Cli
  imports Ffi Fetch_Properties
begin

text \<open>
  The command-line tool of \<open>upki-cli/src/bin/upki.rs\<close>, from the parsed arguments to the exit status.

  Argument parsing (\<open>clap\<close>, which ends the process itself on a usage error), the log filter, the PEM
  reader on standard input and the TOML printer are other crates: their results are the fields of
  \<open>cli_input\<close>. The result of \<open>main\<close> is what is printed and the exit code, or a report; the process
  then ends with status 1 on a report and 101 on a panic, as the Rust runtime does.
\<close>

datatype revocation_command = Check

datatype cli_command =
  CmdFetch bool
| CmdVerify
| CmdRevocation revocation_command
| CmdShowConfigPath
| CmdShowConfig

record cli_args =
  arg_command :: cli_command
  arg_config_file :: "path option"
  arg_verbose :: bool

datatype report =
  FilterReport string
| WrapReport string report
| LibraryReport upki_error
| RevocationReport rev_error
| PemReport string
| TomlReport string

record cli_input =
  in_args :: "u8 + cli_args" \<comment> \<open>the exit code of the parser, or the arguments\<close>
  in_filter :: "string + unit"
  in_pem :: "(string + bytes) list"
  in_toml_pretty :: "config \<Rightarrow> string + string"
  in_order :: "string list \<Rightarrow> string list"
  in_short :: "nat \<Rightarrow> nat"

fun read_certs :: "(string + bytes) list \<Rightarrow> (report, bytes list) outcome" where
  "read_certs [] = Ok []"
| "read_certs (cert # items) =
     (case cert of
        Inl e \<Rightarrow> Err (WrapReport ''cannot read certificate from stdin'' (PemReport e))
      | Inr c \<Rightarrow> obind (read_certs items) (\<lambda>certs. Ok (c # certs)))"

definition run_command ::
  "environment \<Rightarrow> ('ee, 'ta) webpki \<Rightarrow> 'c crlite \<Rightarrow> 'r externals \<Rightarrow> (nat \<Rightarrow> 'r step_env) \<Rightarrow> cli_input \<Rightarrow> config
   \<Rightarrow> cli_command \<Rightarrow> fs \<Rightarrow> (report, string list \<times> u8) outcome \<times> fs" where
  "run_command env wp cl ex envs inp config cmd s =
     (case cmd of
        CmdFetch dry_run \<Rightarrow>
          (case fetch cl ex envs (in_order inp) dry_run config s of (r, s') \<Rightarrow> (map_err RevocationReport r, s'))
      | CmdVerify \<Rightarrow>
          (map_ok (\<lambda>code. ([], code)) (map_err RevocationReport
             (obind (manifest_from_config ex config s)
                (manifest_verify ex (in_short inp) (in_order inp) config s))), s)
      | CmdShowConfigPath \<Rightarrow> (Panic, s)
      | CmdShowConfig \<Rightarrow>
          (map_ok (\<lambda>text. ([text], EXIT_SUCCESS))
             (map_err (\<lambda>e. WrapReport ''cannot format configuration'' (TomlReport e))
                (lift_sum (in_toml_pretty inp config))), s)
      | CmdRevocation Check \<Rightarrow>
          (obind (read_certs (in_pem inp)) (\<lambda>certs.
             map_err RevocationReport
               (obind (from_certificates wp certs) (\<lambda>input.
                obind (from_cache config s) (\<lambda>ix.
                obind (check cl s ix input) (\<lambda>(status, _).
                  case to_cli status of (line, code) \<Rightarrow> Ok ([line], code)))))), s))"

definition main ::
  "environment \<Rightarrow> ('ee, 'ta) webpki \<Rightarrow> 'c crlite \<Rightarrow> 'r externals \<Rightarrow> (nat \<Rightarrow> 'r step_env) \<Rightarrow> cli_input \<Rightarrow> cli_args
   \<Rightarrow> fs \<Rightarrow> (report, string list \<times> u8) outcome \<times> fs" where
  "main env wp cl ex envs inp args s =
     (case obind (map_err FilterReport (lift_sum (in_filter inp))) (\<lambda>_.
           map_err (\<lambda>e. WrapReport ''cannot find configuration path'' (LibraryReport e))
             (config_path_new env s (arg_config_file args))) of
        Err e \<Rightarrow> (Err e, s)
      | Panic \<Rightarrow> (Panic, s)
      | Ok config_path \<Rightarrow>
          if arg_command args = CmdShowConfigPath
          then (Ok ([config_path_as_ref config_path], EXIT_SUCCESS), s)
          else
            (case config_from_file_or_user_default env s config_path of
               Err e \<Rightarrow> (Err (LibraryReport e), s)
             | Panic \<Rightarrow> (Panic, s)
             | Ok config \<Rightarrow> run_command env wp cl ex envs inp config (arg_command args) s))"

text \<open>The exit status of the process, with what it printed.\<close>

fun exit_status :: "(report, string list \<times> u8) outcome \<Rightarrow> u8" where
  "exit_status (Ok (_, code)) = code"
| "exit_status (Err _) = 1"
| "exit_status Panic = 101"

definition process ::
  "environment \<Rightarrow> ('ee, 'ta) webpki \<Rightarrow> 'c crlite \<Rightarrow> 'r externals \<Rightarrow> (nat \<Rightarrow> 'r step_env) \<Rightarrow> cli_input \<Rightarrow> fs \<Rightarrow> u8 \<times> fs" where
  "process env wp cl ex envs inp s =
     (case in_args inp of
        Inl code \<Rightarrow> (code, s)
      | Inr args \<Rightarrow> (case main env wp cl ex envs inp args s of (r, s') \<Rightarrow> (exit_status r, s')))"

section \<open>Lemmas\<close>

text \<open>The configuration the tool uses.\<close>

definition cli_config :: "environment \<Rightarrow> fs \<Rightarrow> cli_args \<Rightarrow> (upki_error, config) outcome" where
  "cli_config env s args =
     obind (config_path_new env s (arg_config_file args)) (config_from_file_or_user_default env s)"

lemma read_certs_Ok_iff: "read_certs items = Ok certs \<longleftrightarrow> items = map Inr certs"
proof (induction items arbitrary: certs)
  case (Cons x items)
  then show ?case by (cases x; cases certs) (auto simp: outcome_simps)
qed auto

lemma read_certs_no_panic: "read_certs items \<noteq> Panic"
  by (induction items) (auto simp: outcome_simps split: sum.split)

lemma check_command:
  "run_command env wp cl ex envs inp config (CmdRevocation Check) s =
     (obind (read_certs (in_pem inp)) (\<lambda>certs.
        map_ok (\<lambda>st. ([fst (to_cli st)], snd (to_cli st))) (map_err RevocationReport (chain_status wp cl s config certs))), s)"
proof -
  have "map_err RevocationReport
      (obind (from_certificates wp certs) (\<lambda>input. obind (from_cache config s) (\<lambda>ix.
       obind (check cl s ix input) (\<lambda>(status, _). case to_cli status of (line, code) \<Rightarrow> Ok ([line], code)))))
    = map_ok (\<lambda>st. ([fst (to_cli st)], snd (to_cli st))) (map_err RevocationReport (chain_status wp cl s config certs))"
    for certs
  proof -
    have last: "map_err RevocationReport
        (obind c (\<lambda>(status, _). case to_cli status of (line, code) \<Rightarrow> Ok ([line], code)))
      = map_ok (\<lambda>st. ([fst (to_cli st)], snd (to_cli st))) (map_err RevocationReport (map_ok fst c))"
      for c :: "(rev_error, revocation_status \<times> index) outcome"
      by (cases c) (auto split: prod.split)
    show ?thesis unfolding chain_status_def
      by (cases "from_certificates wp certs") (simp_all, cases "from_cache config s", simp_all add: last)
  qed
  then show ?thesis by (simp add: run_command_def)
qed

lemma process_check:
  assumes "in_args inp = Inr args" and "arg_command args = CmdRevocation Check"
  shows "process env wp cl ex envs inp s =
     (case in_filter inp of Inl _ \<Rightarrow> (1, s)
      | Inr _ \<Rightarrow>
        (case cli_config env s args of
           Ok config \<Rightarrow>
             (case read_certs (in_pem inp) of
                Ok certs \<Rightarrow>
                  (case chain_status wp cl s config certs of
                     Ok st \<Rightarrow> (snd (to_cli st), s)
                   | Err _ \<Rightarrow> (1, s)
                   | Panic \<Rightarrow> (101, s))
              | _ \<Rightarrow> (1, s))
         | _ \<Rightarrow> (1, s)))"
proof (cases "config_path_new env s (arg_config_file args)")
  case (Ok p)
  show ?thesis
    using assms Ok config_no_panic(2) [of env s p] read_certs_no_panic [of "in_pem inp"]
    by (auto simp: process_def main_def cli_config_def check_command split: sum.split outcome.split)
qed (use assms config_no_panic in \<open>auto simp: process_def main_def cli_config_def split: sum.split\<close>)

lemma process_verify:
  assumes "in_args inp = Inr args" and "arg_command args = CmdVerify"
  shows "process env wp cl ex envs inp s =
     (case in_filter inp of Inl _ \<Rightarrow> (1, s)
      | Inr _ \<Rightarrow>
        (case cli_config env s args of
           Ok config \<Rightarrow>
             (case obind (manifest_from_config ex config s) (manifest_verify ex (in_short inp) (in_order inp) config s) of
                Ok code \<Rightarrow> (code, s)
              | Err _ \<Rightarrow> (1, s)
              | Panic \<Rightarrow> (101, s))
         | _ \<Rightarrow> (1, s)))"
proof (cases "config_path_new env s (arg_config_file args)")
  case (Ok p)
  show ?thesis
    using assms Ok config_no_panic(2) [of env s p]
    by (auto simp: process_def main_def cli_config_def run_command_def split: sum.split outcome.split)
qed (use assms config_no_panic in \<open>auto simp: process_def main_def cli_config_def split: sum.split\<close>)

text \<open>When each part counts and the whole does not wrap around, a sum of zero has no parts.\<close>

lemma sizes_of_none:
  assumes "2 ^ 64 dvd (\<Sum>f \<leftarrow> filter P files. mf_size f)" and "\<forall>f \<in> set files. 0 < mf_size f" and "(\<Sum>f \<leftarrow> files. mf_size f) < 2 ^ 64"
  shows "filter P files = []"
proof -
  have "(\<Sum>f \<leftarrow> filter P files. mf_size f) \<le> (\<Sum>f \<leftarrow> files. mf_size f)"
    by (induction files) auto
  then have "(\<Sum>f \<leftarrow> filter P files. mf_size f) = 0" using assms(1,3) by (meson dvd_imp_le leD le_less_trans not_gr_zero)
  then show ?thesis using assms(2) by (auto simp: filter_empty_conv)
qed

lemma to_cli_codes: "snd (to_cli st) = 2 \<longleftrightarrow> st = CertainlyRevoked" "snd (to_cli st) = 0 \<longleftrightarrow> st \<noteq> CertainlyRevoked"
  "snd (to_cli st) \<in> {0, 2}"
  by (cases st; simp add: to_cli_def EXIT_SUCCESS_def EXIT_CODE_REVOCATION_REVOKED_def)+

section \<open>Properties\<close>

text \<open>
  C13: the exit status of \<open>upki revocation check\<close> is as documented: 2 exactly when the certificates on
  standard input could be read and checked and the certificate is revoked, 0 exactly when the check
  completed otherwise, and else 1, as long as serials and key information are short enough to be
  hashed. The file system is not changed.
\<close>

theorem check_exit_status:
  assumes "in_args inp = Inr args" and "arg_command args = CmdRevocation Check"
    and "\<forall>ee. 8 * (32 + length (wp_serial wp ee)) \<le> usize_max" and "\<forall>ta. 8 * length (wp_spki wp ta) \<le> usize_max"
  shows "\<exists>code. process env wp cl ex envs inp s = (code, s) \<and> code \<in> {0, 1, 2}
    \<and> (code = 2 \<longleftrightarrow> (\<exists>config certs. in_filter inp = Inr () \<and> cli_config env s args = Ok config
           \<and> in_pem inp = map Inr certs \<and> chain_status wp cl s config certs = Ok CertainlyRevoked))
    \<and> (code = 0 \<longleftrightarrow> (\<exists>config certs st. in_filter inp = Inr () \<and> cli_config env s args = Ok config
           \<and> in_pem inp = map Inr certs \<and> chain_status wp cl s config certs = Ok st \<and> st \<noteq> CertainlyRevoked))"
proof -
  have np: "chain_status wp cl s config certs \<noteq> Panic" for config certs
    by (rule chain_status_no_panic) (use assms(3,4) in auto)
  show ?thesis
  proof (cases "\<exists>config certs. in_filter inp = Inr () \<and> cli_config env s args = Ok config \<and> in_pem inp = map Inr certs")
    case True
    then obtain config certs where ok: "in_filter inp = Inr ()" "cli_config env s args = Ok config"
      "in_pem inp = map Inr certs" by blast
    then have rd: "read_certs (in_pem inp) = Ok certs" by (simp add: read_certs_Ok_iff)
    have inj: "in_pem inp = map Inr cs \<longleftrightarrow> cs = certs" for cs
      using rd read_certs_Ok_iff [of "in_pem inp" cs] by auto
    show ?thesis
    proof (cases "chain_status wp cl s config certs")
      case (Ok st)
      with ok(1,2) rd have "process env wp cl ex envs inp s = (snd (to_cli st), s)"
        by (simp add: process_check [OF assms(1,2)])
      with ok(1,2) Ok to_cli_codes [of st] show ?thesis by (simp add: inj)
    next
      case (Err e)
      with ok(1,2) rd have "process env wp cl ex envs inp s = (1, s)"
        by (simp add: process_check [OF assms(1,2)])
      with ok(1,2) Err show ?thesis by (simp add: inj)
    qed (use np in simp)
  next
    case False
    then have "process env wp cl ex envs inp s = (1, s)"
      by (auto simp: process_check [OF assms(1,2)] read_certs_Ok_iff split: sum.split outcome.split)
    with False show ?thesis by auto
  qed
qed

definition sample_cli :: cli_input where
  "sample_cli = \<lparr>in_args = Inr \<lparr>arg_command = CmdRevocation Check, arg_config_file = None, arg_verbose = False\<rparr>,
     in_filter = Inr (), in_pem = [Inr [1], Inr [2]], in_toml_pretty = (\<lambda>_. Inl ''not supported''),
     in_order = (\<lambda>xs. xs), in_short = (\<lambda>n. n)\<rparr>"

theorem check_exit_status_witness:
  "\<exists>code. process sample_env sample_webpki sample_crlite demo_externals demo_envs sample_cli sample_fs = (code, sample_fs)
     \<and> code \<in> {0, 1, 2}"
  using check_exit_status [of sample_cli "\<lparr>arg_command = CmdRevocation Check, arg_config_file = None, arg_verbose = False\<rparr>"
      sample_webpki sample_env sample_crlite demo_externals demo_envs sample_fs] sample_webpki_short
  by (auto simp: sample_cli_def)

text \<open>
  C32: the exit status of \<open>upki verify\<close>, for arguments that could be parsed. It changes nothing and gives
  0 exactly when the configuration and the cached manifest can be loaded, the manifest can be
  introduced, the cache directory can be examined, and the sizes that the manifest claims for
  the files that are missing or have another digest sum to a multiple of \<open>2\<^sup>6\<^sup>4\<close>. So when the manifest
  claims no empty file and less than \<open>2\<^sup>6\<^sup>4\<close> bytes in all, status 0 means that every file it lists is
  there with its digest, which is what the command documents; for other manifests it need not.
\<close>

theorem verify_exit_status:
  assumes "in_args inp = Inr args" and "arg_command args = CmdVerify"
  shows "\<exists>code. process env wp cl ex envs inp s = (code, s)
    \<and> (code = 0 \<longleftrightarrow> (\<exists>config m plan. in_filter inp = Inr () \<and> cli_config env s args = Ok config
          \<and> manifest_from_config ex config s = Ok m \<and> introduce (ex_rfc3339 ex) m = Ok ()
          \<and> plan_construct (in_short inp) (in_order inp) s m None ''https://.../'' (revocation_cache_dir config) = Ok plan
          \<and> 2 ^ 64 dvd (\<Sum>f \<leftarrow> filter (\<lambda>f. \<not> up_to_date s (revocation_cache_dir config) f) (m_files m). mf_size f)))
    \<and> (\<forall>config m. code = 0 \<and> cli_config env s args = Ok config \<and> manifest_from_config ex config s = Ok m
          \<and> (\<forall>f \<in> set (m_files m). 0 < mf_size f) \<and> (\<Sum>f \<leftarrow> m_files m. mf_size f) < 2 ^ 64 \<longrightarrow>
        (\<forall>f \<in> set (m_files m). \<exists>b. file_at s (path_key (path_join (revocation_cache_dir config) (mf_filename f))) = Some b
           \<and> fips_sha256 b = mf_hash f))"
proof -
  have "\<exists>code. process env wp cl ex envs inp s = (code, s)"
    by (simp add: process_verify [OF assms] split: sum.split outcome.split)
  then obtain code where run: "process env wp cl ex envs inp s = (code, s)" ..
  have zero: "code = 0 \<longleftrightarrow> (\<exists>config m plan. in_filter inp = Inr () \<and> cli_config env s args = Ok config
      \<and> manifest_from_config ex config s = Ok m \<and> introduce (ex_rfc3339 ex) m = Ok ()
      \<and> plan_construct (in_short inp) (in_order inp) s m None ''https://.../'' (revocation_cache_dir config) = Ok plan
      \<and> 2 ^ 64 dvd (\<Sum>f \<leftarrow> filter (\<lambda>f. \<not> up_to_date s (revocation_cache_dir config) f) (m_files m). mf_size f))"
    using run unfolding process_verify [OF assms] dvd_eq_mod_eq_0
    by (auto simp: verify_sums_sizes Let_def EXIT_SUCCESS_def outcome_simps split: sum.splits outcome.splits if_splits)
  have "up_to_date s (revocation_cache_dir config) f"
    if "code = 0" "cli_config env s args = Ok config" "manifest_from_config ex config s = Ok m"
      "\<forall>f \<in> set (m_files m). 0 < mf_size f" "(\<Sum>f \<leftarrow> m_files m. mf_size f) < 2 ^ 64" "f \<in> set (m_files m)" for config m f
    using zero that sizes_of_none [of "\<lambda>f. \<not> up_to_date s (revocation_cache_dir config) f" "m_files m"]
    by (auto simp: filter_empty_conv)
  with zero run hash_file_Ok show ?thesis by (fastforce simp: up_to_date_def)
qed

definition verify_cli :: cli_input where
  "verify_cli = sample_cli\<lparr>in_args := Inr \<lparr>arg_command = CmdVerify, arg_config_file = None, arg_verbose = False\<rparr>\<rparr>"

theorem verify_exit_status_witness:
  "\<exists>code. process sample_env sample_webpki sample_crlite demo_externals demo_envs verify_cli sample_fs = (code, sample_fs)
    \<and> (code = 0 \<longrightarrow> (\<exists>config. cli_config sample_env sample_fs \<lparr>arg_command = CmdVerify, arg_config_file = None, arg_verbose = False\<rparr>
        = Ok config))"
  using verify_exit_status [of verify_cli "\<lparr>arg_command = CmdVerify, arg_config_file = None, arg_verbose = False\<rparr>"
      sample_env sample_webpki sample_crlite demo_externals demo_envs sample_fs]
  by (auto simp: verify_cli_def)

end
