(* ===== verification/Openssl.thy ===== *)
theory Openssl
  imports Ffi
begin

text \<open>
  The OpenSSL integration of \<open>upki-openssl/src/lib.rs\<close>: the configuration attached to an \<open>SSL_CTX\<close>
  and the verification callback. It is a client of the C interface (\<open>Ffi\<close>) and is modelled as one:
  certificates are copied into memory, described by an array, and passed by pointer.

  OpenSSL is another library: the functions that are called are the fields of the record \<open>openssl\<close>,
  over an abstract state of the extra data of all contexts. What the code relies on is the law
  \<open>ex_data_ok\<close>: the value read is the one set last. \<open>ssl_world\<close> holds memory, that state and the error
  that was set. The addresses of vectors and locals are the choice of an \<open>allocator\<close>.
\<close>

type_synonym c_int = "32 word"

record ('ctx, 'stack, 'x509, 'ssl, 'e) openssl =
  os_error_depth :: "'ctx \<Rightarrow> c_int"
  os_chain :: "'ctx \<Rightarrow> 'stack option"
  os_sk_num :: "'stack \<Rightarrow> c_int"
  os_sk_value :: "'stack \<Rightarrow> c_int \<Rightarrow> 'x509 option"
  os_i2d :: "'x509 \<Rightarrow> c_int \<times> bytes option" \<comment> \<open>the length returned, and the buffer unless it is null\<close>
  os_ssl :: "'ctx \<Rightarrow> 'ssl option"
  os_ssl_ctx :: "'ssl \<Rightarrow> ptr"
  os_new_index :: c_int
  os_get_ex_data :: "'e \<Rightarrow> ptr \<Rightarrow> ptr" \<comment> \<open>at the index of the configuration\<close>
  os_set_ex_data :: "'e \<Rightarrow> ptr \<Rightarrow> ptr \<Rightarrow> 'e"
  os_ctx_free :: "'e \<Rightarrow> ptr \<Rightarrow> 'e"
  os_cert_revoked :: c_int
  os_application_verification :: c_int

record 'e ssl_world =
  sw_mem :: c_memory
  sw_ex_data :: 'e
  sw_error :: "c_int option"

record allocator =
  al_box :: "c_memory \<Rightarrow> ptr"
  al_slot :: "c_memory \<Rightarrow> ptr"
  al_bytes :: "c_memory \<Rightarrow> nat \<Rightarrow> ptr"
  al_ders :: "c_memory \<Rightarrow> nat \<Rightarrow> ptr"

definition get_ex_data :: "('ctx, 'stack, 'x509, 'ssl, 'e) openssl \<Rightarrow> 'e ssl_world \<Rightarrow> ptr \<Rightarrow> ptr" where
  "get_ex_data os w ctx = os_get_ex_data os (sw_ex_data w) ctx"

definition UPKI_SSL_CTX_CONFIG_INDEX :: "('ctx, 'stack, 'x509, 'ssl, 'e) openssl \<Rightarrow> c_int option" where
  "UPKI_SSL_CTX_CONFIG_INDEX os = (if os_new_index os = - 1 then None else Some (os_new_index os))"

section \<open>The configuration of a context\<close>

definition upki_openssl_set_config ::
  "('ctx, 'stack, 'x509, 'ssl, 'e) openssl \<Rightarrow> 'e ssl_world \<Rightarrow> ptr \<Rightarrow> ptr \<Rightarrow> 'e ssl_world c_call" where
  "upki_openssl_set_config os w ctx config =
     (if ctx = NULL then Defined w
      else case UPKI_SSL_CTX_CONFIG_INDEX os of
        None \<Rightarrow> Defined w
      | Some _ \<Rightarrow>
          (case upki_config_free (sw_mem w) (get_ex_data os w ctx) of
             Undefined \<Rightarrow> Undefined
           | Defined mem \<Rightarrow>
               Defined (w\<lparr>sw_mem := mem,
                 sw_ex_data := os_set_ex_data os (sw_ex_data w) ctx config\<rparr>)))"

text \<open>
  \<open>ssl_ctx_upki_config_free\<close> is called by OpenSSL with the stored value when a context is freed;
  \<open>ssl_ctx_free\<close> is that event, as documented for \<open>SSL_CTX_get_ex_new_index\<close>, and no code of the crate.
\<close>

definition ssl_ctx_upki_config_free :: "c_memory \<Rightarrow> ptr \<Rightarrow> c_memory c_call" where
  "ssl_ctx_upki_config_free mem config = upki_config_free mem config"

definition ssl_ctx_free :: "('ctx, 'stack, 'x509, 'ssl, 'e) openssl \<Rightarrow> 'e ssl_world \<Rightarrow> ptr \<Rightarrow> 'e ssl_world c_call" where
  "ssl_ctx_free os w ctx =
     (case ssl_ctx_upki_config_free (sw_mem w) (get_ex_data os w ctx) of
        Undefined \<Rightarrow> Undefined
      | Defined mem \<Rightarrow> Defined (w\<lparr>sw_mem := mem, sw_ex_data := os_ctx_free os (sw_ex_data w) ctx\<rparr>))"

section \<open>Certificates\<close>

definition x509_to_certificate_der ::
  "('ctx, 'stack, 'x509, 'ssl, 'e) openssl \<Rightarrow> 'x509 \<Rightarrow> bytes option c_call" where
  "x509_to_certificate_der os x =
     (case os_i2d os x of (len, p) \<Rightarrow>
        if sint len \<le> 0 then Defined None
        else case p of
          None \<Rightarrow> Defined None
        | Some buf \<Rightarrow>
            if length buf < nat (sint len) then Undefined else Defined (Some (take (nat (sint len)) buf)))"

fun copy_certs_from ::
  "('ctx, 'stack, 'x509, 'ssl, 'e) openssl \<Rightarrow> 'stack \<Rightarrow> nat list \<Rightarrow> bytes list option c_call" where
  "copy_certs_from os stack [] = Defined (Some [])"
| "copy_certs_from os stack (i # is) =
     (case os_sk_value os stack (of_nat i) of
        None \<Rightarrow> Defined None
      | Some x \<Rightarrow>
          (case x509_to_certificate_der os x of
             Undefined \<Rightarrow> Undefined
           | Defined None \<Rightarrow> Defined None
           | Defined (Some der) \<Rightarrow>
               (case copy_certs_from os stack is of
                  Undefined \<Rightarrow> Undefined
                | Defined None \<Rightarrow> Defined None
                | Defined (Some certs) \<Rightarrow> Defined (Some (der # certs)))))"

definition copy_certs :: "('ctx, 'stack, 'x509, 'ssl, 'e) openssl \<Rightarrow> 'stack \<Rightarrow> bytes list option c_call" where
  "copy_certs os stack =
     (let count = sint (os_sk_num os stack) in
      if count < 0 then Defined None else copy_certs_from os stack [0..<nat count])"

text \<open>
  A vector in memory: \<open>n\<close> cells of \<open>sz\<close> bytes from an address. The copied certificates are vectors of
  bytes, \<open>cert_descriptors\<close> is a vector of their descriptors.
\<close>

definition cells :: "nat \<Rightarrow> ptr \<Rightarrow> 'a list \<Rightarrow> (ptr \<times> 'a) list" where
  "cells sz p xs = zip (map (\<lambda>i. p + i * sz) [0..<length xs]) xs"

fun place_certs ::
  "(c_memory \<Rightarrow> nat \<Rightarrow> ptr) \<Rightarrow> bytes list \<Rightarrow> c_memory \<Rightarrow> c_memory \<times> upki_certificate_der list" where
  "place_certs al [] mem = (mem, [])"
| "place_certs al (c # certs) mem =
     (let p = al mem (length c);
          (mem', ders) = place_certs al certs (mem\<lparr>cm_bytes := cells 1 p c @ cm_bytes mem\<rparr>)
      in (mem', \<lparr>der_data = p, der_len = length c\<rparr> # ders))"

definition cert_descriptors :: "allocator \<Rightarrow> bytes list \<Rightarrow> c_memory \<Rightarrow> c_memory \<times> ptr" where
  "cert_descriptors al certs mem =
     (let (mem1, ders) = place_certs (al_bytes al) certs mem; p = al_ders al mem1 (length ders)
      in (mem1\<lparr>cm_ders := cells 16 p ders @ cm_ders mem1\<rparr>, p))"

section \<open>The configuration of a verification\<close>

datatype owned_config = FromContext ptr | Owned ptr

definition ssl_ctx_of :: "('ctx, 'stack, 'x509, 'ssl, 'e) openssl \<Rightarrow> 'ctx \<Rightarrow> ptr" where
  "ssl_ctx_of os x = (case os_ssl os x of None \<Rightarrow> NULL | Some ssl \<Rightarrow> os_ssl_ctx os ssl)"

definition upki_config_from_ssl_ctx ::
  "('ctx, 'stack, 'x509, 'ssl, 'e) openssl \<Rightarrow> 'e ssl_world \<Rightarrow> 'ctx \<Rightarrow> ptr" where
  "upki_config_from_ssl_ctx os w x =
     (case (ssl_ctx_of os x = NULL, UPKI_SSL_CTX_CONFIG_INDEX os) of
        (False, Some _) \<Rightarrow> get_ex_data os w (ssl_ctx_of os x)
      | _ \<Rightarrow> NULL)"

text \<open>\<open>UpkiConfig::new\<close>, with a local variable for the new handle, which starts as null.\<close>

definition config_for ::
  "('ctx, 'stack, 'x509, 'ssl, 'e) openssl \<Rightarrow> allocator \<Rightarrow> environment \<Rightarrow> fs \<Rightarrow> 'e ssl_world \<Rightarrow> c_memory \<Rightarrow> 'ctx
   \<Rightarrow> ((upki_result + owned_config) \<times> c_memory) c_call" where
  "config_for os al env s w mem x =
     (let ptr = upki_config_from_ssl_ctx os w x in
      if ptr \<noteq> NULL then Defined (Inr (FromContext ptr), mem)
      else let local = al_slot al mem in
        case upki_config_new env s (al_box al) (mem\<lparr>cm_slots := (local, NULL) # cm_slots mem\<rparr>) NULL local of
          Undefined \<Rightarrow> Undefined
        | Defined (rc, mem') \<Rightarrow>
            (case map_of (cm_slots mem') local of
               None \<Rightarrow> Undefined
             | Some ptr \<Rightarrow>
                 Defined (if ptr = NULL then Inl rc else Inr (Owned ptr), mem'\<lparr>cm_slots := cm_slots mem\<rparr>)))"

fun config_as_ptr :: "owned_config \<Rightarrow> ptr" where
  "config_as_ptr (FromContext p) = p"
| "config_as_ptr (Owned p) = p"

fun drop_config :: "owned_config \<Rightarrow> c_memory \<Rightarrow> c_memory c_call" where
  "drop_config (Owned p) mem = upki_config_free mem p"
| "drop_config (FromContext p) mem = Defined mem"

section \<open>The verification callback\<close>

definition set_error :: "c_int \<Rightarrow> 'e ssl_world \<Rightarrow> 'e ssl_world" where
  "set_error e w = w\<lparr>sw_error := Some e\<rparr>"

text \<open>What the result of the check does to the context and to the value returned.\<close>

definition apply_result ::
  "('ctx, 'stack, 'x509, 'ssl, 'e) openssl \<Rightarrow> c_int \<Rightarrow> upki_result \<Rightarrow> 'e ssl_world \<Rightarrow> c_int \<times> 'e ssl_world" where
  "apply_result os preverify_ok r w =
     (case r of
        UPKI_REVOCATION_REVOKED \<Rightarrow> (0, set_error (os_cert_revoked os) w)
      | UPKI_REVOCATION_NOT_COVERED \<Rightarrow> (preverify_ok, w)
      | UPKI_REVOCATION_NOT_REVOKED \<Rightarrow> (preverify_ok, w)
      | _ \<Rightarrow> (0, set_error (os_application_verification os) w))"

text \<open>The vectors of the callback are dropped when it returns.\<close>

definition drop_vectors :: "c_memory \<Rightarrow> 'e ssl_world \<Rightarrow> 'e ssl_world" where
  "drop_vectors mem w = w\<lparr>sw_mem := mem\<lparr>cm_bytes := cm_bytes (sw_mem w), cm_ders := cm_ders (sw_mem w)\<rparr>\<rparr>"

definition upki_openssl_verify_callback ::
  "('ctx, 'stack, 'x509, 'ssl, 'e) openssl \<Rightarrow> allocator \<Rightarrow> environment \<Rightarrow> ('ee, 'ta) webpki \<Rightarrow> 'c crlite \<Rightarrow> fs
   \<Rightarrow> 'e ssl_world \<Rightarrow> c_int \<Rightarrow> 'ctx option \<Rightarrow> (c_int \<times> 'e ssl_world) c_call" where
  "upki_openssl_verify_callback os al env wp cl s w preverify_ok x509_ctx =
     (if preverify_ok = 0 then Defined (preverify_ok, w)
      else case x509_ctx of None \<Rightarrow> Defined (0, w)
      | Some x \<Rightarrow>
          if os_error_depth os x \<noteq> 0 then Defined (preverify_ok, w)
          else case os_chain os x of None \<Rightarrow> Defined (0, w)
          | Some chain \<Rightarrow>
              (case copy_certs os chain of
                 Undefined \<Rightarrow> Undefined
               | Defined None \<Rightarrow> Defined (0, w)
               | Defined (Some certs) \<Rightarrow>
                   (case cert_descriptors al certs (sw_mem w) of (mem, descriptors) \<Rightarrow>
                    if certs = [] then Defined (0, set_error (os_application_verification os) w)
                    else
                      (case config_for os al env s w mem x of
                         Undefined \<Rightarrow> Undefined
                       | Defined (Inl rc, mem') \<Rightarrow> Defined (0, drop_vectors mem' w)
                       | Defined (Inr config, mem') \<Rightarrow>
                           (case upki_check_revocation wp cl s mem' (config_as_ptr config) descriptors (length certs) of
                              Undefined \<Rightarrow> Undefined
                            | Defined r \<Rightarrow>
                                (case drop_config config mem' of
                                   Undefined \<Rightarrow> Undefined
                                 | Defined mem'' \<Rightarrow>
                                     Defined (apply_result os preverify_ok r (drop_vectors mem'' w))))))))"

section \<open>Vectors in memory\<close>

lemma those_eq_Some: "those xs = Some ys \<longleftrightarrow> xs = map Some ys"
proof (induction xs arbitrary: ys)
  case (Cons x xs)
  then show ?case by (cases x; cases ys) auto
qed auto

lemma raw_slice_Some:
  "raw_slice sz align mem p n = Some xs \<longleftrightarrow>
     p \<noteq> NULL \<and> p mod align = 0 \<and> n * sz < 2 ^ 63 \<and> length xs = n \<and> (\<forall>i < n. map_of mem (p + i * sz) = Some (xs ! i))"
  by (auto simp: raw_slice_def those_eq_Some list_eq_iff_nth_eq)

lemma map_of_cells:
  assumes "0 < sz"
  shows "map_of (cells sz p xs) k =
    (if k \<ge> p \<and> (k - p) mod sz = 0 \<and> (k - p) div sz < length xs then Some (xs ! ((k - p) div sz)) else None)"
proof -
  let ?ks = "map (\<lambda>i. p + i * sz) [0..<length xs]"
  have dist: "distinct ?ks" using assms by (auto simp: distinct_map inj_on_def)
  show ?thesis
  proof (cases "k \<ge> p \<and> (k - p) mod sz = 0 \<and> (k - p) div sz < length xs")
    case True
    then have "k = ?ks ! ((k - p) div sz)" using mod_div_mult_eq [of "k - p" sz] by (simp add: mult.commute)
    then have "map_of (zip ?ks xs) k = Some (xs ! ((k - p) div sz))"
      using True dist by (metis length_map length_upt map_of_zip_nth minus_nat.diff_0)
    with True show ?thesis by (simp add: cells_def)
  next
    case False
    then have "k \<notin> set ?ks" using assms by auto
    with False show ?thesis by (auto simp: cells_def map_of_eq_None_iff dest: set_zip_leftD)
  qed
qed

lemma cells_nth [simp]: "0 < sz \<Longrightarrow> i < length xs \<Longrightarrow> map_of (cells sz p xs) (p + i * sz) = Some (xs ! i)"
  by (simp add: map_of_cells)

lemma cells_Some: "0 < sz \<Longrightarrow> map_of (cells sz p xs) k = Some x \<Longrightarrow> \<exists>i < length xs. k = p + i * sz"
  using mod_div_mult_eq [of "k - p" sz]
  by (auto simp: map_of_cells split: if_splits)

lemma raw_slice_cells:
  "0 < sz \<Longrightarrow> p \<noteq> NULL \<Longrightarrow> p mod align = 0 \<Longrightarrow> length xs * sz < 2 ^ 63 \<Longrightarrow>
   raw_slice sz align (cells sz p xs @ mem) p (length xs) = Some xs"
  by (simp add: raw_slice_Some map_add_Some_iff)

lemma raw_slice_frame:
  assumes "raw_slice sz align mem q n = Some ys" and "0 < sz'"
    and "\<forall>i < length xs. map_of mem (p + i * sz') = None"
  shows "raw_slice sz align (cells sz' p xs @ mem) q n = Some ys"
proof -
  have "map_of (cells sz' p xs) k = None" if "map_of mem k = Some y" for k y
    using cells_Some [OF assms(2), of p xs k] that assms(3) by (cases "map_of (cells sz' p xs) k") auto
  with assms(1) show ?thesis by (auto simp: raw_slice_Some map_add_Some_iff)
qed

definition vectors_ok :: "allocator \<Rightarrow> bool" where
  "vectors_ok al \<longleftrightarrow> (\<forall>mem n. al_slot al mem \<noteq> NULL
     \<and> al_bytes al mem n \<noteq> NULL \<and> (\<forall>i < n. map_of (cm_bytes mem) (al_bytes al mem n + i) = None)
     \<and> al_ders al mem n \<noteq> NULL \<and> al_ders al mem n mod 8 = 0)"

lemma place_certs_read:
  assumes "vectors_ok al"
  shows "place_certs (al_bytes al) certs mem = (mem', ders) \<Longrightarrow> \<forall>c \<in> set certs. length c < 2 ^ 63 \<Longrightarrow>
     map (\<lambda>d. raw_slice 1 1 (cm_bytes mem') (der_data d) (der_len d)) ders = map Some certs
     \<and> (\<forall>q n ys. raw_slice 1 1 (cm_bytes mem) q n = Some ys \<longrightarrow> raw_slice 1 1 (cm_bytes mem') q n = Some ys)
     \<and> mem'\<lparr>cm_bytes := cm_bytes mem\<rparr> = mem"
proof (induction certs arbitrary: mem ders)
  case (Cons c certs)
  define p where "p = al_bytes al mem (length c)"
  define mem1 where "mem1 = mem\<lparr>cm_bytes := cells 1 p c @ cm_bytes mem\<rparr>"
  obtain ders1 where rest: "place_certs (al_bytes al) certs mem1 = (mem', ders1)"
    and ders: "ders = \<lparr>der_data = p, der_len = length c\<rparr> # ders1"
    using Cons.prems(1) by (auto simp: p_def mem1_def Let_def split: prod.splits)
  have p: "p \<noteq> NULL" "\<forall>i < length c. map_of (cm_bytes mem) (p + i * 1) = None"
    using assms by (auto simp: vectors_ok_def p_def)
  have IH: "map (\<lambda>d. raw_slice 1 1 (cm_bytes mem') (der_data d) (der_len d)) ders1 = map Some certs"
    "\<And>q n ys. raw_slice 1 1 (cm_bytes mem1) q n = Some ys \<Longrightarrow> raw_slice 1 1 (cm_bytes mem') q n = Some ys"
    "mem'\<lparr>cm_bytes := cm_bytes mem1\<rparr> = mem1"
    using Cons.IH [OF rest] Cons.prems(2) by auto
  have "raw_slice 1 1 (cm_bytes mem1) p (length c) = Some c"
    using raw_slice_cells [of 1 p 1 c "cm_bytes mem"] p(1) Cons.prems(2) by (simp add: mem1_def)
  moreover have "raw_slice 1 1 (cm_bytes mem1) q n = Some ys" if "raw_slice 1 1 (cm_bytes mem) q n = Some ys" for q n ys
    using raw_slice_frame [OF that _ p(2)] by (simp add: mem1_def)
  moreover have "mem'\<lparr>cm_bytes := cm_bytes mem\<rparr> = mem"
  proof -
    have "mem'\<lparr>cm_bytes := cm_bytes mem\<rparr> = mem'\<lparr>cm_bytes := cm_bytes mem1\<rparr>\<lparr>cm_bytes := cm_bytes mem\<rparr>" by simp
    then show ?thesis unfolding IH(3) by (simp add: mem1_def)
  qed
  ultimately show ?case using IH(1,2) ders by simp
qed simp

lemma place_certs_length: "place_certs a certs mem = (mem', ders) \<Longrightarrow> length ders = length certs"
  by (induction certs arbitrary: mem ders) (auto simp: Let_def split: prod.splits)

text \<open>The C interface reads back the certificates that were copied.\<close>

lemma cert_descriptors_read:
  assumes "vectors_ok al" and "cert_descriptors al certs mem = (mem', p)"
    and "\<forall>c \<in> set certs. length c < 2 ^ 31" and "length certs < 2 ^ 31"
  shows "der_slices mem' p (length certs) = Some certs \<and> p \<noteq> NULL
    \<and> cm_configs mem' = cm_configs mem \<and> cm_slots mem' = cm_slots mem"
proof -
  obtain mem1 ders where placed: "place_certs (al_bytes al) certs mem = (mem1, ders)"
    by (cases "place_certs (al_bytes al) certs mem")
  then have p: "p = al_ders al mem1 (length ders)" "mem' = mem1\<lparr>cm_ders := cells 16 p ders @ cm_ders mem1\<rparr>"
    using assms(2) by (auto simp: cert_descriptors_def Let_def)
  have "\<forall>c \<in> set certs. length c < 2 ^ 63" using assms(3) by (auto intro: less_trans)
  from place_certs_read [OF assms(1) placed this]
  have rd: "map (\<lambda>d. raw_slice 1 1 (cm_bytes mem1) (der_data d) (der_len d)) ders = map Some certs"
    and fr: "mem1\<lparr>cm_bytes := cm_bytes mem\<rparr> = mem" by auto
  have len: "length ders = length certs" by (rule place_certs_length [OF placed])
  have "p \<noteq> NULL" "p mod 8 = 0" using assms(1) by (auto simp: vectors_ok_def p(1))
  then have "raw_slice 16 8 (cm_ders mem') p (length certs) = Some ders"
    using raw_slice_cells [of 16 p 8 ders "cm_ders mem1"] assms(4) len by (simp add: p(2))
  moreover have "cm_configs mem1 = cm_configs mem" "cm_slots mem1 = cm_slots mem" by (subst fr [symmetric], simp)+
  ultimately show ?thesis using rd \<open>p \<noteq> NULL\<close> by (simp add: der_slices_def p(2) those_eq_Some)
qed

section \<open>The callback without memory\<close>

text \<open>
  The configuration that a verification uses: the one of the context if it has one, else the one
  found by default.
\<close>

definition config_in_use ::
  "('ctx, 'stack, 'x509, 'ssl, 'e) openssl \<Rightarrow> environment \<Rightarrow> fs \<Rightarrow> 'e ssl_world \<Rightarrow> 'ctx \<Rightarrow> config option" where
  "config_in_use os env s w x =
     (let h = upki_config_from_ssl_ctx os w x in
      if h \<noteq> NULL then live_config (sw_mem w) h
      else ok_option (obind (config_path_new env s None) (config_from_file_or_user_default env s)))"

definition contexts_ok :: "('ctx, 'stack, 'x509, 'ssl, 'e) openssl \<Rightarrow> 'e ssl_world \<Rightarrow> bool" where
  "contexts_ok os w \<longleftrightarrow> (\<forall>ctx. get_ex_data os w ctx \<noteq> NULL \<longrightarrow> live_config (sw_mem w) (get_ex_data os w ctx) \<noteq> None)"

lemma copy_certs_bounds:
  assumes "copy_certs os chain = Defined (Some certs)"
  shows "length certs < 2 ^ 31 \<and> (\<forall>c \<in> set certs. length c < 2 ^ 31)"
proof -
  have bound: "nat (sint (n :: c_int)) < 2 ^ 31" for n
    using sint_range_size [of n] by (cases "sint n < 0") (simp_all add: word_size nat_less_iff)
  have one: "length c < 2 ^ 31" if "x509_to_certificate_der os x = Defined (Some c)" for x c
    using that bound by (auto simp: x509_to_certificate_der_def split: prod.splits if_splits option.splits)
  have "length certs = length is \<and> (\<forall>c \<in> set certs. length c < 2 ^ 31)"
    if "copy_certs_from os chain is = Defined (Some certs)" for "is"
    using that
    by (induction "is" arbitrary: certs) (auto split: option.splits c_call.splits dest: one [simplified])
  from this [of "[0..<nat (sint (os_sk_num os chain))]"] assms bound show ?thesis
    by (auto simp: copy_certs_def Let_def split: if_splits)
qed

lemma drop_vectors_same:
  "cm_configs mem = cm_configs (sw_mem w) \<Longrightarrow> cm_slots mem = cm_slots (sw_mem w) \<Longrightarrow> drop_vectors mem w = w"
  by (cases "sw_mem w") (simp add: drop_vectors_def)

lemma config_new_default:
  assumes "out \<noteq> NULL" and "map_of (cm_slots mem) out \<noteq> None"
  shows "upki_config_new env s alloc mem NULL out =
    (case obind (config_path_new env s None) (config_from_file_or_user_default env s) of
       Ok config \<Rightarrow> Defined (UPKI_OK, mem\<lparr>cm_configs := (alloc mem, config) # cm_configs mem,
                                       cm_slots := AList.update out (alloc mem) (cm_slots mem)\<rparr>)
     | Err e \<Rightarrow> Defined (upki_result_from e, mem)
     | Panic \<Rightarrow> Defined (UPKI_ERR_PANICKED, mem))"
  using assms
  by (cases "config_path_new env s None") (auto simp: upki_config_new_def Let_def split: outcome.split)

text \<open>Loading a configuration into a local, using it and dropping it.\<close>

lemma config_for_cases:
  assumes al: "allocator_ok (al_box al)" "vectors_ok al" and w: "contexts_ok os w"
    and mem: "cm_configs mem = cm_configs (sw_mem w)" "cm_slots mem = cm_slots (sw_mem w)"
  shows "case config_in_use os env s w x of
     None \<Rightarrow> \<exists>rc. config_for os al env s w mem x = Defined (Inl rc, mem)
   | Some cfg \<Rightarrow> \<exists>config mem'. config_for os al env s w mem x = Defined (Inr config, mem')
       \<and> config_as_ptr config \<noteq> NULL \<and> live_config mem' (config_as_ptr config) = Some cfg
       \<and> cm_bytes mem' = cm_bytes mem \<and> cm_ders mem' = cm_ders mem \<and> drop_config config mem' = Defined mem"
proof (cases "upki_config_from_ssl_ctx os w x = NULL")
  case False
  then have "live_config (sw_mem w) (upki_config_from_ssl_ctx os w x) \<noteq> None"
    using w by (auto simp: contexts_ok_def upki_config_from_ssl_ctx_def split: option.splits bool.splits)
  with False show ?thesis by (auto simp: config_in_use_def config_for_def Let_def mem)
next
  case True
  have slot: "al_slot al mem \<noteq> NULL" using al(2) by (simp add: vectors_ok_def)
  define mem1 where "mem1 = mem\<lparr>cm_slots := (al_slot al mem, NULL) # cm_slots mem\<rparr>"
  have fresh: "al_box al mem1 \<noteq> NULL" "live_config mem1 (al_box al mem1) = None"
    using al(1) by (auto simp: allocator_ok_def)
  have del: "AList.delete (al_box al mem1) (cm_configs mem1) = cm_configs mem1"
    using fresh(2) by (intro delete_id) (auto simp: map_of_eq_None_iff)
  have "upki_config_new env s (al_box al) mem1 NULL (al_slot al mem) =
    (case obind (config_path_new env s None) (config_from_file_or_user_default env s) of
       Ok config \<Rightarrow> Defined (UPKI_OK, mem1\<lparr>cm_configs := (al_box al mem1, config) # cm_configs mem1,
                       cm_slots := AList.update (al_slot al mem) (al_box al mem1) (cm_slots mem1)\<rparr>)
     | Err e \<Rightarrow> Defined (upki_result_from e, mem1)
     | Panic \<Rightarrow> Defined (UPKI_ERR_PANICKED, mem1))"
    by (rule config_new_default [OF slot]) (simp add: mem1_def)
  with True show ?thesis
    using fresh del
    by (cases "obind (config_path_new env s None) (config_from_file_or_user_default env s)")
       (simp_all add: config_in_use_def config_for_def Let_def mem1_def [symmetric] upki_config_free_def update_conv,
        simp_all add: mem1_def)
qed

text \<open>The behaviour of the callback: the value returned, and the error it sets, if any.\<close>

definition callback_verdict ::
  "('ctx, 'stack, 'x509, 'ssl, 'e) openssl \<Rightarrow> environment \<Rightarrow> ('ee, 'ta) webpki \<Rightarrow> 'c crlite \<Rightarrow> fs
   \<Rightarrow> 'e ssl_world \<Rightarrow> c_int \<Rightarrow> 'ctx \<Rightarrow> bytes list \<Rightarrow> c_int \<times> c_int option" where
  "callback_verdict os env wp cl s w preverify_ok x certs =
     (if certs = [] then (0, Some (os_application_verification os))
      else case config_in_use os env s w x of
        None \<Rightarrow> (0, None)
      | Some cfg \<Rightarrow>
          (case chain_status wp cl s cfg certs of
             Ok CertainlyRevoked \<Rightarrow> (0, Some (os_cert_revoked os))
           | Ok _ \<Rightarrow> (preverify_ok, None)
           | _ \<Rightarrow> (0, Some (os_application_verification os))))"

lemma apply_result_status:
  "apply_result os preverify_ok (catch_unwind (\<lambda>e. upki_result_from (RevocationError e)) (map_ok status_result r)) w =
     (case r of
        Ok CertainlyRevoked \<Rightarrow> (0, set_error (os_cert_revoked os) w)
      | Ok _ \<Rightarrow> (preverify_ok, w)
      | _ \<Rightarrow> (0, set_error (os_application_verification os) w))"
proof (cases r)
  case (Ok st)
  then show ?thesis by (cases st) (simp_all add: apply_result_def)
next
  case (Err e)
  then show ?thesis by (cases e) (simp_all add: apply_result_def)
next
  case Panic
  then show ?thesis by (simp add: apply_result_def)
qed

lemma callback_leaf:
  assumes "allocator_ok (al_box al)" and "vectors_ok al" and "contexts_ok os w" and "preverify_ok \<noteq> 0"
    and "os_error_depth os x = 0" and "os_chain os x = Some chain" and "copy_certs os chain = Defined (Some certs)"
  shows "\<exists>ok e. callback_verdict os env wp cl s w preverify_ok x certs = (ok, e)
    \<and> upki_openssl_verify_callback os al env wp cl s w preverify_ok (Some x)
      = Defined (ok, case e of None \<Rightarrow> w | Some e \<Rightarrow> set_error e w)"
proof -
  obtain mem p where cd: "cert_descriptors al certs (sw_mem w) = (mem, p)"
    by (cases "cert_descriptors al certs (sw_mem w)")
  from cert_descriptors_read [OF assms(2) cd] copy_certs_bounds [OF assms(7)]
  have mem: "der_slices mem p (length certs) = Some certs" "p \<noteq> NULL"
    "cm_configs mem = cm_configs (sw_mem w)" "cm_slots mem = cm_slots (sw_mem w)" by auto
  note cfor = config_for_cases [OF assms(1-3) mem(3,4), where env = env and s = s and x = x]
  show ?thesis
  proof (cases "config_in_use os env s w x")
    case None
    with cfor assms(4-7) cd drop_vectors_same [OF mem(3,4)] show ?thesis
      by (auto simp: upki_openssl_verify_callback_def callback_verdict_def)
  next
    case (Some cfg)
    with cfor obtain config mem' where c: "config_for os al env s w mem x = Defined (Inr config, mem')"
      "config_as_ptr config \<noteq> NULL" "live_config mem' (config_as_ptr config) = Some cfg"
      "cm_bytes mem' = cm_bytes mem" "cm_ders mem' = cm_ders mem" "drop_config config mem' = Defined mem" by auto
    have "der_slices mem' p (length certs) = Some certs" using mem(1) c(4,5) by (simp add: der_slices_def)
    then have "upki_check_revocation wp cl s mem' (config_as_ptr config) p (length certs)
      = Defined (catch_unwind (\<lambda>e. upki_result_from (RevocationError e))
          (map_ok status_result (chain_status wp cl s cfg certs)))"
      using c(2,3) mem(2) by (simp add: upki_check_revocation_def)
    with c Some assms(4-7) cd drop_vectors_same [OF mem(3,4)] show ?thesis
      by (auto simp: upki_openssl_verify_callback_def callback_verdict_def apply_result_status
          split: outcome.split revocation_status.split)
  qed
qed

definition callback_spec ::
  "('ctx, 'stack, 'x509, 'ssl, 'e) openssl \<Rightarrow> environment \<Rightarrow> ('ee, 'ta) webpki \<Rightarrow> 'c crlite \<Rightarrow> fs
   \<Rightarrow> 'e ssl_world \<Rightarrow> c_int \<Rightarrow> 'ctx option \<Rightarrow> c_int \<times> c_int option" where
  "callback_spec os env wp cl s w preverify_ok x509_ctx =
     (if preverify_ok = 0 then (0, None)
      else case x509_ctx of None \<Rightarrow> (0, None)
      | Some x \<Rightarrow>
          if os_error_depth os x \<noteq> 0 then (preverify_ok, None)
          else case os_chain os x of None \<Rightarrow> (0, None)
          | Some chain \<Rightarrow>
              (case copy_certs os chain of
                 Defined (Some certs) \<Rightarrow> callback_verdict os env wp cl s w preverify_ok x certs
               | _ \<Rightarrow> (0, None)))"

lemma callback_refines:
  assumes "allocator_ok (al_box al)" and "vectors_ok al" and "contexts_ok os w"
    and "\<And>x chain. x509_ctx = Some x \<Longrightarrow> os_chain os x = Some chain \<Longrightarrow> copy_certs os chain \<noteq> Undefined"
  shows "\<exists>ok e. callback_spec os env wp cl s w preverify_ok x509_ctx = (ok, e)
    \<and> upki_openssl_verify_callback os al env wp cl s w preverify_ok x509_ctx
      = Defined (ok, case e of None \<Rightarrow> w | Some e \<Rightarrow> set_error e w)"
proof (cases "\<exists>x chain certs. preverify_ok \<noteq> 0 \<and> x509_ctx = Some x \<and> os_error_depth os x = 0
    \<and> os_chain os x = Some chain \<and> copy_certs os chain = Defined (Some certs)")
  case True
  then obtain x chain certs where leaf: "preverify_ok \<noteq> 0" "x509_ctx = Some x" "os_error_depth os x = 0"
    "os_chain os x = Some chain" "copy_certs os chain = Defined (Some certs)" by blast
  from callback_leaf [OF assms(1-3) leaf(1,3-5), of env wp cl s] leaf show ?thesis
    by (simp add: callback_spec_def)
next
  case False
  with assms(4) show ?thesis
    by (auto simp: callback_spec_def upki_openssl_verify_callback_def split: option.split c_call.split)
qed

lemma callback_Defined:
  assumes "allocator_ok (al_box al)" and "vectors_ok al" and "contexts_ok os w"
    and "upki_openssl_verify_callback os al env wp cl s w preverify_ok x509_ctx = Defined (ok, w')"
  shows "\<exists>e. w' = w\<lparr>sw_error := e\<rparr>"
proof (cases "\<exists>x chain. preverify_ok \<noteq> 0 \<and> x509_ctx = Some x \<and> os_error_depth os x = 0
    \<and> os_chain os x = Some chain \<and> copy_certs os chain = Undefined")
  case True
  then show ?thesis using assms(4) by (auto simp: upki_openssl_verify_callback_def)
next
  case False
  show ?thesis
  proof (cases "preverify_ok = 0 \<or> (\<exists>x. x509_ctx = Some x \<and> os_error_depth os x \<noteq> 0)")
    case True
    then have "w' = w" using assms(4) by (auto simp: upki_openssl_verify_callback_def split: if_splits)
    then have "w' = w\<lparr>sw_error := sw_error w\<rparr>" by simp
    then show ?thesis by (rule exI)
  next
    case ok: False
    then have "copy_certs os chain \<noteq> Undefined" if "x509_ctx = Some x" "os_chain os x = Some chain" for x chain
      using that False by auto
    then have "\<exists>ok e. callback_spec os env wp cl s w preverify_ok x509_ctx = (ok, e)
      \<and> upki_openssl_verify_callback os al env wp cl s w preverify_ok x509_ctx
        = Defined (ok, case e of None \<Rightarrow> w | Some e \<Rightarrow> set_error e w)"
      by (rule callback_refines [OF assms(1-3)])
    with assms(4) obtain e where "w' = (case e of None \<Rightarrow> w | Some e \<Rightarrow> set_error e w)" by auto
    then have "w' = w\<lparr>sw_error := case e of None \<Rightarrow> sw_error w | Some e \<Rightarrow> Some e\<rparr>"
      by (simp add: set_error_def split: option.split)
    then show ?thesis by (rule exI)
  qed
qed

section \<open>Ownership\<close>

text \<open>The documented behaviour of the extra data of contexts; a freed context has none.\<close>

definition ex_data_ok :: "('ctx, 'stack, 'x509, 'ssl, 'e) openssl \<Rightarrow> bool" where
  "ex_data_ok os \<longleftrightarrow> (\<forall>e ctx p c.
     os_get_ex_data os (os_set_ex_data os e ctx p) c = (if c = ctx then p else os_get_ex_data os e c)
     \<and> os_get_ex_data os (os_ctx_free os e ctx) c = (if c = ctx then NULL else os_get_ex_data os e c))"

text \<open>
  The calls of an application that owns handles and contexts, and what they lead to, which is
  \<open>Undefined\<close> when the call is: the calls of a client of the C interface; handing a handle it owns, or
  the null pointer, to a context, which then owns it (nothing happens for a null context); freeing a
  context; and verifying. It does not hand a context the handle that the context already holds, since
  it does not own that one any more.
\<close>

inductive context_call ::
  "('ctx, 'stack, 'x509, 'ssl, 'e) openssl \<Rightarrow> allocator \<Rightarrow> ('ee, 'ta) webpki \<Rightarrow> 'c crlite
   \<Rightarrow> 'e ssl_world \<times> ptr set \<Rightarrow> ('e ssl_world \<times> ptr set) c_call \<Rightarrow> bool"
  for os al wp cl where
  client: "client_call wp cl (al_box al) (sw_mem w, owned) r \<Longrightarrow>
     context_call os al wp cl (w, owned) (map_c_call (\<lambda>(mem', owned'). (w\<lparr>sw_mem := mem'\<rparr>, owned')) r)"
| set: "config \<in> insert NULL owned \<Longrightarrow>
     context_call os al wp cl (w, owned)
       (map_c_call (\<lambda>w'. (w', if ctx = NULL then owned else owned - {config})) (upki_openssl_set_config os w ctx config))"
| free: "context_call os al wp cl (w, owned) (map_c_call (\<lambda>w'. (w', owned)) (ssl_ctx_free os w ctx))"
| verify: "context_call os al wp cl (w, owned)
     (map_c_call (\<lambda>(ok, w'). (w', owned)) (upki_openssl_verify_callback os al env wp cl s w preverify_ok x509_ctx))"

definition context_step ::
  "('ctx, 'stack, 'x509, 'ssl, 'e) openssl \<Rightarrow> allocator \<Rightarrow> ('ee, 'ta) webpki \<Rightarrow> 'c crlite
   \<Rightarrow> 'e ssl_world \<times> ptr set \<Rightarrow> 'e ssl_world \<times> ptr set \<Rightarrow> bool" where
  "context_step os al wp cl a b \<longleftrightarrow> context_call os al wp cl a (Defined b)"

text \<open>
  The documented behaviour of \<open>i2d_X509\<close>: a buffer it gives is as long as it says.
\<close>

definition encodings_ok :: "('ctx, 'stack, 'x509, 'ssl, 'e) openssl \<Rightarrow> bool" where
  "encodings_ok os \<longleftrightarrow> (\<forall>x len buf. os_i2d os x = (len, Some buf) \<longrightarrow> sint len \<le> int (length buf))"

lemma copy_certs_defined:
  assumes "encodings_ok os"
  shows "copy_certs os stack \<noteq> Undefined"
proof -
  have x: "x509_to_certificate_der os x \<noteq> Undefined" for x
    using assms
    by (auto simp: encodings_ok_def x509_to_certificate_der_def zless_nat_eq_int_zless not_le split: prod.split option.split)
       (meson leD)
  have "copy_certs_from os stack is \<noteq> Undefined" for "is"
    by (induction "is") (auto simp: x split: option.split c_call.split)
  then show ?thesis by (simp add: copy_certs_def Let_def)
qed

definition context_handles :: "('ctx, 'stack, 'x509, 'ssl, 'e) openssl \<Rightarrow> 'e ssl_world \<Rightarrow> ptr set" where
  "context_handles os w = range (get_ex_data os w) - {NULL}"

definition ownership :: "('ctx, 'stack, 'x509, 'ssl, 'e) openssl \<Rightarrow> 'e ssl_world \<Rightarrow> ptr set \<Rightarrow> bool" where
  "ownership os w owned \<longleftrightarrow> handles.owns (sw_mem w) (owned \<union> context_handles os w) \<and> owned \<inter> context_handles os w = {}
     \<and> (\<forall>c d. get_ex_data os w c = get_ex_data os w d \<and> get_ex_data os w c \<noteq> NULL \<longrightarrow> c = d)"

lemma ownership_contexts_ok: "ownership os w owned \<Longrightarrow> contexts_ok os w"
  unfolding ownership_def contexts_ok_def context_handles_def
  by (auto dest!: handles.owns_live [of "sw_mem w" _ "get_ex_data os w _"])

lemma get_ex_data_upd:
  assumes "ex_data_ok os"
  shows "get_ex_data os (w\<lparr>sw_mem := mem, sw_ex_data := os_set_ex_data os (sw_ex_data w) ctx p\<rparr>) = (get_ex_data os w)(ctx := p)"
    "get_ex_data os (w\<lparr>sw_mem := mem, sw_ex_data := os_ctx_free os (sw_ex_data w) ctx\<rparr>) = (get_ex_data os w)(ctx := NULL)"
  using assms by (auto simp: get_ex_data_def ex_data_ok_def fun_eq_iff)

lemma get_ex_data_same [simp]:
  "get_ex_data os (w\<lparr>sw_mem := mem\<rparr>) = get_ex_data os w" "get_ex_data os (w\<lparr>sw_error := e\<rparr>) = get_ex_data os w"
  by (auto simp: get_ex_data_def fun_eq_iff)

text \<open>Replacing the value of a context by a handle the application gives away, or by null.\<close>

lemma ownership_replace:
  assumes "ownership os w owned" and "config \<in> insert NULL owned"
    and "upki_config_free (sw_mem w) (get_ex_data os w ctx) = Defined (sw_mem w')"
    and "get_ex_data os w' = (get_ex_data os w)(ctx := config)"
  shows "ownership os w' (owned - {config})"
proof -
  let ?old = "get_ex_data os w ctx"
  have inj: "get_ex_data os w c = ?old \<Longrightarrow> ?old \<noteq> NULL \<Longrightarrow> c = ctx" for c
    using assms(1) by (auto simp: ownership_def)
  have disj: "owned \<inter> context_handles os w = {}" and own: "handles.owns (sw_mem w) (owned \<union> context_handles os w)"
    using assms(1) by (auto simp: ownership_def)
  have null: "NULL \<notin> owned" using own by (simp add: handles.owns_def)
  have H: "context_handles os w' = context_handles os w - {?old} \<union> ({config} - {NULL})"
  proof (rule set_eqI)
    fix h
    have "h \<in> context_handles os w' \<longleftrightarrow> h \<noteq> NULL \<and> (h = config \<or> (\<exists>c. c \<noteq> ctx \<and> h = get_ex_data os w c))"
      unfolding context_handles_def assms(4) by (auto simp: image_iff)
    also have "\<dots> \<longleftrightarrow> h \<noteq> NULL \<and> (h = config \<or> h \<noteq> ?old \<and> (\<exists>c. h = get_ex_data os w c))"
    proof (cases "h = ?old")
      case True
      then show ?thesis using inj by auto
    qed auto
    also have "\<dots> \<longleftrightarrow> h \<in> context_handles os w - {?old} \<union> ({config} - {NULL})"
      unfolding context_handles_def by auto
    finally show "h \<in> context_handles os w' \<longleftrightarrow> h \<in> context_handles os w - {?old} \<union> ({config} - {NULL})" .
  qed
  have old: "?old \<notin> owned" using disj null by (auto simp: context_handles_def)
  have "owned \<union> context_handles os w - {?old} = owned - {config} \<union> context_handles os w'"
    unfolding H using old assms(2) null by auto
  then have "handles.owns (sw_mem w') (owned - {config} \<union> context_handles os w')"
    using handles.owns_release [OF own assms(3)] by simp
  moreover have "(owned - {config}) \<inter> context_handles os w' = {}" unfolding H using disj by auto
  moreover have "c = d" if eq: "get_ex_data os w' c = get_ex_data os w' d" "get_ex_data os w' c \<noteq> NULL" for c d
  proof -
    have given: "get_ex_data os w e \<noteq> config" if "config \<noteq> NULL" for e
      using disj assms(2) that by (auto simp: context_handles_def)
    have "get_ex_data os w a = get_ex_data os w b \<Longrightarrow> get_ex_data os w a \<noteq> NULL \<Longrightarrow> a = b" for a b
      using assms(1) by (simp add: ownership_def)
    with eq given given [symmetric] show ?thesis unfolding assms(4)
      by (cases "c = ctx"; cases "d = ctx") auto
  qed
  ultimately show ?thesis by (simp add: ownership_def)
qed

lemma ownership_free:
  assumes "ownership os w owned"
  shows "\<exists>mem. upki_config_free (sw_mem w) (get_ex_data os w ctx) = Defined mem"
proof -
  have "get_ex_data os w ctx \<in> insert NULL (owned \<union> context_handles os w)" by (auto simp: context_handles_def)
  moreover have "handles.owns (sw_mem w) (owned \<union> context_handles os w)" using assms by (simp add: ownership_def)
  ultimately show ?thesis using handles.owned_releasable by blast
qed

text \<open>Under the invariant no operation on contexts is undefined, and none of the calls is.\<close>

lemma ownership_defined:
  assumes "ownership os w owned" and "allocator_ok (al_box al)" and "vectors_ok al" and "encodings_ok os"
  shows "ssl_ctx_free os w ctx \<noteq> Undefined" "upki_openssl_set_config os w ctx config \<noteq> Undefined"
    "upki_openssl_verify_callback os al env wp cl s w preverify_ok x509_ctx \<noteq> Undefined"
proof -
  obtain mem where "upki_config_free (sw_mem w) (get_ex_data os w ctx) = Defined mem"
    using ownership_free [OF assms(1)] by blast
  then show "ssl_ctx_free os w ctx \<noteq> Undefined" "upki_openssl_set_config os w ctx config \<noteq> Undefined"
    by (simp_all add: ssl_ctx_free_def ssl_ctx_upki_config_free_def upki_openssl_set_config_def split: option.split)
  show "upki_openssl_verify_callback os al env wp cl s w preverify_ok x509_ctx \<noteq> Undefined"
    using callback_refines [OF assms(2,3) ownership_contexts_ok [OF assms(1)], of x509_ctx env wp cl s preverify_ok]
      copy_certs_defined [OF assms(4)] by auto
qed

lemma context_call_defined:
  assumes "context_call os al wp cl (w, owned) r" and "ownership os w owned"
    and "allocator_ok (al_box al)" and "vectors_ok al" and "encodings_ok os"
  shows "r \<noteq> Undefined"
  using assms(1)
proof cases
  case (client r')
  moreover have "handles.owns (sw_mem w) (owned \<union> context_handles os w)" using assms(2) by (simp add: ownership_def)
  ultimately have "r' \<noteq> Undefined" using client_call_defined by blast
  then show ?thesis using client(1) by (cases r') auto
next
  case (set config ctx)
  then show ?thesis using ownership_defined(2) [OF assms(2-5), of ctx config]
    by (cases "upki_openssl_set_config os w ctx config") auto
next
  case (free ctx)
  then show ?thesis using ownership_defined(1) [OF assms(2-5), of ctx] by (cases "ssl_ctx_free os w ctx") auto
next
  case (verify env s preverify_ok x509_ctx)
  then show ?thesis using ownership_defined(3) [OF assms(2-5), of env wp cl s preverify_ok x509_ctx]
    by (cases "upki_openssl_verify_callback os al env wp cl s w preverify_ok x509_ctx") auto
qed

lemma context_step_ownership:
  assumes "context_step os al wp cl (w, owned) (w', owned')" and "ownership os w owned"
    and "allocator_ok (al_box al)" and "vectors_ok al"
    and "UPKI_SSL_CTX_CONFIG_INDEX os \<noteq> None" and "ex_data_ok os"
  shows "ownership os w' owned'"
  using assms(1) unfolding context_step_def
proof cases
  case (client r)
  then obtain mem' where w': "w' = w\<lparr>sw_mem := mem'\<rparr>"
    and "client_step wp cl (al_box al) (sw_mem w, owned) (mem', owned')"
    by (cases r) (auto simp: client_step_def)
  moreover have "handles.owns (sw_mem w) (owned \<union> context_handles os w)" "owned \<inter> context_handles os w = {}"
    using assms(2) by (simp_all add: ownership_def)
  ultimately show ?thesis using client_step_owns [of wp cl "al_box al" "sw_mem w" owned mem' owned'] assms(2,3)
    by (simp add: ownership_def context_handles_def)
next
  case (set config ctx)
  then have run: "upki_openssl_set_config os w ctx config = Defined w'"
    and owned': "owned' = (if ctx = NULL then owned else owned - {config})"
    by (cases "upki_openssl_set_config os w ctx config", auto)+
  show ?thesis
  proof (cases "ctx = NULL")
    case True
    then show ?thesis using run owned' assms(2) by (simp add: upki_openssl_set_config_def)
  next
    case False
    with run assms(5,6) obtain mem where "upki_config_free (sw_mem w) (get_ex_data os w ctx) = Defined mem"
      "w' = w\<lparr>sw_mem := mem, sw_ex_data := os_set_ex_data os (sw_ex_data w) ctx config\<rparr>"
      by (auto simp: upki_openssl_set_config_def split: c_call.splits)
    with ownership_replace [OF assms(2) set(2), of ctx w'] False owned' show ?thesis
      by (simp add: get_ex_data_upd [OF assms(6)])
  qed
next
  case (free ctx)
  then have run: "ssl_ctx_free os w ctx = Defined w'" and owned': "owned' = owned"
    by (cases "ssl_ctx_free os w ctx", auto)+
  from run obtain mem where "upki_config_free (sw_mem w) (get_ex_data os w ctx) = Defined mem"
    "w' = w\<lparr>sw_mem := mem, sw_ex_data := os_ctx_free os (sw_ex_data w) ctx\<rparr>"
    by (auto simp: ssl_ctx_free_def ssl_ctx_upki_config_free_def split: c_call.splits)
  with ownership_replace [OF assms(2), of NULL ctx w'] have "ownership os w' (owned - {NULL})"
    by (simp add: get_ex_data_upd [OF assms(6)])
  moreover have "NULL \<notin> owned" using assms(2) by (simp add: ownership_def handles.owns_def)
  ultimately show ?thesis using owned' by simp
next
  case (verify env s preverify_ok x509_ctx)
  then obtain ok where "upki_openssl_verify_callback os al env wp cl s w preverify_ok x509_ctx = Defined (ok, w')"
    and owned': "owned' = owned"
    by (cases "upki_openssl_verify_callback os al env wp cl s w preverify_ok x509_ctx") auto
  from callback_Defined [OF assms(3,4) ownership_contexts_ok [OF assms(2)] this(1)] obtain e
    where "w' = w\<lparr>sw_error := e\<rparr>" by auto
  with owned' assms(2) show ?thesis by (simp add: ownership_def context_handles_def)
qed

lemma context_run_ownership:
  "(context_step os al wp cl)\<^sup>*\<^sup>* (w, owned) (w', owned') \<Longrightarrow> ownership os w owned \<Longrightarrow> allocator_ok (al_box al) \<Longrightarrow>
   vectors_ok al \<Longrightarrow> UPKI_SSL_CTX_CONFIG_INDEX os \<noteq> None \<Longrightarrow> ex_data_ok os \<Longrightarrow> ownership os w' owned'"
  by (induction rule: rtranclp_induct2) (auto dest: context_step_ownership)

section \<open>A sample application\<close>

definition sample_openssl :: "(unit, unit, c_int, unit, (ptr \<times> ptr) list) openssl" where
  "sample_openssl =
     \<lparr>os_error_depth = (\<lambda>_. 0), os_chain = (\<lambda>_. Some ()), os_sk_num = (\<lambda>_. 2), os_sk_value = (\<lambda>_ i. Some i),
      os_i2d = (\<lambda>i. (1, Some [ucast i + 1])), os_ssl = (\<lambda>_. Some ()), os_ssl_ctx = (\<lambda>_. 64), os_new_index = 0,
      os_get_ex_data = (\<lambda>e c. case map_of e c of Some p \<Rightarrow> p | None \<Rightarrow> 0),
      os_set_ex_data = (\<lambda>e c p. AList.update c p e), os_ctx_free = (\<lambda>e c. AList.delete c e), os_cert_revoked = 23, os_application_verification = 50\<rparr>"

definition sample_heap :: allocator where
  "sample_heap = \<lparr>al_box = sample_alloc, al_slot = (\<lambda>_. 16),
     al_bytes = (\<lambda>mem _. Suc (sum_list (map fst (cm_bytes mem)))), al_ders = (\<lambda>_ _. 8)\<rparr>"

lemma sample_heap_ok: "allocator_ok (al_box sample_heap)" "vectors_ok sample_heap"
proof -
  have "(Suc (sum_list (map fst bs) + i), b) \<notin> set bs" for i b and bs :: "(ptr \<times> u8) list"
  proof
    assume "(Suc (sum_list (map fst bs) + i), b) \<in> set bs"
    then have "Suc (sum_list (map fst bs) + i) \<in> set (map fst bs)" by force
    from member_le_sum_list [OF this] show False by simp
  qed
  then show "vectors_ok sample_heap"
    by (fastforce simp: vectors_ok_def sample_heap_def map_of_eq_None_iff)
qed (simp add: sample_heap_def sample_allocator)

lemma sample_index [simp]: "UPKI_SSL_CTX_CONFIG_INDEX sample_openssl = Some 0"
  by (simp add: UPKI_SSL_CTX_CONFIG_INDEX_def sample_openssl_def)

lemma sample_ex_data: "ex_data_ok sample_openssl"
  by (simp add: ex_data_ok_def sample_openssl_def update_conv delete_conv)

lemma sample_certs: "copy_certs sample_openssl () = Defined (Some [[1], [2]])"
  by code_simp

definition sample_world :: "(ptr \<times> ptr) list ssl_world" where
  "sample_world = \<lparr>sw_mem = sample_memory, sw_ex_data = [], sw_error = None\<rparr>"

definition sample_world_set :: "(ptr \<times> ptr) list ssl_world" where
  "sample_world_set = \<lparr>sw_mem = sample_created, sw_ex_data = [(64, 1)], sw_error = None\<rparr>"

lemma sample_set:
  "upki_openssl_set_config sample_openssl (sample_world\<lparr>sw_mem := sample_created\<rparr>) 64 1 = Defined sample_world_set"
  by (simp add: upki_openssl_set_config_def sample_world_def sample_world_set_def get_ex_data_def
      upki_config_free_def sample_openssl_def UPKI_SSL_CTX_CONFIG_INDEX_def)

lemma sample_ownership: "ownership sample_openssl sample_world {}"
  by (simp add: ownership_def context_handles_def get_ex_data_def sample_openssl_def sample_world_def sample_memory_def handles.owns_def
      image_def)

lemma sample_context_run: "(context_step sample_openssl sample_heap wp cl)\<^sup>*\<^sup>* (sample_world, {}) (sample_world_set, {})"
proof (rule converse_rtranclp_into_rtranclp)
  have "client_call wp cl (al_box sample_heap) (sw_mem sample_world, {}) (Defined (sample_created, {1}))"
    using sample_client_step by (simp add: client_step_def sample_world_def sample_heap_def)
  from context_call.client [OF this, of sample_openssl]
  show "context_step sample_openssl sample_heap wp cl (sample_world, {}) (sample_world\<lparr>sw_mem := sample_created\<rparr>, {1})"
    by (simp add: context_step_def)
  have "context_call sample_openssl sample_heap wp cl (sample_world\<lparr>sw_mem := sample_created\<rparr>, {1})
      (map_c_call (\<lambda>w'. (w', if (64 :: ptr) = NULL then {1} else {1} - {1})) (Defined sample_world_set))"
    unfolding sample_set [symmetric] by (rule context_call.set) simp
  then have "context_step sample_openssl sample_heap wp cl (sample_world\<lparr>sw_mem := sample_created\<rparr>, {1}) (sample_world_set, {})"
    by (simp add: context_step_def)
  then show "(context_step sample_openssl sample_heap wp cl)\<^sup>*\<^sup>*
      (sample_world\<lparr>sw_mem := sample_created\<rparr>, {1}) (sample_world_set, {})" by (rule r_into_rtranclp)
qed

lemma sample_encodings: "encodings_ok sample_openssl"
  by (simp add: encodings_ok_def sample_openssl_def)

lemma sample_contexts_ok: "contexts_ok sample_openssl sample_world_set"
  by (simp add: contexts_ok_def sample_world_set_def get_ex_data_def sample_created_def sample_openssl_def)

section \<open>Properties\<close>

text \<open>
  C8: the verification callback, with all its passing of certificates through memory, is the plain
  decision it documents. It never upgrades a failed verification; it decides on the leaf only; a
  revoked chain gives 0 with the error for a revoked certificate, a chain whose status cannot be
  determined gives 0 with the application error, and otherwise the earlier verdict stands. It uses
  the configuration of the context, or a default one it creates for the call; afterwards memory is as
  it was, so nothing leaks and the configuration of the context stays alive. Assumed are fresh
  addresses from the allocator, live configurations in the contexts, and encodings as long as
  OpenSSL says.
\<close>

theorem verify_callback_decides:
  assumes "allocator_ok (al_box al)" and "vectors_ok al" and "contexts_ok os w"
    and "\<And>x chain. x509_ctx = Some x \<Longrightarrow> os_chain os x = Some chain \<Longrightarrow> copy_certs os chain \<noteq> Undefined"
  shows "\<exists>ok e. callback_spec os env wp cl s w preverify_ok x509_ctx = (ok, e)
    \<and> upki_openssl_verify_callback os al env wp cl s w preverify_ok x509_ctx
      = Defined (ok, case e of None \<Rightarrow> w | Some e \<Rightarrow> set_error e w)"
  using assms by (rule callback_refines)

theorem verify_callback_decides_witness:
  "\<exists>ok e. callback_spec sample_openssl sample_env sample_webpki sample_crlite sample_fs sample_world_set 1 (Some ()) = (ok, e)
    \<and> upki_openssl_verify_callback sample_openssl sample_heap sample_env sample_webpki sample_crlite sample_fs
        sample_world_set 1 (Some ())
      = Defined (ok, case e of None \<Rightarrow> sample_world_set | Some e \<Rightarrow> set_error e sample_world_set)"
  by (rule verify_callback_decides [OF sample_heap_ok sample_contexts_ok])
     (simp add: sample_certs)

text \<open>
  C10: ownership is kept. Starting without configurations and contexts, after any sequence of creating,
  using and releasing handles, giving contexts handles that the application owns (or null), freeing
  contexts and verifying, each context holds no handle or a live one, two contexts never hold the same,
  and the application owns none of those; the live handles are exactly the ones that the application
  or a context owns, so nothing is leaked. In such a state no call of these kinds is undefined: in
  particular freeing a context, giving it another configuration, and the verification callback on any
  certificate and environment. Assumed are the allocator's laws, that OpenSSL could register the
  extra data and keeps it, and that encodings are as long as OpenSSL says.
\<close>

theorem contexts_own_configs:
  assumes "allocator_ok (al_box al)" and "vectors_ok al" and "UPKI_SSL_CTX_CONFIG_INDEX os \<noteq> None" and "ex_data_ok os"
    and "encodings_ok os"
    and "cm_configs (sw_mem w0) = []" and "\<forall>c. get_ex_data os w0 c = NULL"
    and "(context_step os al wp cl)\<^sup>*\<^sup>* (w0, {}) (w, owned)"
  shows "contexts_ok os w
    \<and> (\<forall>c d. get_ex_data os w c = get_ex_data os w d \<and> get_ex_data os w c \<noteq> NULL \<longrightarrow> c = d)
    \<and> (\<forall>h. live_config (sw_mem w) h \<noteq> None \<longleftrightarrow> h \<in> owned \<union> context_handles os w) \<and> owned \<inter> context_handles os w = {}
    \<and> \<not> context_call os al wp cl (w, owned) Undefined
    \<and> (\<forall>ctx. ssl_ctx_free os w ctx \<noteq> Undefined
         \<and> (\<forall>config. upki_openssl_set_config os w ctx config \<noteq> Undefined))
    \<and> (\<forall>env s preverify_ok x509_ctx.
         upki_openssl_verify_callback os al env wp cl s w preverify_ok x509_ctx \<noteq> Undefined)"
proof -
  have "ownership os w0 {}" using assms(6,7)
    by (simp add: ownership_def context_handles_def handles.owns_def image_def)
  then have own: "ownership os w owned" using context_run_ownership assms(1-4,8) by blast
  then have H: "handles.owns (sw_mem w) (owned \<union> context_handles os w)" "owned \<inter> context_handles os w = {}"
    "\<forall>c d. get_ex_data os w c = get_ex_data os w d \<and> get_ex_data os w c \<noteq> NULL \<longrightarrow> c = d"
    by (simp_all add: ownership_def)
  have live: "\<forall>h. live_config (sw_mem w) h \<noteq> None \<longleftrightarrow> h \<in> owned \<union> context_handles os w"
    using H(1) by (simp add: handles.owns_def)
  have call: "\<not> context_call os al wp cl (w, owned) Undefined"
    using context_call_defined own assms(1,2,5) by blast
  show ?thesis
    by (intro conjI allI ownership_contexts_ok [OF own] H(2,3) [rule_format] live [rule_format] call
        ownership_defined [OF own assms(1,2,5)])
       (use H(3) in blast)
qed

theorem contexts_own_configs_witness:
  "contexts_ok sample_openssl sample_world_set \<and> ssl_ctx_free sample_openssl sample_world_set 64 \<noteq> Undefined
   \<and> upki_openssl_verify_callback sample_openssl sample_heap sample_env sample_webpki sample_crlite sample_fs
       sample_world_set 1 (Some ()) \<noteq> Undefined"
proof -
  have "cm_configs (sw_mem sample_world) = []" "\<forall>c. get_ex_data sample_openssl sample_world c = NULL"
    "UPKI_SSL_CTX_CONFIG_INDEX sample_openssl \<noteq> None" "ex_data_ok sample_openssl"
    using sample_ex_data
    by (simp_all add: sample_world_def sample_memory_def sample_openssl_def UPKI_SSL_CTX_CONFIG_INDEX_def get_ex_data_def)
  from contexts_own_configs [OF sample_heap_ok this(3,4) sample_encodings this(1,2) sample_context_run [of sample_webpki sample_crlite]]
  show ?thesis by simp
qed

text \<open>
  C36: giving a context the handle it already holds frees the configuration and stores the dangling
  pointer: the next verification of a chain with this context is undefined behaviour.
\<close>

theorem same_config_dangles:
  assumes "vectors_ok al" and "ctx \<noteq> NULL" and "UPKI_SSL_CTX_CONFIG_INDEX os \<noteq> None" and "ex_data_ok os"
    and "get_ex_data os w ctx = h" and "h \<noteq> NULL" and "live_config (sw_mem w) h = Some cfg"
    and "ssl_ctx_of os x = ctx" and "preverify_ok \<noteq> 0" and "os_error_depth os x = 0"
    and "os_chain os x = Some chain" and "copy_certs os chain = Defined (Some certs)" and "certs \<noteq> []"
  shows "\<exists>w'. upki_openssl_set_config os w ctx h = Defined w' \<and> get_ex_data os w' ctx = h
    \<and> live_config (sw_mem w') h = None
    \<and> upki_openssl_verify_callback os al env wp cl s w' preverify_ok (Some x) = Undefined"
proof -
  obtain mem where free: "upki_config_free (sw_mem w) h = Defined mem" "live_config mem h = None"
    using assms(6,7) handles.release_live [OF assms(6,7)] by auto
  define w' where "w' = w\<lparr>sw_mem := mem, sw_ex_data := os_set_ex_data os (sw_ex_data w) ctx h\<rparr>"
  have set: "upki_openssl_set_config os w ctx h = Defined w'" and ex: "get_ex_data os w' ctx = h"
    using assms(2-5) free(1)
    by (auto simp: upki_openssl_set_config_def w'_def get_ex_data_upd [OF assms(4)] split: option.splits)
  obtain mem1 p where cd: "cert_descriptors al certs (sw_mem w') = (mem1, p)"
    by (cases "cert_descriptors al certs (sw_mem w')")
  from cert_descriptors_read [OF assms(1) cd] copy_certs_bounds [OF assms(12)] free(2)
  have "p \<noteq> NULL" "live_config mem1 h = None" by (simp_all add: w'_def)
  moreover have "config_for os al env s w' mem1 x = Defined (Inr (FromContext h), mem1)"
    using assms(2,3,6,8) ex by (auto simp: config_for_def upki_config_from_ssl_ctx_def)
  ultimately have "upki_openssl_verify_callback os al env wp cl s w' preverify_ok (Some x) = Undefined"
    using assms(6,9-13) cd by (simp add: upki_openssl_verify_callback_def upki_check_revocation_def)
  with set ex free(2) show ?thesis by (auto simp: w'_def)
qed

theorem same_config_dangles_witness:
  "\<exists>w'. upki_openssl_set_config sample_openssl sample_world_set 64 1 = Defined w' \<and> get_ex_data sample_openssl w' 64 = 1
    \<and> live_config (sw_mem w') 1 = None
    \<and> upki_openssl_verify_callback sample_openssl sample_heap sample_env sample_webpki sample_crlite sample_fs w' 1 (Some ())
      = Undefined"
  by (rule same_config_dangles [OF sample_heap_ok(2), where certs = "[[1], [2]]" and chain = "()"
        and cfg = "\<lparr>cfg_cache_dir = ''/home/u/cache'', cfg_revocation = revocation_config_default\<rparr>"])
     (simp_all add: sample_certs sample_ex_data, simp_all add: sample_openssl_def sample_world_set_def get_ex_data_def sample_created_def
        ssl_ctx_of_def)

end
