(* ===== verification/Rustls.thy ===== *)
theory Rustls
  imports Ffi
begin

text \<open>
  The certificate verifier of \<open>rustls-upki/src/lib.rs\<close>: the policy, the construction of a verifier,
  the revocation status of a verified path, the verification of a server certificate, and the
  translation of errors.

  \<open>webpki\<close> and \<open>rustls\<close> are other crates. Their operations are the fields of \<open>path_verifier\<close> and of
  \<open>provider\<close>; of their error types the constructors that the source names are kept, with one more
  (\<open>OtherWebpki\<close>, \<open>OtherSct\<close>) for the rest. \<open>dbg\<close> is the \<open>{:?}\<close> form of a path.
\<close>

section \<open>Errors\<close>

type_synonym unix_time = u64

datatype webpki_err =
  BadDer
| BadDerTime
| TrailingData string
| CertNotValidYet unix_time unix_time
| CertExpired unix_time unix_time
| InvalidCertValidity
| UnknownIssuer
| CertNotValidForName string "string list"
| CertRevoked
| UnknownRevocationStatus
| CrlExpired unix_time unix_time
| IssuerNotCrlSigner
| InvalidSignatureForPublicKey
| UnsupportedSignatureAlgorithm bytes "bytes list"
| UnsupportedSignatureAlgorithmForPublicKey bytes bytes
| InvalidCrlSignatureForPublicKey
| UnsupportedCrlSignatureAlgorithm bytes "bytes list"
| UnsupportedCrlSignatureAlgorithmForPublicKey bytes bytes
| RequiredEkuNotFound "nat list" "nat list list"
| OtherWebpki string

datatype sct_err = MalformedSct | UnsupportedSctVersion | OtherSct string

datatype extended_key_purpose = ClientAuth | ServerAuth | OtherPurpose "nat list"

datatype certificate_error =
  BadEncoding
| NotValidYetContext unix_time unix_time
| ExpiredContext unix_time unix_time
| Expired
| IssuerUnknown
| NotValidForNameContext string "string list"
| RevokedError
| RevocationStatusUnknown
| ExpiredRevocationListContext unix_time unix_time
| BadSignature
| UnsupportedSignatureAlgorithmContext bytes "bytes list"
| UnsupportedSignatureAlgorithmForPublicKeyContext bytes bytes
| InvalidPurposeContext extended_key_purpose "extended_key_purpose list"
| OtherCertificateError webpki_err

datatype crl_error =
  IssuerInvalidForCrl
| CrlBadSignature
| CrlUnsupportedSignatureAlgorithmContext bytes "bytes list"
| CrlUnsupportedSignatureAlgorithmForPublicKeyContext bytes bytes

datatype rustls_error =
  General string
| InvalidCertificate certificate_error
| InvalidCertRevocationList crl_error

fun sct_error :: "sct_err \<Rightarrow> rustls_error" where
  "sct_error MalformedSct = General ''malformed sct''"
| "sct_error UnsupportedSctVersion = General ''unsupported sct version''"
| "sct_error _ = General ''unknown sct error''"

text \<open>The representations of the two purposes are constants of \<open>webpki\<close>.\<close>

record eku_reprs =
  CLIENT_AUTH_REPR :: "nat list"
  SERVER_AUTH_REPR :: "nat list"

definition ekp_for_values :: "eku_reprs \<Rightarrow> nat list \<Rightarrow> extended_key_purpose" where
  "ekp_for_values eku values =
     (if values = CLIENT_AUTH_REPR eku then ClientAuth
      else if values = SERVER_AUTH_REPR eku then ServerAuth
      else OtherPurpose values)"

fun webpki_error :: "eku_reprs \<Rightarrow> webpki_err \<Rightarrow> rustls_error" where
  "webpki_error eku BadDer = InvalidCertificate BadEncoding"
| "webpki_error eku BadDerTime = InvalidCertificate BadEncoding"
| "webpki_error eku (TrailingData _) = InvalidCertificate BadEncoding"
| "webpki_error eku (CertNotValidYet time not_before) = InvalidCertificate (NotValidYetContext time not_before)"
| "webpki_error eku (CertExpired time not_after) = InvalidCertificate (ExpiredContext time not_after)"
| "webpki_error eku InvalidCertValidity = InvalidCertificate Expired"
| "webpki_error eku UnknownIssuer = InvalidCertificate IssuerUnknown"
| "webpki_error eku (CertNotValidForName expected presented) =
     InvalidCertificate (NotValidForNameContext expected presented)"
| "webpki_error eku CertRevoked = InvalidCertificate RevokedError"
| "webpki_error eku UnknownRevocationStatus = InvalidCertificate RevocationStatusUnknown"
| "webpki_error eku (CrlExpired time next_update) =
     InvalidCertificate (ExpiredRevocationListContext time next_update)"
| "webpki_error eku IssuerNotCrlSigner = InvalidCertRevocationList IssuerInvalidForCrl"
| "webpki_error eku InvalidSignatureForPublicKey = InvalidCertificate BadSignature"
| "webpki_error eku (UnsupportedSignatureAlgorithm i supported) =
     InvalidCertificate (UnsupportedSignatureAlgorithmContext i supported)"
| "webpki_error eku (UnsupportedSignatureAlgorithmForPublicKey i k) =
     InvalidCertificate (UnsupportedSignatureAlgorithmForPublicKeyContext i k)"
| "webpki_error eku InvalidCrlSignatureForPublicKey = InvalidCertRevocationList CrlBadSignature"
| "webpki_error eku (UnsupportedCrlSignatureAlgorithm i supported) =
     InvalidCertRevocationList (CrlUnsupportedSignatureAlgorithmContext i supported)"
| "webpki_error eku (UnsupportedCrlSignatureAlgorithmForPublicKey i k) =
     InvalidCertRevocationList (CrlUnsupportedSignatureAlgorithmForPublicKeyContext i k)"
| "webpki_error eku (RequiredEkuNotFound required present) =
     InvalidCertificate (InvalidPurposeContext (ekp_for_values eku required) (map (ekp_for_values eku) present))"
| "webpki_error eku error = InvalidCertificate (OtherCertificateError error)"

section \<open>Policy\<close>

datatype policy_outcome = Allowed | TreatAsRevoked | PolicyError rustls_error

record policy =
  missing_data :: policy_outcome
  cert_not_covered :: policy_outcome
  cert_has_no_scts :: policy_outcome

definition policy_default :: policy where
  "policy_default =
     \<lparr>missing_data = PolicyError (General ''upki data is missing''), cert_not_covered = Allowed,
      cert_has_no_scts = Allowed\<rparr>"

fun as_result :: "policy_outcome \<Rightarrow> (rustls_error, revocation_status) outcome" where
  "as_result Allowed = Ok NotCoveredByRevocationData"
| "as_result TreatAsRevoked = Err (InvalidCertificate RevokedError)"
| "as_result (PolicyError err) = Err err"

section \<open>The verifier\<close>

datatype hash_algorithm = SHA256 | OtherHash nat

record 'a provider =
  pr_cipher_suites :: "(hash_algorithm \<times> (bytes \<Rightarrow> bytes)) list"
  pr_algorithms :: 'a

record ('a, 'roots) server_verifier =
  sv_provider :: "'a provider"
  sv_sha256 :: "bytes \<Rightarrow> bytes"
  sv_roots :: 'roots
  sv_config :: config
  sv_policy :: policy

record ('a, 'roots, 'ee, 'path) path_verifier =
  pv_end_entity :: "bytes \<Rightarrow> webpki_err + 'ee"
  pv_verify_for_usage :: "'ee \<Rightarrow> 'a \<Rightarrow> 'roots \<Rightarrow> bytes list \<Rightarrow> unix_time \<Rightarrow> webpki_err + 'path"
  pv_subject_name :: "'ee \<Rightarrow> string \<Rightarrow> webpki_err + unit"
  pv_path_end_entity :: "'path \<Rightarrow> 'ee"
  pv_issuer_spki :: "'path \<Rightarrow> bytes"
  pv_scts :: "'ee \<Rightarrow> sct_err + (sct_err + ct_timestamp) list"
  pv_serial :: "'ee \<Rightarrow> bytes"

definition server_verifier_new ::
  "environment \<Rightarrow> fs \<Rightarrow> policy \<Rightarrow> path option \<Rightarrow> 'roots \<Rightarrow> 'a provider
   \<Rightarrow> (rustls_error, ('a, 'roots) server_verifier) outcome" where
  "server_verifier_new env s policy config_path roots provider =
     obind (unwrap (find (\<lambda>(alg, _). alg = SHA256) (pr_cipher_suites provider))) (\<lambda>(_, sha256).
     obind (map_err (\<lambda>report. General (upki_error_display report))
              (obind (config_path_new env s config_path) (config_from_file_or_user_default env s))) (\<lambda>config.
     obind (case from_cache config s of
              Ok _ \<Rightarrow> Ok ()
            | Err _ \<Rightarrow> map_ok (\<lambda>_. ()) (as_result (missing_data policy))
            | Panic \<Rightarrow> Panic) (\<lambda>_.
       Ok \<lparr>sv_provider = provider, sv_sha256 = sha256, sv_roots = roots, sv_config = config, sv_policy = policy\<rparr>)))"

fun gather_scts :: "(sct_err + ct_timestamp) list \<Rightarrow> (rustls_error, ct_timestamp list) outcome" where
  "gather_scts [] = Ok []"
| "gather_scts (ts # iter) =
     (case ts of
        Inl e \<Rightarrow> Err (sct_error e)
      | Inr t \<Rightarrow> obind (gather_scts iter) (\<lambda>scts. Ok (t # scts)))"

definition check_revocation_status ::
  "(path \<Rightarrow> string) \<Rightarrow> ('a, 'roots, 'ee, 'path) path_verifier \<Rightarrow> 'c crlite \<Rightarrow> fs \<Rightarrow> ('a, 'roots) server_verifier \<Rightarrow> 'path
   \<Rightarrow> (rustls_error, revocation_status) outcome" where
  "check_revocation_status dbg pv cl s sv verified_path =
     (let issuer_spki_hash = sv_sha256 sv (pv_issuer_spki pv verified_path); ee = pv_path_end_entity pv verified_path in
      obind (assert_that (length issuer_spki_hash = 32)) (\<lambda>_.
      obind (map_err sct_error (lift_sum (pv_scts pv ee))) (\<lambda>sct_iter.
      obind (gather_scts sct_iter) (\<lambda>sct_timestamps.
      if sct_timestamps = [] then as_result (cert_has_no_scts (sv_policy sv))
      else
        obind (input_new (pv_serial pv ee) issuer_spki_hash sct_timestamps) (\<lambda>input.
          map_err (\<lambda>e. General (error_display dbg e))
            (obind (from_cache (sv_config sv) s) (\<lambda>ix. map_ok fst (check cl s ix input))))))))"

definition verify_server_cert ::
  "(path \<Rightarrow> string) \<Rightarrow> eku_reprs \<Rightarrow> ('a, 'roots, 'ee, 'path) path_verifier \<Rightarrow> 'c crlite \<Rightarrow> fs \<Rightarrow> ('a, 'roots) server_verifier
   \<Rightarrow> bytes \<Rightarrow> bytes list \<Rightarrow> string \<Rightarrow> unix_time \<Rightarrow> (rustls_error, unit) outcome" where
  "verify_server_cert dbg eku pv cl s sv end_entity intermediates server_name now =
     obind (map_err (webpki_error eku) (lift_sum (pv_end_entity pv end_entity))) (\<lambda>ee.
     obind (map_err (webpki_error eku) (lift_sum (pv_verify_for_usage pv ee (pr_algorithms (sv_provider sv)) (sv_roots sv)
              intermediates now))) (\<lambda>verified_path.
     obind (map_err (webpki_error eku) (lift_sum (pv_subject_name pv ee server_name))) (\<lambda>_.
     obind (check_revocation_status dbg pv cl s sv verified_path) (\<lambda>status.
       case status of
         NotRevoked \<Rightarrow> Ok ()
       | NotCoveredByRevocationData \<Rightarrow> map_ok (\<lambda>_. ()) (as_result (cert_not_covered (sv_policy sv)))
       | CertainlyRevoked \<Rightarrow> Err (InvalidCertificate RevokedError)))))"

section \<open>Lemmas\<close>

lemma gather_scts_Ok_iff: "gather_scts ts = Ok scts \<longleftrightarrow> ts = map Inr scts"
proof (induction ts arbitrary: scts)
  case (Cons t ts)
  then show ?case by (cases t; cases scts) (auto simp: outcome_simps)
qed auto

lemma as_result_Ok_iff: "as_result p = Ok st \<longleftrightarrow> p = Allowed \<and> st = NotCoveredByRevocationData"
  by (cases p) auto

text \<open>The input a verified path is checked with.\<close>

definition path_input ::
  "('a, 'roots, 'ee, 'path) path_verifier \<Rightarrow> ('a, 'roots) server_verifier \<Rightarrow> 'path \<Rightarrow> ct_timestamp list
   \<Rightarrow> revocation_check_input" where
  "path_input pv sv path scts =
     (let issuer = sv_sha256 sv (pv_issuer_spki pv path); serial = pv_serial pv (pv_path_end_entity pv path)
      in \<lparr>in_cert_serial = serial, in_issuer_spki_hash = issuer, in_sct_timestamps = scts,
          in_issuer_serial_hash = fips_sha256 (issuer @ serial)\<rparr>)"

definition hashes_fit ::
  "('a, 'roots, 'ee, 'path) path_verifier \<Rightarrow> ('a, 'roots) server_verifier \<Rightarrow> 'path \<Rightarrow> bool" where
  "hashes_fit pv sv path \<longleftrightarrow> length (sv_sha256 sv (pv_issuer_spki pv path)) = 32
     \<and> 8 * (32 + length (pv_serial pv (pv_path_end_entity pv path))) \<le> usize_max"

lemma check_revocation_status_eq:
  assumes "hashes_fit pv sv path" and "pv_scts pv (pv_path_end_entity pv path) = Inr (map Inr scts)"
  shows "check_revocation_status dbg pv cl s sv path =
    (if scts = [] then as_result (cert_has_no_scts (sv_policy sv))
     else map_err (\<lambda>e. General (error_display dbg e))
            (obind (from_cache (sv_config sv) s) (\<lambda>ix. map_ok fst (check cl s ix (path_input pv sv path scts)))))"
proof -
  have "gather_scts (map Inr scts) = Ok scts" by (simp add: gather_scts_Ok_iff)
  with assms show ?thesis
    by (simp add: check_revocation_status_def hashes_fit_def assert_that_def input_new_eq path_input_def Let_def)
qed

lemma check_revocation_status_OkD:
  assumes "check_revocation_status dbg pv cl s sv path = Ok st"
  shows "\<exists>scts. pv_scts pv (pv_path_end_entity pv path) = Inr (map Inr scts) \<and> (scts = [] \<or> hashes_fit pv sv path)
    \<and> length (sv_sha256 sv (pv_issuer_spki pv path)) = 32"
  using assms
  by (auto simp: check_revocation_status_def Let_def outcome_simps gather_scts_Ok_iff hashes_fit_def input_new_eq
      split: if_splits)

section \<open>Properties\<close>

text \<open>
  C9: which server certificates are accepted. A certificate passes exactly when \<open>webpki\<close> accepts its
  path and name, its SCTs can be read, and either the filters say that it is not revoked, or they do
  not cover it and the policy allows that, or it has no SCTs and the policy allows both that and
  certificates that are not covered. In particular no policy lets a revoked certificate pass, and a
  policy that allows certificates without SCTs has no effect unless it also allows those not covered.
\<close>

theorem accepted_certificates:
  assumes "\<And>path. hashes_fit pv sv path"
  shows "verify_server_cert dbg eku pv cl s sv end_entity intermediates server_name now = Ok () \<longleftrightarrow>
    (\<exists>ee path scts. pv_end_entity pv end_entity = Inr ee
      \<and> pv_verify_for_usage pv ee (pr_algorithms (sv_provider sv)) (sv_roots sv) intermediates now = Inr path
      \<and> pv_subject_name pv ee server_name = Inr ()
      \<and> pv_scts pv (pv_path_end_entity pv path) = Inr (map Inr scts)
      \<and> (if scts = [] then cert_has_no_scts (sv_policy sv) = Allowed \<and> cert_not_covered (sv_policy sv) = Allowed
         else \<exists>st. obind (from_cache (sv_config sv) s) (\<lambda>ix. map_ok fst (check cl s ix (path_input pv sv path scts))) = Ok st
           \<and> (st = NotRevoked \<or> st = NotCoveredByRevocationData \<and> cert_not_covered (sv_policy sv) = Allowed)))"
proof -
  have accept: "(case st of NotRevoked \<Rightarrow> Ok () | NotCoveredByRevocationData \<Rightarrow> map_ok (\<lambda>_. ()) (as_result (cert_not_covered p))
      | CertainlyRevoked \<Rightarrow> Err (InvalidCertificate RevokedError)) = Ok ()
    \<longleftrightarrow> st = NotRevoked \<or> st = NotCoveredByRevocationData \<and> cert_not_covered p = Allowed" for st p
    by (cases st) (auto simp: outcome_simps as_result_Ok_iff)
  have status: "(\<exists>st. check_revocation_status dbg pv cl s sv path = Ok st \<and>
        (st = NotRevoked \<or> st = NotCoveredByRevocationData \<and> cert_not_covered (sv_policy sv) = Allowed))
    \<longleftrightarrow> (\<exists>scts. pv_scts pv (pv_path_end_entity pv path) = Inr (map Inr scts)
      \<and> (if scts = [] then cert_has_no_scts (sv_policy sv) = Allowed \<and> cert_not_covered (sv_policy sv) = Allowed
         else \<exists>st. obind (from_cache (sv_config sv) s) (\<lambda>ix. map_ok fst (check cl s ix (path_input pv sv path scts))) = Ok st
           \<and> (st = NotRevoked \<or> st = NotCoveredByRevocationData \<and> cert_not_covered (sv_policy sv) = Allowed)))"
    (is "?lhs \<longleftrightarrow> ?rhs") for path
  proof
    assume ?lhs
    then obtain st where st: "check_revocation_status dbg pv cl s sv path = Ok st"
      "st = NotRevoked \<or> st = NotCoveredByRevocationData \<and> cert_not_covered (sv_policy sv) = Allowed" by blast
    from check_revocation_status_OkD [OF st(1)] obtain scts
      where scts: "pv_scts pv (pv_path_end_entity pv path) = Inr (map Inr scts)" by blast
    from st check_revocation_status_eq [OF assms scts, of dbg cl s] show ?rhs
      by (intro exI [of _ scts]) (auto simp: scts as_result_Ok_iff map_err_iff split: if_splits)
  next
    assume ?rhs
    then obtain scts where scts: "pv_scts pv (pv_path_end_entity pv path) = Inr (map Inr scts)"
      and ok: "if scts = [] then cert_has_no_scts (sv_policy sv) = Allowed \<and> cert_not_covered (sv_policy sv) = Allowed
         else \<exists>st. obind (from_cache (sv_config sv) s) (\<lambda>ix. map_ok fst (check cl s ix (path_input pv sv path scts))) = Ok st
           \<and> (st = NotRevoked \<or> st = NotCoveredByRevocationData \<and> cert_not_covered (sv_policy sv) = Allowed)" by blast
    from ok show ?lhs unfolding check_revocation_status_eq [OF assms scts, of dbg cl s]
      by (cases "scts = []") (auto simp: as_result_Ok_iff)
  qed
  show ?thesis
    by (simp add: verify_server_cert_def obind_Ok_iff map_err_iff lift_sum_iff accept status)
qed

definition sample_pv :: "(unit, unit, bytes, bytes) path_verifier" where
  "sample_pv =
     \<lparr>pv_end_entity = (\<lambda>b. if b = [] then Inl BadDer else Inr b), pv_verify_for_usage = (\<lambda>ee _ _ _ _. Inr ee),
      pv_subject_name = (\<lambda>_ _. Inr ()), pv_path_end_entity = (\<lambda>p. p), pv_issuer_spki = (\<lambda>p. take 1 p),
      pv_scts = (\<lambda>_. Inr [Inr \<lparr>ct_log_id = sample_log, ct_time = 15\<rparr>]), pv_serial = (\<lambda>ee. take 1 ee)\<rparr>"

definition sample_provider :: "unit provider" where
  "sample_provider = \<lparr>pr_cipher_suites = [(OtherHash 384, (\<lambda>_. [])), (SHA256, fips_sha256)], pr_algorithms = ()\<rparr>"

definition sample_sv :: "(unit, unit) server_verifier" where
  "sample_sv = \<lparr>sv_provider = sample_provider, sv_sha256 = fips_sha256, sv_roots = (), sv_config = sample_config,
     sv_policy = policy_default\<lparr>missing_data := Allowed\<rparr>\<rparr>"

lemma sample_hashes_fit: "hashes_fit sample_pv sample_sv path"
  by (simp add: hashes_fit_def sample_pv_def sample_sv_def length_fips_sha256 usize_max_def)

theorem accepted_certificates_witness:
  "verify_server_cert (\<lambda>p. p) \<lparr>CLIENT_AUTH_REPR = [], SERVER_AUTH_REPR = [1]\<rparr> sample_pv sample_crlite sample_fs_indexed
      sample_sv [] [] ''example.org'' 0 \<noteq> Ok ()
   \<and> (verify_server_cert (\<lambda>p. p) \<lparr>CLIENT_AUTH_REPR = [], SERVER_AUTH_REPR = [1]\<rparr> sample_pv sample_crlite sample_fs_indexed
      sample_sv [1] [] ''example.org'' 0 = Ok () \<longleftrightarrow>
      (\<exists>st. map_ok fst (check sample_crlite sample_fs_indexed sample_loaded (path_input sample_pv sample_sv [1]
              [\<lparr>ct_log_id = sample_log, ct_time = 15\<rparr>])) = Ok st
        \<and> st \<noteq> CertainlyRevoked))"
proof -
  have scts: "pv_scts sample_pv p = Inr (map Inr [\<lparr>ct_log_id = sample_log, ct_time = 15\<rparr>])" for p
    by (simp add: sample_pv_def)
  have one: "[Inr \<lparr>ct_log_id = sample_log, ct_time = 15\<rparr>] = map Inr scts
      \<longleftrightarrow> scts = [\<lparr>ct_log_id = sample_log, ct_time = 15\<rparr>]" for scts :: "ct_timestamp list"
    by (cases scts) auto
  have st: "st = NotRevoked \<or> st = NotCoveredByRevocationData \<longleftrightarrow> st \<noteq> CertainlyRevoked" for st
    by (cases st) simp_all
  note acc = accepted_certificates [OF sample_hashes_fit, of "\<lambda>p. p" "\<lparr>CLIENT_AUTH_REPR = [], SERVER_AUTH_REPR = [1]\<rparr>"
      sample_crlite sample_fs_indexed _ "[]" "''example.org''" 0]
  have pol: "cert_not_covered (sv_policy sample_sv) = Allowed" "sv_config sample_sv = sample_config"
    by (simp_all add: sample_sv_def policy_default_def)
  show ?thesis
    unfolding acc pol sample_from_cache
    by (simp add: sample_pv_def one st)
qed

text \<open>
  C34: missing data. Constructing a verifier applies the policy for missing data when the index cannot
  be loaded. That policy is not consulted again: if it allows missing data, a verifier is made, but
  every certificate with SCTs that it is then asked to verify is refused with the error of the index.
\<close>

theorem missing_data_policy:
  assumes "obind (config_path_new env s config_path) (config_from_file_or_user_default env s) = Ok config"
    and "find (\<lambda>(alg, _). alg = SHA256) (pr_cipher_suites provider) = Some (SHA256, sha256)"
    and "from_cache config s = Err e"
  shows "server_verifier_new env s policy config_path roots provider =
      map_ok (\<lambda>_. \<lparr>sv_provider = provider, sv_sha256 = sha256, sv_roots = roots, sv_config = config, sv_policy = policy\<rparr>)
        (as_result (missing_data policy))
    \<and> (\<forall>sv ee path scts. server_verifier_new env s policy config_path roots provider = Ok sv \<and> hashes_fit pv sv path
        \<and> pv_end_entity pv end_entity = Inr ee
        \<and> pv_verify_for_usage pv ee (pr_algorithms (sv_provider sv)) (sv_roots sv) intermediates now = Inr path
        \<and> pv_subject_name pv ee server_name = Inr ()
        \<and> pv_scts pv (pv_path_end_entity pv path) = Inr (map Inr scts) \<and> scts \<noteq> []
        \<longrightarrow> missing_data policy = Allowed
          \<and> verify_server_cert dbg eku pv cl s sv end_entity intermediates server_name now
            = Err (General (error_display dbg e)))"
proof (intro conjI allI impI)
  show new: "server_verifier_new env s policy config_path roots provider =
      map_ok (\<lambda>_. \<lparr>sv_provider = provider, sv_sha256 = sha256, sv_roots = roots, sv_config = config, sv_policy = policy\<rparr>)
        (as_result (missing_data policy))"
    using assms by (cases "missing_data policy") (simp_all add: server_verifier_new_def)
  fix sv ee path scts
  assume sv: "server_verifier_new env s policy config_path roots provider = Ok sv \<and> hashes_fit pv sv path
        \<and> pv_end_entity pv end_entity = Inr ee
        \<and> pv_verify_for_usage pv ee (pr_algorithms (sv_provider sv)) (sv_roots sv) intermediates now = Inr path
        \<and> pv_subject_name pv ee server_name = Inr ()
        \<and> pv_scts pv (pv_path_end_entity pv path) = Inr (map Inr scts) \<and> scts \<noteq> []"
  from sv new show "missing_data policy = Allowed" by (cases "missing_data policy") simp_all
  from sv new have "sv_config sv = config" by (cases "missing_data policy") auto
  with sv assms(3) have "check_revocation_status dbg pv cl s sv path = Err (General (error_display dbg e))"
    using check_revocation_status_eq [of pv sv path scts dbg cl s] by simp
  with sv show "verify_server_cert dbg eku pv cl s sv end_entity intermediates server_name now
      = Err (General (error_display dbg e))" by (simp add: verify_server_cert_def)
qed

lemma sample_default_config:
  "obind (config_path_new sample_env sample_fs None) (config_from_file_or_user_default sample_env sample_fs)
   = Ok \<lparr>cfg_cache_dir = ''/home/u/cache'', cfg_revocation = revocation_config_default\<rparr>"
  by code_simp

lemma sample_no_index:
  "from_cache \<lparr>cfg_cache_dir = ''/home/u/cache'', cfg_revocation = revocation_config_default\<rparr> sample_fs
   = Err (FileRead NotFound (Some ''/home/u/cache/revocation/index.bin''))"
  by code_simp

theorem missing_data_policy_witness:
  "server_verifier_new sample_env sample_fs policy_default None () sample_provider
   = Err (General ''upki data is missing'')"
proof -
  have "find (\<lambda>(alg, _). alg = SHA256) (pr_cipher_suites sample_provider) = Some (SHA256, fips_sha256)"
    by (simp add: sample_provider_def)
  from missing_data_policy [OF sample_default_config this sample_no_index, of policy_default "()" sample_pv]
  show ?thesis by (simp add: policy_default_def)
qed

end
