(* ===== verification/Rustls_Client.thy ===== *)
theory Rustls_Client
  imports Rustls
begin

text \<open>
  The rest of the interface of the verifier of \<open>rustls-upki/src/lib.rs\<close> (signatures of the handshake,
  schemes, hints), the verifier as the object that \<open>rustls\<close> calls, and the example client
  \<open>rustls-upki/examples/simpleclient.rs\<close> that uses it for one request.

  Sockets, the TLS state machine of \<open>rustls\<close> and the certificates of the system are fields of
  \<open>client_world\<close>. What the client relies on is the promise of \<open>rustls\<close> for custom verifiers,
  \<open>handshake_ok\<close>: the first handshake of a client is completed only after the verifier accepted the
  chain that the connection records as the one of the peer, for the name that was asked for, and the
  signature of that peer over the handshake.
\<close>

section \<open>The verifier object\<close>

record ('a, 'dss, 'scheme) tls_signatures =
  ts_verify_tls12 :: "bytes \<Rightarrow> bytes \<Rightarrow> 'dss \<Rightarrow> 'a \<Rightarrow> (rustls_error, unit) outcome"
  ts_verify_tls13 :: "bytes \<Rightarrow> bytes \<Rightarrow> 'dss \<Rightarrow> 'a \<Rightarrow> (rustls_error, unit) outcome"
  ts_supported_schemes :: "'a \<Rightarrow> 'scheme list"

definition verify_tls12_signature ::
  "('a, 'dss, 'scheme) tls_signatures \<Rightarrow> ('a, 'roots) server_verifier \<Rightarrow> bytes \<Rightarrow> bytes \<Rightarrow> 'dss \<Rightarrow> (rustls_error, unit) outcome" where
  "verify_tls12_signature ts sv message cert dss = ts_verify_tls12 ts message cert dss (pr_algorithms (sv_provider sv))"

definition verify_tls13_signature ::
  "('a, 'dss, 'scheme) tls_signatures \<Rightarrow> ('a, 'roots) server_verifier \<Rightarrow> bytes \<Rightarrow> bytes \<Rightarrow> 'dss \<Rightarrow> (rustls_error, unit) outcome" where
  "verify_tls13_signature ts sv message cert dss = ts_verify_tls13 ts message cert dss (pr_algorithms (sv_provider sv))"

definition supported_verify_schemes ::
  "('a, 'dss, 'scheme) tls_signatures \<Rightarrow> ('a, 'roots) server_verifier \<Rightarrow> 'scheme list" where
  "supported_verify_schemes ts sv = ts_supported_schemes ts (pr_algorithms (sv_provider sv))"

definition root_hint_subjects :: "('a, 'roots) server_verifier \<Rightarrow> bytes list option" where
  "root_hint_subjects sv = None"

record ('dss, 'scheme) cert_verifier =
  cv_verify_server_cert :: "bytes \<Rightarrow> bytes list \<Rightarrow> string \<Rightarrow> unix_time \<Rightarrow> (rustls_error, unit) outcome"
  cv_verify_tls12 :: "bytes \<Rightarrow> bytes \<Rightarrow> 'dss \<Rightarrow> (rustls_error, unit) outcome"
  cv_verify_tls13 :: "bytes \<Rightarrow> bytes \<Rightarrow> 'dss \<Rightarrow> (rustls_error, unit) outcome"
  cv_schemes :: "'scheme list"
  cv_root_hints :: "bytes list option"

definition as_cert_verifier ::
  "(path \<Rightarrow> string) \<Rightarrow> eku_reprs \<Rightarrow> ('a, 'roots, 'ee, 'path) path_verifier \<Rightarrow> ('a, 'dss, 'scheme) tls_signatures
   \<Rightarrow> 'c crlite \<Rightarrow> fs \<Rightarrow> ('a, 'roots) server_verifier \<Rightarrow> ('dss, 'scheme) cert_verifier" where
  "as_cert_verifier dbg eku pv ts cl s sv =
     \<lparr>cv_verify_server_cert = verify_server_cert dbg eku pv cl s sv,
      cv_verify_tls12 = verify_tls12_signature ts sv, cv_verify_tls13 = verify_tls13_signature ts sv,
      cv_schemes = supported_verify_schemes ts sv, cv_root_hints = root_hint_subjects sv\<rparr>"

section \<open>The example client\<close>

record ('a, 'roots, 'dss, 'scheme, 'sock, 'conn) client_world =
  xw_native_certs :: "string + 'roots"
  xw_provider :: "'a provider"
  xw_protocol_versions :: "string + unit"
  xw_server_name :: "string \<Rightarrow> string + string"
  xw_client_connection :: "('dss, 'scheme) cert_verifier \<Rightarrow> string \<Rightarrow> rustls_error + unit"
  xw_connect :: "string \<Rightarrow> io_error + 'sock"
  xw_handshake :: "('dss, 'scheme) cert_verifier \<Rightarrow> string \<Rightarrow> 'sock \<Rightarrow> string + 'conn"
  xw_peer_certificates :: "'conn \<Rightarrow> bytes list option"
  xw_signed :: "'conn \<Rightarrow> bytes \<times> 'dss" \<comment> \<open>what the server signed in the handshake, and the signature\<close>
  xw_write_all :: "'conn \<Rightarrow> bytes \<Rightarrow> string + unit"
  xw_cipher_suite :: "'conn \<Rightarrow> string option"
  xw_stderr :: "string \<Rightarrow> string + unit"
  xw_read_to_end :: "'conn \<Rightarrow> string + bytes"
  xw_stdout :: "bytes \<Rightarrow> string + unit"

datatype client_error =
  VerifierError rustls_error
| NameError string
| ConnectionError rustls_error
| SocketError io_error
| TlsError string
| OutputError string

definition http_request :: "string \<Rightarrow> string \<Rightarrow> string" where
  "http_request hostname path =
     (let crlf = [CHR 0x0D, CHR 0x0A] in
      ''GET '' @ path @ '' HTTP/1.1'' @ crlf @ ''Host: '' @ hostname @ crlf @ ''Connection: close'' @ crlf
      @ ''Accept-Encoding: identity'' @ crlf @ crlf)"

text \<open>
  The arguments start with the name of the program. The first write to the stream completes the
  handshake. The result is what the client writes to standard output.
\<close>

definition simple_client ::
  "(path \<Rightarrow> string) \<Rightarrow> eku_reprs \<Rightarrow> ('a, 'roots, 'ee, 'path) path_verifier \<Rightarrow> ('a, 'dss, 'scheme) tls_signatures
   \<Rightarrow> 'c crlite \<Rightarrow> environment \<Rightarrow> fs \<Rightarrow> ('a, 'roots, 'dss, 'scheme, 'sock, 'conn) client_world \<Rightarrow> string list
   \<Rightarrow> (client_error, bytes) outcome" where
  "simple_client dbg eku pv ts cl env s w args =
     obind (unwrap (if 1 < length args then Some (args ! 1) else None)) (\<lambda>hostname.
     let path = (if 2 < length args then args ! 2 else ''/'') in
     obind (unwrap (case xw_native_certs w of Inr roots \<Rightarrow> Some roots | Inl _ \<Rightarrow> None)) (\<lambda>roots.
     obind (map_err VerifierError (server_verifier_new env s policy_default None roots (xw_provider w))) (\<lambda>sv.
     obind (unwrap (case xw_protocol_versions w of Inr _ \<Rightarrow> Some () | Inl _ \<Rightarrow> None)) (\<lambda>_.
     let verifier = as_cert_verifier dbg eku pv ts cl s sv in
     obind (map_err NameError (lift_sum (xw_server_name w hostname))) (\<lambda>server_name.
     obind (map_err ConnectionError (lift_sum (xw_client_connection w verifier server_name))) (\<lambda>_.
     obind (map_err SocketError (lift_sum (xw_connect w (hostname @ '':443'')))) (\<lambda>sock.
     obind (map_err TlsError (lift_sum (xw_handshake w verifier server_name sock))) (\<lambda>conn.
     obind (map_err TlsError (lift_sum (xw_write_all w conn (as_bytes (http_request hostname path))))) (\<lambda>_.
     obind (unwrap (xw_cipher_suite w conn)) (\<lambda>ciphersuite.
     obind (unwrap (case xw_stderr w (''Current ciphersuite: '' @ ciphersuite) of Inr _ \<Rightarrow> Some () | Inl _ \<Rightarrow> None)) (\<lambda>_.
     obind (map_err TlsError (lift_sum (xw_read_to_end w conn))) (\<lambda>plaintext.
     obind (map_err OutputError (lift_sum (xw_stdout w plaintext))) (\<lambda>_.
       Ok plaintext)))))))))))))"

section \<open>Properties\<close>

definition handshake_ok :: "('a, 'roots, 'dss, 'scheme, 'sock, 'conn) client_world \<Rightarrow> bool" where
  "handshake_ok w \<longleftrightarrow> (\<forall>v name sock conn. xw_handshake w v name sock = Inr conn \<longrightarrow>
     (\<exists>end_entity intermediates now. xw_peer_certificates w conn = Some (end_entity # intermediates)
        \<and> cv_verify_server_cert v end_entity intermediates name now = Ok ()
        \<and> (case xw_signed w conn of (message, dss) \<Rightarrow>
             cv_verify_tls12 v message end_entity dss = Ok () \<or> cv_verify_tls13 v message end_entity dss = Ok ())))"

lemma verified_not_revoked:
  assumes "verify_server_cert dbg eku pv cl s sv end_entity intermediates server_name now = Ok ()"
  obtains ee path status where "pv_end_entity pv end_entity = Inr ee"
    "pv_verify_for_usage pv ee (pr_algorithms (sv_provider sv)) (sv_roots sv) intermediates now = Inr path"
    "pv_subject_name pv ee server_name = Inr ()"
    "check_revocation_status dbg pv cl s sv path = Ok status" "status \<noteq> CertainlyRevoked"
proof -
  from assms obtain ee path status where "pv_end_entity pv end_entity = Inr ee"
    "pv_verify_for_usage pv ee (pr_algorithms (sv_provider sv)) (sv_roots sv) intermediates now = Inr path"
    "pv_subject_name pv ee server_name = Inr ()" "check_revocation_status dbg pv cl s sv path = Ok status"
    and ok: "(case status of NotRevoked \<Rightarrow> Ok ()
       | NotCoveredByRevocationData \<Rightarrow> map_ok (\<lambda>_. ()) (as_result (cert_not_covered (sv_policy sv)))
       | CertainlyRevoked \<Rightarrow> Err (InvalidCertificate RevokedError)) = Ok ()"
    unfolding verify_server_cert_def by (auto simp: outcome_simps)
  moreover from ok have "status \<noteq> CertainlyRevoked" by auto
  ultimately show thesis using that by blast
qed

lemma default_verifier:
  assumes "server_verifier_new env s policy_default None roots provider = Ok sv"
  shows "sv_provider sv = provider" "sv_roots sv = roots" "is_ok (from_cache (sv_config sv) s)"
proof -
  from assms obtain sha256 config where
    "obind (case from_cache config s of Ok _ \<Rightarrow> Ok () | Err _ \<Rightarrow> map_ok (\<lambda>_. ()) (as_result (missing_data policy_default))
       | Panic \<Rightarrow> Panic) (\<lambda>_. Ok \<lparr>sv_provider = provider, sv_sha256 = sha256, sv_roots = roots, sv_config = config,
         sv_policy = policy_default\<rparr>) = Ok sv"
    unfolding server_verifier_new_def by (auto simp: outcome_simps)
  then show "sv_provider sv = provider" "sv_roots sv = roots" "is_ok (from_cache (sv_config sv) s)"
    by (cases "from_cache config s"; auto simp: policy_default_def)+
qed

text \<open>
  C35: the example client prints a response only from a server whose certificate passed. When it
  succeeds, what it prints was read from a connection to port 443 of the host, made with a
  verifier of the default policy, whose revocation data could be loaded. For the chain that this
  connection records as the one of its peer: the end-entity certificate parsed, \<open>webpki\<close> built a path from it to
  a root of the system, it is valid for the server's name, the server's signature over the handshake
  verifies under it, and its revocation status on that path was determined and is not revoked.
\<close>

theorem simple_client_trusts:
  assumes "handshake_ok w" and "simple_client dbg eku pv ts cl env s w args = Ok plaintext"
  shows "\<exists>roots sv name sock conn end_entity intermediates now ee path status message dss.
      1 < length args \<and> xw_native_certs w = Inr roots \<and> xw_server_name w (args ! 1) = Inr name
      \<and> server_verifier_new env s policy_default None roots (xw_provider w) = Ok sv \<and> is_ok (from_cache (sv_config sv) s)
      \<and> xw_connect w (args ! 1 @ '':443'') = Inr sock
      \<and> xw_handshake w (as_cert_verifier dbg eku pv ts cl s sv) name sock = Inr conn
      \<and> xw_read_to_end w conn = Inr plaintext
      \<and> xw_peer_certificates w conn = Some (end_entity # intermediates)
      \<and> pv_end_entity pv end_entity = Inr ee
      \<and> pv_verify_for_usage pv ee (pr_algorithms (xw_provider w)) roots intermediates now = Inr path
      \<and> pv_subject_name pv ee name = Inr ()
      \<and> xw_signed w conn = (message, dss)
      \<and> (ts_verify_tls12 ts message end_entity dss (pr_algorithms (xw_provider w)) = Ok ()
         \<or> ts_verify_tls13 ts message end_entity dss (pr_algorithms (xw_provider w)) = Ok ())
      \<and> check_revocation_status dbg pv cl s sv path = Ok status \<and> status \<noteq> CertainlyRevoked"
proof -
  have ok: "(case x of Inl _ \<Rightarrow> None | Inr b \<Rightarrow> Some (f b)) = Some c \<longleftrightarrow> (\<exists>b. x = Inr b \<and> c = f b)"
    for x :: "string + 'x" and f :: "'x \<Rightarrow> 'y" and c by (cases x) auto
  have "1 < length args \<and> (\<exists>roots. xw_native_certs w = Inr roots
      \<and> (\<exists>sv. server_verifier_new env s policy_default None roots (xw_provider w) = Ok sv
      \<and> (\<exists>name. xw_server_name w (args ! 1) = Inr name \<and> (\<exists>sock. xw_connect w (args ! 1 @ '':443'') = Inr sock
      \<and> (\<exists>conn. xw_handshake w (as_cert_verifier dbg eku pv ts cl s sv) name sock = Inr conn
      \<and> xw_read_to_end w conn = Inr plaintext)))))"
    using assms(2)
    by (auto simp: simple_client_def outcome_simps Let_def ok split: if_splits)
  then obtain roots sv name sock conn where args: "1 < length args" and roots: "xw_native_certs w = Inr roots"
    and sv: "server_verifier_new env s policy_default None roots (xw_provider w) = Ok sv"
    and name: "xw_server_name w (args ! 1) = Inr name" and sock: "xw_connect w (args ! 1 @ '':443'') = Inr sock"
    and conn: "xw_handshake w (as_cert_verifier dbg eku pv ts cl s sv) name sock = Inr conn"
    and reply: "xw_read_to_end w conn = Inr plaintext"
    by blast
  note new = default_verifier [OF sv]
  obtain message dss where signed: "xw_signed w conn = (message, dss)" by (cases "xw_signed w conn")
  from assms(1) conn signed obtain end_entity intermediates now where
    peer: "xw_peer_certificates w conn = Some (end_entity # intermediates)"
    and cert: "verify_server_cert dbg eku pv cl s sv end_entity intermediates name now = Ok ()"
    and sig: "ts_verify_tls12 ts message end_entity dss (pr_algorithms (xw_provider w)) = Ok ()
      \<or> ts_verify_tls13 ts message end_entity dss (pr_algorithms (xw_provider w)) = Ok ()"
    unfolding handshake_ok_def
    by (fastforce simp: as_cert_verifier_def verify_tls12_signature_def verify_tls13_signature_def new(1))
  from verified_not_revoked [OF cert] obtain ee path status where
    "pv_end_entity pv end_entity = Inr ee"
    "pv_verify_for_usage pv ee (pr_algorithms (xw_provider w)) roots intermediates now = Inr path"
    "pv_subject_name pv ee name = Inr ()" "check_revocation_status dbg pv cl s sv path = Ok status" "status \<noteq> CertainlyRevoked"
    unfolding new(1,2) by blast
  with args roots sv name sock conn reply new(3) peer signed sig show ?thesis by blast
qed

definition sample_client :: "(unit, unit, unit, unit, unit, unit) client_world" where
  "sample_client =
     \<lparr>xw_native_certs = Inr (), xw_provider = sample_provider, xw_protocol_versions = Inr (), xw_server_name = Inr,
      xw_client_connection = (\<lambda>_ _. Inr ()), xw_connect = (\<lambda>_. Inr ()),
      xw_handshake = (\<lambda>v name _. if cv_verify_server_cert v [1] [] name 0 = Ok () \<and> cv_verify_tls13 v [] [1] () = Ok ()
        then Inr () else Inl ''refused''),
      xw_peer_certificates = (\<lambda>_. Some [[1]]), xw_signed = (\<lambda>_. ([], ())),
      xw_write_all = (\<lambda>_ _. Inr ()), xw_cipher_suite = (\<lambda>_. Some ''TLS13_AES_128_GCM_SHA256''), xw_stderr = (\<lambda>_. Inr ()),
      xw_read_to_end = (\<lambda>_. Inr (as_bytes ''hello'')), xw_stdout = (\<lambda>_. Inr ())\<rparr>"

definition sample_signatures :: "(unit, unit, unit) tls_signatures" where
  "sample_signatures =
     \<lparr>ts_verify_tls12 = (\<lambda>_ _ _ _. Err (General ''old'')), ts_verify_tls13 = (\<lambda>_ _ _ _. Ok ()), ts_supported_schemes = (\<lambda>_. [()])\<rparr>"

definition sample_home :: environment where
  "sample_home = sample_env\<lparr>env_project_dirs := Some (''/c'', ''/x'')\<rparr>"

abbreviation sample_eku :: eku_reprs where
  "sample_eku \<equiv> \<lparr>CLIENT_AUTH_REPR = [], SERVER_AUTH_REPR = [1]\<rparr>"

abbreviation no_sct_pv :: "(unit, unit, bytes, bytes) path_verifier" where
  "no_sct_pv \<equiv> sample_pv\<lparr>pv_scts := (\<lambda>_. Inr [])\<rparr>"

lemma sample_client_run:
  "simple_client (\<lambda>p. p) sample_eku no_sct_pv sample_signatures sample_crlite sample_home sample_fs_indexed sample_client
     [''simpleclient'', ''example.org''] = Ok (as_bytes ''hello'')"
proof -
  let ?sv = "\<lparr>sv_provider = sample_provider, sv_sha256 = fips_sha256, sv_roots = (), sv_config = sample_config,
    sv_policy = policy_default\<rparr>"
  have "obind (config_path_new sample_home sample_fs_indexed None) (config_from_file_or_user_default sample_home sample_fs_indexed)
      = Ok sample_config"
    by code_simp
  then have new: "server_verifier_new sample_home sample_fs_indexed policy_default None () sample_provider = Ok ?sv"
    by (simp add: server_verifier_new_def sample_provider_def sample_from_cache)
  have "hashes_fit no_sct_pv ?sv p" for p
    by (simp add: hashes_fit_def sample_pv_def length_fips_sha256 usize_max_def)
  from check_revocation_status_eq [OF this, of _ "[]"]
  have "check_revocation_status (\<lambda>p. p) no_sct_pv sample_crlite sample_fs_indexed ?sv p = Ok NotCoveredByRevocationData" for p
    by (simp add: policy_default_def)
  then have "verify_server_cert (\<lambda>p. p) sample_eku no_sct_pv sample_crlite sample_fs_indexed ?sv [1] [] name 0 = Ok ()" for name
    by (simp add: verify_server_cert_def sample_pv_def policy_default_def)
  then show ?thesis
    by (simp add: simple_client_def sample_client_def new as_cert_verifier_def verify_tls13_signature_def sample_signatures_def Let_def)
qed

theorem simple_client_trusts_witness:
  "\<exists>roots sv name sock conn end_entity intermediates now ee path status message dss.
      xw_native_certs sample_client = Inr roots \<and> xw_server_name sample_client ''example.org'' = Inr name
      \<and> server_verifier_new sample_home sample_fs_indexed policy_default None roots (xw_provider sample_client) = Ok sv
      \<and> xw_connect sample_client ''example.org:443'' = Inr sock
      \<and> xw_handshake sample_client
          (as_cert_verifier (\<lambda>p. p) sample_eku no_sct_pv sample_signatures sample_crlite sample_fs_indexed sv) name sock = Inr conn
      \<and> xw_peer_certificates sample_client conn = Some (end_entity # intermediates)
      \<and> pv_end_entity no_sct_pv end_entity = Inr ee
      \<and> pv_verify_for_usage no_sct_pv ee (pr_algorithms (xw_provider sample_client)) roots intermediates now = Inr path
      \<and> pv_subject_name no_sct_pv ee name = Inr () \<and> xw_signed sample_client conn = (message, dss)
      \<and> (ts_verify_tls12 sample_signatures message end_entity dss (pr_algorithms (xw_provider sample_client)) = Ok ()
         \<or> ts_verify_tls13 sample_signatures message end_entity dss (pr_algorithms (xw_provider sample_client)) = Ok ())
      \<and> check_revocation_status (\<lambda>p. p) no_sct_pv sample_crlite sample_fs_indexed sv path = Ok status
      \<and> status \<noteq> CertainlyRevoked"
proof -
  have "handshake_ok sample_client"
    by (auto simp: handshake_ok_def sample_client_def split: if_splits)
  from simple_client_trusts [OF this sample_client_run] show ?thesis by fastforce
qed

end
