(* ===== verification/Revoke_Test.thy ===== *)
theory Revoke_Test
  imports Revocation
begin

text \<open>
  The certificate details of \<open>revoke-test/src/lib.rs\<close>: a small DER reader (lengths and octet
  strings), the list of signed certificate timestamps in the extension of a certificate, and the
  details collected from a chain.

  The certificate parser (\<open>x509_parser\<close>), base64, the SHA-256 of \<open>aws-lc-rs\<close> and the clock are other
  crates or the system: they are the fields of \<open>x509_parser\<close> and arguments. \<open>usize\<close> arithmetic on
  offsets is on \<open>nat\<close>: a slice is no longer than \<open>isize::MAX\<close> and lengths read are below \<open>2\<^sup>3\<^sup>2\<close>, so
  no sum overflows 64 bits.
\<close>

section \<open>DER\<close>

datatype rt_error =
  NoIssuerInChain
| ParserFailed string
| MissingFromCt
| SctListTooShort nat
| EmptyData
| NotAnOctetString
| LengthExceedsData
| EmptyLength
| InvalidAsn1Length
| InvalidSctLength nat nat nat
| SctTooShort
| CannotDecode string

definition length_octets :: "bytes \<Rightarrow> nat \<Rightarrow> u64" where
  "length_octets data n = foldl (\<lambda>length i. push_bit 8 length OR ucast (data ! (1 + i))) 0 [0..<n]"

definition parse_asn1_length :: "bytes \<Rightarrow> (rt_error, nat \<times> nat) outcome" where
  "parse_asn1_length data =
     (if data = [] then Err EmptyLength
      else if data ! 0 AND 0x80 = 0 then Ok (unat (data ! 0), 1)
      else
        let num_octets = unat (data ! 0 AND 0x7f) in
        if num_octets > 4 \<or> length data < 1 + num_octets then Err InvalidAsn1Length
        else Ok (unat (length_octets data num_octets), 1 + num_octets))"

definition parse_octet_string :: "bytes \<Rightarrow> (rt_error, bytes) outcome" where
  "parse_octet_string data =
     (if data = [] then Err EmptyData
      else if data ! 0 \<noteq> 0x04 then Err NotAnOctetString
      else
        obind (slice_from 1 data) (\<lambda>rest.
        obind (parse_asn1_length rest) (\<lambda>(len, length_bytes).
          let content_start = 1 + length_bytes in
          if content_start + len > length data then Err LengthExceedsData
          else slice_range content_start (content_start + len) data)))"

section \<open>Signed certificate timestamps\<close>

record sct =
  sct_log_id :: string
  sct_timestamp :: int

definition sct_from_der :: "(bytes \<Rightarrow> string) \<Rightarrow> bytes \<Rightarrow> nat \<Rightarrow> (rt_error, sct \<times> nat) outcome" where
  "sct_from_der b64 sct_list offset =
     obind (slice_range offset (offset + 2) sct_list) (\<lambda>len_bytes.
       let sct_len = unat (from_be_bytes len_bytes :: u16); offset = offset + 2 in
       if offset + sct_len > length sct_list then Err (InvalidSctLength offset sct_len (length sct_list))
       else
         obind (slice_range offset (offset + sct_len) sct_list) (\<lambda>sct_data.
           if length sct_data < 41 then Err SctTooShort
           else
             obind (slice_range 1 33 sct_data) (\<lambda>log_id.
             obind (slice_range 33 41 sct_data) (\<lambda>ts.
               Ok (\<lparr>sct_log_id = b64 log_id, sct_timestamp = sint (from_be_bytes ts :: u64)\<rparr>, offset + sct_len)))))"

lemma sct_from_der_advances:
  "sct_from_der b64 sct_list offset = Ok (s, offset') \<Longrightarrow> offset < offset' \<and> offset' \<le> length sct_list"
  by (auto simp: sct_from_der_def outcome_simps Let_def split: if_splits)

function parse_scts :: "(bytes \<Rightarrow> string) \<Rightarrow> bytes \<Rightarrow> nat \<Rightarrow> nat \<Rightarrow> sct list \<Rightarrow> (rt_error, sct list) outcome" where
  "parse_scts b64 sct_list list_len offset scts =
     (if offset < length sct_list \<and> offset < list_len + 2 then
        if offset + 2 > length sct_list then Ok scts
        else
          (case sct_from_der b64 sct_list offset of
             Ok (s, offset') \<Rightarrow> parse_scts b64 sct_list list_len offset' (scts @ [s])
           | Err e \<Rightarrow> Err e
           | Panic \<Rightarrow> Panic)
      else Ok scts)"
  by pat_completeness auto
termination
  by (relation "measure (\<lambda>(_, sct_list, _, offset, _). length sct_list - offset)")
     (auto dest: sct_from_der_advances)

declare parse_scts.simps [simp del]

section \<open>Certificate details\<close>

record 'x x509_parser =
  xp_from_der :: "bytes \<Rightarrow> string + 'x"
  xp_extensions :: "'x \<Rightarrow> (string \<times> bytes) list" \<comment> \<open>object identifier in dotted form, value\<close>
  xp_raw_serial :: "'x \<Rightarrow> bytes"
  xp_public_key_raw :: "'x \<Rightarrow> bytes"

record certificate_detail =
  cd_end_entity_cert :: string
  cd_intermediates :: "string list"
  cd_serial :: string
  cd_issuer_spki_sha256 :: string
  cd_scts :: "sct list"

definition SCT_OID :: string where
  "SCT_OID = ''1.3.6.1.4.1.11129.2.4.2''"

definition from_chain ::
  "'x x509_parser \<Rightarrow> (bytes \<Rightarrow> bytes) \<Rightarrow> (bytes \<Rightarrow> string) \<Rightarrow> bytes list \<Rightarrow> (rt_error, certificate_detail) outcome" where
  "from_chain xp sha256 b64 certs =
     (if length certs < 2 then Err NoIssuerInChain
      else
        obind (map_err ParserFailed (lift_sum (xp_from_der xp (certs ! 0)))) (\<lambda>end_entity.
        obind (ok_or MissingFromCt (find (\<lambda>(oid, _). oid = SCT_OID) (xp_extensions xp end_entity))) (\<lambda>(_, value).
        obind (parse_octet_string value) (\<lambda>sct_list.
        if length sct_list < 2 then Err (SctListTooShort (length sct_list))
        else
          obind (slice_range 0 2 sct_list) (\<lambda>len_bytes.
          obind (parse_scts b64 sct_list (unat (from_be_bytes len_bytes :: u16)) 2 []) (\<lambda>scts.
          obind (map_err ParserFailed (lift_sum (xp_from_der xp (certs ! 1)))) (\<lambda>issuer.
            Ok \<lparr>cd_end_entity_cert = b64 (certs ! 0), cd_intermediates = map b64 (drop 1 certs),
                cd_serial = b64 (xp_raw_serial xp end_entity),
                cd_issuer_spki_sha256 = b64 (sha256 (xp_public_key_raw xp issuer)), cd_scts = scts\<rparr>))))))) "

definition end_entity_cert_der :: "(string \<Rightarrow> string + bytes) \<Rightarrow> certificate_detail \<Rightarrow> (rt_error, bytes) outcome" where
  "end_entity_cert_der unb64 cd = map_err CannotDecode (lift_sum (unb64 (cd_end_entity_cert cd)))"

definition intermediates_der :: "(string \<Rightarrow> string + bytes) \<Rightarrow> certificate_detail \<Rightarrow> (rt_error, bytes) outcome list" where
  "intermediates_der unb64 cd = map (\<lambda>pem. map_err CannotDecode (lift_sum (unb64 pem))) (cd_intermediates cd)"

section \<open>Test sites\<close>

record test_site =
  ts_ca_sha256_fingerprint :: string
  ts_ca_label :: string
  ts_test_website_revoked :: string
  ts_error :: "string option"
  ts_detail :: "certificate_detail option"

record test_sites =
  tss_sites :: "test_site list"
  tss_timestamp :: u64

text \<open>
  \<open>Duration\<close> holds whole seconds in 64 bits and its addition panics on overflow; the deadline must be
  a representable time, as the argument \<open>representable\<close> of the system says. \<open>now\<close> is the time in
  nanoseconds since the epoch.
\<close>

definition expired :: "(nat \<Rightarrow> bool) \<Rightarrow> nat \<Rightarrow> test_sites \<Rightarrow> (rt_error, bool) outcome" where
  "expired representable now sites =
     (let one_month = 60 * 60 * 24 * 30; deadline = unat (tss_timestamp sites) + one_month in
      if deadline \<ge> 2 ^ 64 then Panic
      else if representable deadline then Ok (now > deadline * 10 ^ 9) else Panic)"

section \<open>Lemmas\<close>

lemma shift_or_octet:
  assumes "unat (a :: u64) < 2 ^ 56"
  shows "unat (push_bit 8 a OR ucast (b :: u8)) = 256 * unat a + unat b"
proof -
  have "push_bit 8 a AND (ucast b :: u64) = 0"
    by (rule bit_eqI) (auto simp: bit_simps dest: bit_imp_le_length)
  then have "push_bit 8 a OR ucast b = push_bit 8 a + (ucast b :: u64)" by (rule disjunctive_add_eq_or [symmetric])
  also have "\<dots> = a * 256 + ucast b" by (simp add: push_bit_eq_mult)
  also have "\<dots> = of_nat (256 * unat a + unat b)"
    by (simp add: mult.commute)
  also have "unat \<dots> = 256 * unat a + unat b"
    using assms unat_u8_less [of b] by (intro unat_of_nat_small) simp
  finally show ?thesis .
qed

lemma length_octets_value:
  "n \<le> 4 \<Longrightarrow> 1 + n \<le> length data \<Longrightarrow> unat (length_octets data n) = be_value (take n (drop 1 data))"
proof (induction n)
  case 0
  then show ?case by (simp add: length_octets_def)
next
  case (Suc n)
  then have IH: "unat (length_octets data n) = be_value (take n (drop 1 data))" by simp
  have "be_value (take n (drop 1 data)) < 256 ^ n"
    using be_value_bound [of "take n (drop 1 data)"] Suc.prems by simp
  also have "\<dots> \<le> 256 ^ 3" using Suc.prems(1) by (intro power_increasing) simp_all
  finally have "unat (length_octets data n) < 2 ^ 56" unfolding IH by simp
  then have "unat (length_octets data (Suc n)) = 256 * unat (length_octets data n) + unat (data ! (1 + n))"
    using shift_or_octet [of "length_octets data n" "data ! (1 + n)"] by (simp add: length_octets_def)
  also have "\<dots> = be_value (take n (drop 1 data) @ [drop 1 data ! n])" using IH Suc.prems by simp
  also have "take n (drop 1 data) @ [drop 1 data ! n] = take (Suc n) (drop 1 data)"
    using Suc.prems by (intro take_Suc_conv_app_nth [symmetric]) simp
  finally show ?case .
qed

text \<open>The distinguished encoding of a length and of an octet string.\<close>

definition der_length :: "nat \<Rightarrow> bytes" where
  "der_length n =
     (if n < 128 then [of_nat n]
      else let k = (if n < 256 then 1 else if n < 256 ^ 2 then 2 else if n < 256 ^ 3 then 3 else 4)
           in of_nat (128 + k) # be_bytes k n)"

definition der_octet_string :: "bytes \<Rightarrow> bytes" where
  "der_octet_string content = 0x04 # der_length (length content) @ content"

lemma short_length_byte: "n < 128 \<Longrightarrow> (of_nat n :: u8) AND 0x80 = 0"
proof -
  assume n: "n < 128"
  then have "\<not> bit n 7" by (simp add: bit_iff_odd)
  then have "\<not> bit (of_nat n :: u8) 7" by (simp add: bit_simps)
  then show ?thesis using and_exp_eq_0_iff_not_bit [of "of_nat n :: u8" 7] by simp
qed

lemma parse_der_length:
  assumes "n < 2 ^ 32"
  shows "parse_asn1_length (der_length n @ rest) = Ok (n, length (der_length n))"
proof (cases "n < 128")
  case True
  then show ?thesis
    using unat_of_nat_small [of n, where ?'a = 8]
    by (simp add: parse_asn1_length_def der_length_def short_length_byte)
next
  case False
  define k where "k = (if n < 256 then 1 else if n < 256 ^ 2 then 2 else if n < 256 ^ 3 then 3 else 4 :: nat)"
  have k: "k \<in> {1, 2, 3, 4}" "n < 256 ^ k" using assms by (auto simp: k_def)
  then have bits: "(of_nat (128 + k) :: u8) AND 0x80 \<noteq> 0" "unat ((of_nat (128 + k) :: u8) AND 0x7f) = k" by auto
  have der: "der_length n = of_nat (128 + k) # be_bytes k n" using False by (simp add: der_length_def k_def Let_def)
  have "unat (length_octets (der_length n @ rest) k) = n"
    using length_octets_value [of k "der_length n @ rest"] k by (auto simp: der be_value_be_bytes)
  then show ?thesis using bits k by (auto simp: parse_asn1_length_def der Let_def)
qed

lemma parse_der_octet_string:
  assumes "length content < 2 ^ 32"
  shows "parse_octet_string (der_octet_string content @ rest) = Ok content"
  using parse_der_length [OF assms, of "content @ rest"]
  by (simp add: parse_octet_string_def der_octet_string_def slice_from_def slice_range_def Let_def)

lemma parse_octet_string_no_panic: "parse_octet_string data \<noteq> Panic"
proof -
  have "parse_asn1_length d \<noteq> Panic" for d by (simp add: parse_asn1_length_def Let_def)
  then show ?thesis by (auto simp: parse_octet_string_def outcome_simps Let_def split: if_splits)
qed

lemma sct_from_der_no_panic: "offset + 2 \<le> length sct_list \<Longrightarrow> sct_from_der b64 sct_list offset \<noteq> Panic"
  by (auto simp: sct_from_der_def outcome_simps Let_def split: if_splits)

lemma parse_scts_no_panic: "parse_scts b64 sct_list list_len offset scts \<noteq> Panic"
proof (induction b64 sct_list list_len offset scts rule: parse_scts.induct)
  case (1 b64 sct_list list_len offset scts)
  then show ?case
    using sct_from_der_no_panic [of offset sct_list b64]
    by (subst parse_scts.simps) (auto split: outcome.split)
qed

section \<open>Encoded lists of timestamps\<close>

text \<open>
  The list as RFC 6962 encodes it: its length in two bytes, and each SCT with its length in two bytes:
  version, log identifier, timestamp, and the rest (extensions and signature).
\<close>

record raw_sct =
  rs_version :: u8
  rs_log_id :: bytes
  rs_timestamp :: u64
  rs_rest :: bytes

definition put_sct :: "raw_sct \<Rightarrow> bytes" where
  "put_sct r = to_be_bytes (of_nat (41 + length (rs_rest r)) :: u16)
     @ rs_version r # rs_log_id r @ to_be_bytes (rs_timestamp r) @ rs_rest r"

definition put_sct_list :: "raw_sct list \<Rightarrow> bytes" where
  "put_sct_list rs =
     (let body = concat (map put_sct rs) in to_be_bytes (of_nat (length body) :: u16) @ body)"

definition valid_sct :: "raw_sct \<Rightarrow> bool" where
  "valid_sct r \<longleftrightarrow> length (rs_log_id r) = 32 \<and> 41 + length (rs_rest r) < 2 ^ 16"

definition detail_sct :: "(bytes \<Rightarrow> string) \<Rightarrow> raw_sct \<Rightarrow> sct" where
  "detail_sct b64 r = \<lparr>sct_log_id = b64 (rs_log_id r), sct_timestamp = sint (rs_timestamp r)\<rparr>"

lemma length_put_sct: "valid_sct r \<Longrightarrow> length (put_sct r) = 43 + length (rs_rest r)"
  by (simp add: put_sct_def valid_sct_def)

lemma sct_from_der_put:
  assumes "valid_sct r"
  shows "sct_from_der b64 (pre @ put_sct r @ post) (length pre) = Ok (detail_sct b64 r, length pre + length (put_sct r))"
proof -
  have log: "length (rs_log_id r) = 32" using assms by (simp add: valid_sct_def)
  have len: "unat (from_be_bytes (to_be_bytes (of_nat (41 + length (rs_rest r)) :: u16)) :: u16) = 41 + length (rs_rest r)"
    using assms unat_of_nat_small [of "41 + length (rs_rest r)", where ?'a = 16] by (simp add: from_to_be_bytes valid_sct_def)
  define body where "body = rs_version r # rs_log_id r @ to_be_bytes (rs_timestamp r) @ rs_rest r"
  have put: "put_sct r = to_be_bytes (of_nat (41 + length (rs_rest r)) :: u16) @ body" by (simp add: put_sct_def body_def)
  have lb: "length body = 41 + length (rs_rest r)" by (simp add: body_def log)
  have hd2: "slice_range (length pre) (length pre + 2) (pre @ put_sct r @ post)
      = (Ok (to_be_bytes (of_nat (41 + length (rs_rest r)) :: u16)) :: (rt_error, bytes) outcome)"
    by (simp add: slice_range_def put)
  have data: "slice_range (length pre + 2) (length pre + 2 + (41 + length (rs_rest r))) (pre @ put_sct r @ post)
      = (Ok body :: (rt_error, bytes) outcome)"
    by (simp add: slice_range_def put lb [symmetric])
  have logid: "slice_range (Suc 0) 33 body = (Ok (rs_log_id r) :: (rt_error, bytes) outcome)"
    and ts: "slice_range 33 41 body = (Ok (to_be_bytes (rs_timestamp r)) :: (rt_error, bytes) outcome)"
    by (simp_all add: slice_range_def lb) (simp_all add: body_def log)
  show ?thesis
    unfolding sct_from_der_def hd2 obind.simps Let_def len data
    by (simp add: lb logid ts from_to_be_bytes detail_sct_def put)
qed

lemma parse_scts_put:
  assumes "list_all valid_sct rs" and "list_len + 2 = length (pre @ concat (map put_sct rs))"
  shows "parse_scts b64 (pre @ concat (map put_sct rs)) list_len (length pre) scts = Ok (scts @ map (detail_sct b64) rs)"
  using assms
proof (induction rs arbitrary: pre scts)
  case Nil
  then show ?case by (subst parse_scts.simps) simp
next
  case (Cons r rs)
  have len: "length (put_sct r) = 43 + length (rs_rest r)" using Cons.prems(1) by (simp add: length_put_sct)
  have "sct_from_der b64 (pre @ concat (map put_sct (r # rs))) (length pre)
      = Ok (detail_sct b64 r, length pre + length (put_sct r))"
    using sct_from_der_put [of r b64 pre "concat (map put_sct rs)"] Cons.prems(1) by simp
  moreover have "parse_scts b64 ((pre @ put_sct r) @ concat (map put_sct rs)) list_len (length (pre @ put_sct r))
      (scts @ [detail_sct b64 r]) = Ok ((scts @ [detail_sct b64 r]) @ map (detail_sct b64) rs)"
    using Cons.prems by (intro Cons.IH) simp_all
  ultimately show ?case
    using Cons.prems(2) len by (subst parse_scts.simps) simp
qed

section \<open>Properties\<close>


text \<open>
  C29: the details of a chain whose end-entity certificate carries an encoded list of SCTs have exactly
  these SCTs, in order, with their log identifiers and timestamps; for any list that fits the
  encoding, whether its length needs the short or the long form of DER.
\<close>

theorem sct_list_roundtrip:
  assumes "xp_from_der xp ee = Inr x" and "xp_from_der xp issuer = Inr y"
    and "find (\<lambda>(oid, _). oid = SCT_OID) (xp_extensions xp x) = Some (SCT_OID, der_octet_string (put_sct_list rs))"
    and "list_all valid_sct rs" and "length (concat (map put_sct rs)) < 2 ^ 16"
  shows "from_chain xp sha256 b64 (ee # issuer # rest) =
    Ok \<lparr>cd_end_entity_cert = b64 ee, cd_intermediates = map b64 (issuer # rest), cd_serial = b64 (xp_raw_serial xp x),
        cd_issuer_spki_sha256 = b64 (sha256 (xp_public_key_raw xp y)), cd_scts = map (detail_sct b64) rs\<rparr>"
proof -
  define body where "body = concat (map put_sct rs)"
  have list: "put_sct_list rs = to_be_bytes (of_nat (length body) :: u16) @ body"
    by (simp add: put_sct_list_def body_def Let_def)
  have octets: "parse_octet_string (der_octet_string (put_sct_list rs)) = Ok (put_sct_list rs)"
    using parse_der_octet_string [of "put_sct_list rs" "[]"] assms(5) by (simp add: list body_def)
  have len: "unat (from_be_bytes (to_be_bytes (of_nat (length body) :: u16)) :: u16) = length body"
    using assms(5) unat_of_nat_small [of "length body", where ?'a = 16] by (simp add: from_to_be_bytes body_def)
  have scts: "parse_scts b64 (put_sct_list rs) (length body) 2 [] = Ok (map (detail_sct b64) rs)"
    using parse_scts_put [OF assms(4), of "length body" "to_be_bytes (of_nat (length body) :: u16)" b64 "[]"]
    by (simp add: list body_def)
  have start: "slice_range 0 2 (put_sct_list rs)
      = (Ok (to_be_bytes (of_nat (length body) :: u16)) :: (rt_error, bytes) outcome)"
    by (simp add: slice_range_def list)
  have "\<not> length (put_sct_list rs) < 2" by (simp add: list)
  then show ?thesis
    using assms(1-3) by (simp add: from_chain_def octets start len scts)
qed

definition sample_parser :: "bytes x509_parser" where
  "sample_parser =
     \<lparr>xp_from_der = (\<lambda>b. Inr b),
      xp_extensions = (\<lambda>_. [(SCT_OID, der_octet_string (put_sct_list
        [\<lparr>rs_version = 0, rs_log_id = replicate 32 7, rs_timestamp = 15, rs_rest = [1, 2]\<rparr>]))]),
      xp_raw_serial = (\<lambda>b. b), xp_public_key_raw = (\<lambda>b. b)\<rparr>"

theorem sct_list_roundtrip_witness:
  "from_chain sample_parser (\<lambda>b. b) of_bytes [[1], [2]] =
     Ok \<lparr>cd_end_entity_cert = of_bytes [1], cd_intermediates = [of_bytes [2]], cd_serial = of_bytes [1],
         cd_issuer_spki_sha256 = of_bytes [2],
         cd_scts = [\<lparr>sct_log_id = of_bytes (replicate 32 7), sct_timestamp = 15\<rparr>]\<rparr>"
proof -
  have "list_all valid_sct [\<lparr>rs_version = 0, rs_log_id = replicate 32 7, rs_timestamp = 15, rs_rest = [1, 2]\<rparr>]"
    by (simp add: valid_sct_def)
  moreover from this have "length (concat (map put_sct
      [\<lparr>rs_version = 0, rs_log_id = replicate 32 7, rs_timestamp = 15, rs_rest = [1, 2]\<rparr>])) < 2 ^ 16"
    by (simp add: length_put_sct)
  ultimately show ?thesis
    using sct_list_roundtrip [of sample_parser "[1]" "[1]" "[2]" "[2]"
        "[\<lparr>rs_version = 0, rs_log_id = replicate 32 7, rs_timestamp = 15, rs_rest = [1, 2]\<rparr>]" "\<lambda>b. b" of_bytes "[]"]
    by (simp add: sample_parser_def detail_sct_def)
qed

end
