(* ===== verification/Collector.thy ===== *)
theory Collector
  imports Revoke_Test Fetch "HOL-Library.Multiset"
begin

text \<open>
  The collector of test sites, \<open>revoke-test/src/bin/fetch.rs\<close>: for the revoked test website of every
  root certificate it makes a TLS connection, records the details of the certificate chain or the
  error, and writes all records, sorted, to \<open>test-sites.json\<close>.

  The list of roots, URI parsing, TCP and TLS connections, the clock and JSON are the fields of
  \<open>collector_world\<close>; \<open>cw_json\<close> gives the bytes the serialiser writes and the error it ends with, if any.
\<close>

section \<open>One site\<close>

record root_metadata =
  rm_sha256_fingerprint :: string
  rm_name :: string
  rm_test_website_revoked :: string

record ('x, 'tcp, 'name, 'tls) collector_world =
  cw_protocol_versions :: "string + unit"
  cw_metadata :: "root_metadata list"
  cw_uri :: "string \<Rightarrow> string + (string option \<times> u16 option)" \<comment> \<open>host and port\<close>
  cw_connect :: "string \<Rightarrow> string + 'tcp"
  cw_server_name :: "string \<Rightarrow> string + 'name"
  cw_tls_connect :: "'name \<Rightarrow> 'tcp \<Rightarrow> string + 'tls"
  cw_peer_certificates :: "'tls \<Rightarrow> bytes list option"
  cw_x509 :: "'x x509_parser"
  cw_sha256 :: "bytes \<Rightarrow> bytes"
  cw_b64 :: "bytes \<Rightarrow> string"
  cw_now :: "u64 option" \<comment> \<open>seconds since the epoch, unless the clock is before it\<close>
  cw_json :: "test_sites \<Rightarrow> bytes \<times> string option"
  cw_partial :: nat

datatype dissect_error =
  EntrustSite
| BadUri string
| NoHost
| ConnectFailed string
| InvalidServerName string
| HandshakeFailed string
| NoPeerCertificates
| ChainError rt_error

text \<open>\<open>to_string\<close> of a report: its message, or the message of the error it was made from.\<close>

fun rt_error_display :: "rt_error \<Rightarrow> string" where
  "rt_error_display NoIssuerInChain = ''no issuer''"
| "rt_error_display (ParserFailed e) = e"
| "rt_error_display MissingFromCt = ''missing from ct''"
| "rt_error_display (SctListTooShort len) = ''SCT list too short: '' @ show_nat len @ '' bytes''"
| "rt_error_display EmptyData = ''empty data''"
| "rt_error_display NotAnOctetString = ''not an OCTET STRING''"
| "rt_error_display LengthExceedsData = ''OCTET STRING length exceeds data''"
| "rt_error_display EmptyLength = ''empty length''"
| "rt_error_display InvalidAsn1Length = ''invalid ASN.1 length''"
| "rt_error_display (InvalidSctLength offset sct_len total_len) =
     ''invalid SCT length: offset='' @ show_nat offset @ '' sct_len='' @ show_nat sct_len @ '' total_len='' @ show_nat total_len"
| "rt_error_display SctTooShort = ''SCT too short''"
| "rt_error_display (CannotDecode e) = ''cannot base64-decode certificate '' @ e"

fun dissect_display :: "dissect_error \<Rightarrow> string" where
  "dissect_display EntrustSite = ''entrust cannot run a website''"
| "dissect_display (BadUri e) = e"
| "dissect_display NoHost = ''no host in URL''"
| "dissect_display (ConnectFailed e) = e"
| "dissect_display (InvalidServerName e) = ''invalid server name: '' @ e"
| "dissect_display (HandshakeFailed e) = e"
| "dissect_display NoPeerCertificates = ''no peer certificates''"
| "dissect_display (ChainError e) = rt_error_display e"

definition ENTRUST_SUCKS :: "string list" where
  "ENTRUST_SUCKS = [''https://entrustrootcertificationauthorityec1.sectigo.com:444'']"

definition dissect ::
  "('x, 'tcp, 'name, 'tls) collector_world \<Rightarrow> string \<Rightarrow> (dissect_error, certificate_detail) outcome" where
  "dissect w url =
     (if url \<in> set ENTRUST_SUCKS then Err EntrustSite
      else
        obind (map_err BadUri (lift_sum (cw_uri w url))) (\<lambda>(host, port).
        obind (ok_or NoHost host) (\<lambda>host.
        let port = (case port of Some port \<Rightarrow> unat port | None \<Rightarrow> 443) in
        obind (map_err ConnectFailed (lift_sum (cw_connect w (host @ '':'' @ show_nat port)))) (\<lambda>tcp_stream.
        obind (map_err InvalidServerName (lift_sum (cw_server_name w host))) (\<lambda>server_name.
        obind (map_err HandshakeFailed (lift_sum (cw_tls_connect w server_name tcp_stream))) (\<lambda>tls_stream.
        obind (ok_or NoPeerCertificates (cw_peer_certificates w tls_stream)) (\<lambda>peer_certs.
          map_err ChainError (from_chain (cw_x509 w) (cw_sha256 w) (cw_b64 w) peer_certs))))))))"

section \<open>All sites\<close>

definition collect_site ::
  "('x, 'tcp, 'name, 'tls) collector_world \<Rightarrow> root_metadata \<Rightarrow> ('e, string list \<times> test_site) outcome" where
  "collect_site w metadata =
     (let site = \<lparr>ts_ca_sha256_fingerprint = rm_sha256_fingerprint metadata, ts_ca_label = rm_name metadata,
                  ts_test_website_revoked = rm_test_website_revoked metadata, ts_error = None, ts_detail = None\<rparr>;
          url = ts_test_website_revoked site; line = ''processing URL: '' @ url in
      case dissect w url of
        Ok detail \<Rightarrow> Ok ([line], site\<lparr>ts_detail := Some detail\<rparr>)
      | Err e \<Rightarrow> Ok ([line, ''failed: '' @ dissect_display e], site\<lparr>ts_error := Some (dissect_display e)\<rparr>)
      | Panic \<Rightarrow> Panic)"

fun collect_sites ::
  "('x, 'tcp, 'name, 'tls) collector_world \<Rightarrow> root_metadata list \<Rightarrow> ('e, string list \<times> test_site list) outcome" where
  "collect_sites w [] = Ok ([], [])"
| "collect_sites w (metadata # rest) =
     obind (collect_site w metadata) (\<lambda>(lines, site).
     obind (collect_sites w rest) (\<lambda>(more, sites). Ok (lines @ more, site # sites)))"

datatype collector_error = ProtocolVersions string | CreateFile io_error | WriteFile io_error | WriteJson string

definition TEST_SITES_JSON :: string where
  "TEST_SITES_JSON = ''test-sites.json''"

definition file_create :: "path \<Rightarrow> fs \<Rightarrow> (io_error, unit) outcome \<times> fs" where
  "file_create p s =
     (let k = path_key p in
      case fs_fault s OpOpen k of
        Some e \<Rightarrow> (Err e, s)
      | None \<Rightarrow>
          if node_at s k = Some Dir then (Err IsADirectory, s)
          else
            (case node_at s (butlast k) of
               None \<Rightarrow> (Err NotFound, s)
             | Some (File _) \<Rightarrow> (Err NotADirectory, s)
             | Some Dir \<Rightarrow> (Ok (), set_node k (File []) s)))"

text \<open>The file is created before the clock is read and the sites are written to it.\<close>

definition save_sites ::
  "('x, 'tcp, 'name, 'tls) collector_world \<Rightarrow> test_site list \<Rightarrow> fs \<Rightarrow> (collector_error, unit) outcome \<times> fs" where
  "save_sites w sites s =
     (case file_create TEST_SITES_JSON s of
        (Ok _, s1) \<Rightarrow>
          (case cw_now w of
             None \<Rightarrow> (Panic, s1)
           | Some now \<Rightarrow>
               (case cw_json w \<lparr>tss_sites = sites, tss_timestamp = now\<rparr> of (text, err) \<Rightarrow>
                  (case write_all (cw_partial w) (path_key TEST_SITES_JSON) text s1 of
                     (Ok _, s2) \<Rightarrow> (case err of None \<Rightarrow> Ok () | Some e \<Rightarrow> Err (WriteJson e), s2)
                   | (Err e, s2) \<Rightarrow> (Err (WriteFile e), s2)
                   | (Panic, s2) \<Rightarrow> (Panic, s2))))
      | (Err e, s1) \<Rightarrow> (Err (CreateFile e), s1)
      | (Panic, s1) \<Rightarrow> (Panic, s1))"

text \<open>The result, what is printed, and the new state.\<close>

definition collector_main ::
  "('x, 'tcp, 'name, 'tls) collector_world \<Rightarrow> fs \<Rightarrow> (collector_error, unit) outcome \<times> string list \<times> fs" where
  "collector_main w s =
     (case cw_protocol_versions w of
        Inl e \<Rightarrow> (Err (ProtocolVersions e), [], s)
      | Inr _ \<Rightarrow>
          (case collect_sites w (cw_metadata w) of
             Ok (out, sites) \<Rightarrow>
               (case save_sites w (sort_key (\<lambda>site. as_bytes (ts_ca_sha256_fingerprint site)) sites) s of
                  (r, s') \<Rightarrow> (r, out, s'))
           | Err e \<Rightarrow> (Err e, [], s)
           | Panic \<Rightarrow> (Panic, [], s)))"

section \<open>Lemmas\<close>

lemma dissect_no_panic [panic_free]: "dissect w url \<noteq> Panic"
  by (auto simp: dissect_def from_chain_def outcome_simps parse_octet_string_no_panic parse_scts_no_panic Let_def)

text \<open>What a record of a site has to say: who was asked, and the details or the error, never both.\<close>

definition site_origin :: "test_site \<Rightarrow> root_metadata" where
  "site_origin site = \<lparr>rm_sha256_fingerprint = ts_ca_sha256_fingerprint site, rm_name = ts_ca_label site,
     rm_test_website_revoked = ts_test_website_revoked site\<rparr>"

definition site_correct :: "('x, 'tcp, 'name, 'tls) collector_world \<Rightarrow> test_site \<Rightarrow> bool" where
  "site_correct w site \<longleftrightarrow>
     (case dissect w (ts_test_website_revoked site) of
        Ok detail \<Rightarrow> ts_detail site = Some detail \<and> ts_error site = None
      | Err e \<Rightarrow> ts_detail site = None \<and> ts_error site = Some (dissect_display e)
      | Panic \<Rightarrow> False)"

lemma collect_site_correct:
  "\<exists>out site. collect_site w metadata = Ok (out, site) \<and> site_origin site = metadata \<and> site_correct w site"
  using dissect_no_panic [of w "rm_test_website_revoked metadata"]
  by (cases "dissect w (rm_test_website_revoked metadata)")
     (auto simp: collect_site_def site_origin_def site_correct_def Let_def)

lemma collect_sites_correct:
  "\<exists>out sites. collect_sites w roots = (Ok (out, sites) :: ('e, string list \<times> test_site list) outcome)
     \<and> map site_origin sites = roots \<and> list_all (site_correct w) sites"
proof (induction roots)
  case (Cons metadata roots)
  from collect_site_correct [of w metadata] obtain out site where
    "collect_site w metadata = (Ok (out, site) :: ('e, string list \<times> test_site) outcome)"
    "site_origin site = metadata" "site_correct w site" by blast
  with Cons show ?case by auto
qed simp

lemma save_sites_Ok:
  assumes "save_sites w sites s = (Ok u, s')"
  obtains now where "cw_now w = Some now"
    "node_at s' (path_key TEST_SITES_JSON) = Some (File (fst (cw_json w \<lparr>tss_sites = sites, tss_timestamp = now\<rparr>)))"
proof -
  have "path_key TEST_SITES_JSON \<noteq> []" by (simp add: TEST_SITES_JSON_def) code_simp
  with assms that show thesis
    by (auto simp: save_sites_def file_create_def write_all_def Let_def
        split: prod.splits outcome.splits option.splits node.splits if_splits)
qed

lemma save_sites_Panic: "save_sites w sites s = (Panic, s') \<Longrightarrow> cw_now w = None"
  by (auto simp: save_sites_def file_create_def write_all_def Let_def
      split: prod.splits outcome.splits option.splits node.splits if_splits)

section \<open>Properties\<close>

text \<open>
  C31: the collector records every root exactly once, sorted by fingerprint. Each record has the
  details of the chain of the site, or the error of the attempt, never both and never neither: a
  site that fails does not end the run. A run panics only when the clock is before 1970.
\<close>

theorem collector_records_all:
  assumes "collector_main w s = (r, out, s')"
  shows "(r = Panic \<longrightarrow> cw_now w = None)
    \<and> (r = Ok () \<longrightarrow> (\<exists>sites now. cw_now w = Some now
        \<and> file_at s' (path_key TEST_SITES_JSON) = Some (fst (cw_json w \<lparr>tss_sites = sites, tss_timestamp = now\<rparr>))
        \<and> mset (map site_origin sites) = mset (cw_metadata w)
        \<and> sorted (map (\<lambda>site. as_bytes (ts_ca_sha256_fingerprint site)) sites)
        \<and> list_all (site_correct w) sites))"
proof -
  let ?key = "\<lambda>site. as_bytes (ts_ca_sha256_fingerprint site)"
  from collect_sites_correct [of w "cw_metadata w"] obtain out' sites where
    sites: "collect_sites w (cw_metadata w) = (Ok (out', sites) :: (collector_error, string list \<times> test_site list) outcome)"
      "map site_origin sites = cw_metadata w" "list_all (site_correct w) sites"
    by blast
  then have run: "save_sites w (sort_key ?key sites) s = (r, s')" if "\<exists>v. cw_protocol_versions w = Inr v"
    using that assms by (auto simp: collector_main_def split: prod.splits)
  have versions: "\<exists>v. cw_protocol_versions w = Inr v" if "r = Panic \<or> r = Ok ()"
    using that assms by (cases "cw_protocol_versions w") (auto simp: collector_main_def)
  have props: "mset (map site_origin (sort_key ?key sites)) = mset (cw_metadata w)"
    "sorted (map ?key (sort_key ?key sites))" "list_all (site_correct w) (sort_key ?key sites)"
    using sites(2,3) by (simp_all add: list_all_iff flip: sites(2))
  show ?thesis
  proof (intro conjI impI)
    show "cw_now w = None" if "r = Panic" using run versions save_sites_Panic that by blast
    assume r: "r = Ok ()"
    then have "save_sites w (sort_key ?key sites) s = (Ok (), s')" using run versions by blast
    then obtain now where now: "cw_now w = Some now" and "node_at s' (path_key TEST_SITES_JSON)
        = Some (File (fst (cw_json w \<lparr>tss_sites = sort_key ?key sites, tss_timestamp = now\<rparr>)))"
      by (rule save_sites_Ok)
    then have "file_at s' (path_key TEST_SITES_JSON)
        = Some (fst (cw_json w \<lparr>tss_sites = sort_key ?key sites, tss_timestamp = now\<rparr>))"
      by (simp only: file_at_def option.case node.case)
    with now show "\<exists>sites now. cw_now w = Some now
        \<and> file_at s' (path_key TEST_SITES_JSON) = Some (fst (cw_json w \<lparr>tss_sites = sites, tss_timestamp = now\<rparr>))
        \<and> mset (map site_origin sites) = mset (cw_metadata w) \<and> sorted (map ?key sites) \<and> list_all (site_correct w) sites"
      by (intro exI [of _ "sort_key ?key sites"] exI [of _ now] conjI props)
  qed
qed

definition demo_world :: "(unit, unit, unit, unit) collector_world" where
  "demo_world =
     \<lparr>cw_protocol_versions = Inr (),
      cw_metadata = [\<lparr>rm_sha256_fingerprint = ''BB'', rm_name = ''second'', rm_test_website_revoked = ''https://b''\<rparr>,
                     \<lparr>rm_sha256_fingerprint = ''AA'', rm_name = ''first'', rm_test_website_revoked = ''https://a''\<rparr>],
      cw_uri = (\<lambda>u. if u = ''https://b'' then Inl ''invalid uri'' else Inr (Some ''a'', None)),
      cw_connect = (\<lambda>_. Inr ()), cw_server_name = (\<lambda>_. Inr ()), cw_tls_connect = (\<lambda>_ _. Inr ()),
      cw_peer_certificates = (\<lambda>_. None),
      cw_x509 = \<lparr>xp_from_der = (\<lambda>_. Inl ''none''), xp_extensions = (\<lambda>_. []), xp_raw_serial = (\<lambda>_. []), xp_public_key_raw = (\<lambda>_. [])\<rparr>,
      cw_sha256 = (\<lambda>_. []), cw_b64 = (\<lambda>_. []), cw_now = Some 7,
      cw_json = (\<lambda>t. (concat (map (\<lambda>site. as_bytes (ts_ca_sha256_fingerprint site)) (tss_sites t)), None)), cw_partial = 0\<rparr>"

theorem collector_records_all_witness:
  "\<exists>out s' sites. collector_main demo_world \<lparr>fs_nodes = [], fs_fault = (\<lambda>_ _. None)\<rparr> = (Ok (), out, s')
    \<and> file_at s' (path_key TEST_SITES_JSON) = Some (fst (cw_json demo_world \<lparr>tss_sites = sites, tss_timestamp = 7\<rparr>))
    \<and> mset (map site_origin sites) = mset (cw_metadata demo_world) \<and> list_all (site_correct demo_world) sites"
proof -
  let ?s = "\<lparr>fs_nodes = [], fs_fault = (\<lambda>_ _. None)\<rparr>"
  obtain out sites where sites: "collect_sites demo_world (cw_metadata demo_world)
      = (Ok (out, sites) :: (collector_error, string list \<times> test_site list) outcome)"
    using collect_sites_correct by blast
  have "path_key TEST_SITES_JSON = [''test-sites.json'']" by code_simp
  then have "\<exists>s'. save_sites demo_world xs ?s = (Ok (), s')" for xs
    by (simp add: save_sites_def file_create_def node_at_def demo_world_def write_all_def)
  then obtain s' where "save_sites demo_world (sort_key (\<lambda>site. as_bytes (ts_ca_sha256_fingerprint site)) sites) ?s = (Ok (), s')"
    by blast
  moreover have "cw_protocol_versions demo_world = Inr ()" by (simp add: demo_world_def)
  ultimately have "collector_main demo_world ?s = (Ok (), out, s')"
    by (simp add: collector_main_def sites)
  moreover have "cw_now demo_world = Some 7" by (simp add: demo_world_def)
  ultimately show ?thesis using collector_records_all [of demo_world ?s "Ok ()" out s'] by fastforce
qed

end
