(* ===== verification/Sha256_Vectors.thy ===== *)
theory Sha256_Vectors
  imports Sha256 Std_Fs
begin

text \<open>
  The test vectors of \<open>upki/src/sha256.rs\<close>, evaluated in the kernel. The compression is computed with
  a queue of 16 schedule words, in which every word is computed once; it is shown equal to the
  reference, and each digest is then the result of an evaluation.
\<close>

section \<open>The tests\<close>

fun sha256_test :: "bytes \<Rightarrow> bytes \<Rightarrow> ('e, unit) outcome" where
  "sha256_test input expected =
     obind (digest_from [input]) (\<lambda>one_shot.
     obind (assert_that (one_shot = expected)) (\<lambda>_.
     obind (obind (context_update context_new input) context_finish) (\<lambda>digest.
     obind (assert_that (digest = expected)) (\<lambda>_.
     obind (obind (feed context_update context_new (map (\<lambda>byte. [byte]) input)) context_finish) (\<lambda>digest.
       assert_that (digest = expected))))))"

text \<open>A byte string literal of the source that consists of \<open>\x\<close> escapes, by its digits.\<close>

definition hex_value :: "char \<Rightarrow> nat" where
  "hex_value c = (let n = of_char c in if n < 58 then n - 48 else n - 87)"

fun hex_bytes :: "string \<Rightarrow> bytes" where
  "hex_bytes (a # b # cs) = of_nat (16 * hex_value a + hex_value b) # hex_bytes cs"
| "hex_bytes _ = []"

definition test_vectors :: "('e, unit) outcome" where
  "test_vectors =
     obind (sha256_test (as_bytes ''hello'')
       (hex_bytes ''2cf24dba5fb0a30e26e83b2ac5b9e29e1b161e5c1fa7425e73043362938b9824'')) (\<lambda>_.
     obind (sha256_test []
       (hex_bytes ''e3b0c44298fc1c149afbf4c8996fb92427ae41e4649b934ca495991b7852b855'')) (\<lambda>_.
     obind (sha256_test (as_bytes ''abc'')
       (hex_bytes ''ba7816bf8f01cfea414140de5dae2223b00361a396177a9cb410ff61f20015ad'')) (\<lambda>_.
     obind (sha256_test (as_bytes ''abcdbcdecdefdefgefghfghighijhijkijkljklmklmnlmnomnopnopq'')
       (hex_bytes ''248d6a61d20638b8e5c026930c3e6039a33ce45964ff2167f6ecedd419db06c1'')) (\<lambda>_.
     sha256_test (as_bytes ''abcdefghbcdefghicdefghijdefghijkefghijklfghijklmghijklmnhijklmnoijklmnopjklmnopqklmnopqrlmnopqrsmnopqrstnopqrstu'')
       (hex_bytes ''cf5b16a778af8380036ce59e7b0492370b249b11e8f07a51afac45037afee9d1'')))))"

text \<open>
  The second test hashes, for every length below 1024, that many equal bytes one at a time, and the
  digests together. The comparison with the expected digest is left out: it takes thousands of
  compressions.
\<close>

definition inner_digest :: "nat \<Rightarrow> ('e, digest) outcome" where
  "inner_digest len = obind (feed context_update context_new (replicate len [of_nat len])) context_finish"

definition sha256_all_lengths :: "('e, digest) outcome" where
  "sha256_all_lengths =
     obind (fold (\<lambda>len acc. obind acc (\<lambda>outer. obind (inner_digest len) (context_update outer))) [0..<1024] (Ok context_new))
       context_finish"

section \<open>A compression that computes each schedule word once\<close>

fun rounds :: "u32 list \<Rightarrow> u32 list \<Rightarrow> vars \<Rightarrow> vars" where
  "rounds (k # ks) (w # ws) v =
     rounds ks (ws @ [ssig1 (ws ! 13) + ws ! 8 + ssig0 (ws ! 0) + w]) (round_vars k w v)"
| "rounds _ _ v = v"

lemma fips_W_step:
  "16 \<le> t \<Longrightarrow> fips_W block t = ssig1 (fips_W block (t - 2)) + fips_W block (t - 7)
     + ssig0 (fips_W block (t - 15)) + fips_W block (t - 16)"
  by (subst fips_W.simps) simp

lemma rounds_fips:
  "t \<le> 64 \<Longrightarrow> rounds (drop t K) (map (fips_W block) [t..<t + 16]) v
     = fold (\<lambda>t. round_vars (K ! t) (fips_W block t)) [t..<64] v"
proof (induction "64 - t" arbitrary: t v)
  case (Suc n)
  then have t: "t < 64" by simp
  let ?ws = "map (fips_W block) [Suc t..<t + 16]"
  have ws: "map (fips_W block) [t..<t + 16] = fips_W block t # ?ws" by (simp add: upt_conv_Cons)
  have new: "ssig1 (?ws ! 13) + ?ws ! 8 + ssig0 (?ws ! 0) + fips_W block t = fips_W block (t + 16)"
    by (subst fips_W_step [of "t + 16"]) (simp_all add: nth_upt add.commute)
  have K: "drop t K = K ! t # drop (Suc t) K" using t by (simp add: Cons_nth_drop_Suc)
  have "rounds (drop t K) (map (fips_W block) [t..<t + 16]) v
      = rounds (drop (Suc t) K) (?ws @ [fips_W block (t + 16)]) (round_vars (K ! t) (fips_W block t) v)"
    by (simp only: K ws rounds.simps new)
  also have "[Suc t..<Suc t + 16] = [Suc t..<t + 16] @ [t + 16]"
    unfolding add_Suc by (rule upt_Suc_append) simp
  then have "?ws @ [fips_W block (t + 16)] = map (fips_W block) [Suc t..<Suc t + 16]" by (simp only: map_append list.map)
  also have "rounds (drop (Suc t) K) (map (fips_W block) [Suc t..<Suc t + 16]) (round_vars (K ! t) (fips_W block t) v)
      = fold (\<lambda>t. round_vars (K ! t) (fips_W block t)) [Suc t..<64] (round_vars (K ! t) (fips_W block t) v)"
    using Suc by (intro Suc.hyps(1)) simp_all
  also have "\<dots> = fold (\<lambda>t. round_vars (K ! t) (fips_W block t)) [t..<64] v"
    using t by (simp add: upt_conv_Cons)
  finally show ?case .
qed simp

definition word_of4 :: "u8 \<Rightarrow> u8 \<Rightarrow> u8 \<Rightarrow> u8 \<Rightarrow> u32" where
  "word_of4 a b c d = 2 ^ 24 * ucast a + 2 ^ 16 * ucast b + 2 ^ 8 * ucast c + ucast d"

definition word_to4 :: "u32 \<Rightarrow> bytes" where
  "word_to4 w = [ucast (drop_bit 24 w), ucast (drop_bit 16 w), ucast (drop_bit 8 w), ucast w]"

lemma from_be_bytes4: "(from_be_bytes [a, b, c, d] :: u32) = word_of4 a b c d"
  by (simp add: from_be_bytes_def be_value_def word_of4_def algebra_simps)

lemma to_be_bytes4: "(to_be_bytes :: u32 \<Rightarrow> bytes) = word_to4"
proof
  fix w :: u32
  have "be_bytes (Suc (Suc (Suc (Suc 0)))) v
      = [of_nat (v div 2 ^ 24), of_nat (v div 2 ^ 16), of_nat (v div 2 ^ 8), of_nat v]" for v
    by (simp add: div_mult2_eq [symmetric])
  moreover have "of_nat (unat w div 2 ^ n) = (ucast (drop_bit n w) :: u8)" for n
    by (simp add: drop_bit_eq_div [symmetric] unat_drop_bit_eq [symmetric] del: unat_drop_bit_eq)
  moreover have "LENGTH(32) div 8 = Suc (Suc (Suc (Suc 0)))" by simp
  ultimately show "to_be_bytes w = word_to4 w" unfolding to_be_bytes_def word_to4_def by (simp only: of_nat_unat)
qed

fun words :: "bytes \<Rightarrow> u32 list" where
  "words (a # b # c # d # bs) = word_of4 a b c d # words bs"
| "words _ = []"

lemma words_fips:
  assumes "length block = 64"
  shows "map (fips_W block) [0..<16] = words block"
proof -
  have "words bs = map (\<lambda>t. from_be_bytes (take 4 (drop (4 * t) bs))) [0..<n]" if "length bs = 4 * n" for bs n
    using that
  proof (induction n arbitrary: bs)
    case (Suc n)
    then obtain a b c d rest where bs: "bs = a # b # c # d # rest" "length rest = 4 * n"
      by (auto simp: length_Suc_conv numeral_eq_Suc)
    have "[0..<Suc n] = 0 # map Suc [0..<n]" by (simp add: upt_conv_Cons map_Suc_upt del: upt_Suc)
    moreover have "drop (4 * Suc t) bs = drop (4 * t) (drop 4 bs)" for t by (simp add: add.commute)
    then have "drop (4 * Suc t) bs = drop (4 * t) rest" for t by (simp add: bs(1))
    ultimately show ?case using Suc.IH [OF bs(2)]
      by (simp add: bs(1) comp_def from_be_bytes4 del: upt_Suc mult_Suc_right)
  qed simp
  from this [of block 16] assms show ?thesis by (simp add: fips_W.simps)
qed

definition sha_block :: "u32 list \<Rightarrow> bytes \<Rightarrow> u32 list" where
  "sha_block H block = add_vars H (rounds K (words block) (load_vars H))"

lemma sha_block_fips: "length block = 64 \<Longrightarrow> fips_compress H block = sha_block H block"
  using rounds_fips [of 0 block "load_vars H"] words_fips [of block] by (simp add: fips_compress_def sha_block_def)

lemma fips_sha256_one:
  "length (fips_pad m) = 64 \<Longrightarrow> fips_sha256 m = concat (map word_to4 (sha_block initial_h (fips_pad m)))"
  by (simp add: fips_sha256_def chunks_exact.simps [of 64 "fips_pad m"] chunks_exact.simps [of 64 "[]"] sha_block_fips
      to_be_bytes4)

lemma fips_sha256_two:
  "length (fips_pad m) = 128 \<Longrightarrow>
   fips_sha256 m = concat (map word_to4 (sha_block (sha_block initial_h (take 64 (fips_pad m))) (drop 64 (fips_pad m))))"
  by (simp add: fips_sha256_def chunks_exact.simps [of 64 "fips_pad m"] chunks_exact.simps [of 64 "drop 64 (fips_pad m)"]
      chunks_exact.simps [of 64 "[]"] sha_block_fips to_be_bytes4)

section \<open>The digests\<close>

abbreviation message_56 :: bytes where
  "message_56 \<equiv> as_bytes ''abcdbcdecdefdefgefghfghighijhijkijkljklmklmnlmnomnopnopq''"

abbreviation message_112 :: bytes where
  "message_112 \<equiv> as_bytes ''abcdefghbcdefghicdefghijdefghijkefghijklfghijklmghijklmnhijklmnoijklmnopjklmnopqklmnopqrlmnopqrsmnopqrstnopqrstu''"

lemma length_pads:
  "length (fips_pad (as_bytes ''hello'')) = 64" "length (fips_pad []) = 64" "length (fips_pad (as_bytes ''abc'')) = 64"
  "length (fips_pad message_56) = 128" "length (fips_pad message_112) = 128"
  by (simp_all add: fips_pad_def)

lemma block_hello: "sha_block initial_h (fips_pad (as_bytes ''hello''))
    = [0x2cf24dba, 0x5fb0a30e, 0x26e83b2a, 0xc5b9e29e, 0x1b161e5c, 0x1fa7425e, 0x73043362, 0x938b9824]"
  by code_simp

lemma block_empty: "sha_block initial_h (fips_pad [])
    = [0xe3b0c442, 0x98fc1c14, 0x9afbf4c8, 0x996fb924, 0x27ae41e4, 0x649b934c, 0xa495991b, 0x7852b855]"
  by code_simp

lemma block_abc: "sha_block initial_h (fips_pad (as_bytes ''abc''))
    = [0xba7816bf, 0x8f01cfea, 0x414140de, 0x5dae2223, 0xb00361a3, 0x96177a9c, 0xb410ff61, 0xf20015ad]"
  by code_simp

lemma block_56_first: "sha_block initial_h (take 64 (fips_pad message_56))
    = [0x85e655d6, 0x417a1795, 0x3363376a, 0x624cde5c, 0x76e09589, 0xcac5f811, 0xcc4b32c1, 0xf20e533a]"
  by code_simp

lemma block_56_second:
  "sha_block [0x85e655d6, 0x417a1795, 0x3363376a, 0x624cde5c, 0x76e09589, 0xcac5f811, 0xcc4b32c1, 0xf20e533a]
      (drop 64 (fips_pad message_56))
    = [0x248d6a61, 0xd20638b8, 0xe5c02693, 0x0c3e6039, 0xa33ce459, 0x64ff2167, 0xf6ecedd4, 0x19db06c1]"
  by code_simp

lemma block_112_first: "sha_block initial_h (take 64 (fips_pad message_112))
    = [0x4f197ddb, 0xfe54901e, 0xd6f6a0e1, 0xfc0cdb7b, 0xdcbccd69, 0x120b4536, 0x5b08d4e6, 0x022eec70]"
  by code_simp

lemma block_112_second:
  "sha_block [0x4f197ddb, 0xfe54901e, 0xd6f6a0e1, 0xfc0cdb7b, 0xdcbccd69, 0x120b4536, 0x5b08d4e6, 0x022eec70]
      (drop 64 (fips_pad message_112))
    = [0xcf5b16a7, 0x78af8380, 0x036ce59e, 0x7b049237, 0x0b249b11, 0xe8f07a51, 0xafac4503, 0x7afee9d1]"
  by code_simp

lemmas digests = fips_sha256_one [OF length_pads(1), unfolded block_hello]
  fips_sha256_one [OF length_pads(2), unfolded block_empty] fips_sha256_one [OF length_pads(3), unfolded block_abc]
  fips_sha256_two [OF length_pads(4), unfolded block_56_first block_56_second]
  fips_sha256_two [OF length_pads(5), unfolded block_112_first block_112_second]

lemma expected_digests:
  "hex_bytes ''2cf24dba5fb0a30e26e83b2ac5b9e29e1b161e5c1fa7425e73043362938b9824''
   = concat (map word_to4 [0x2cf24dba, 0x5fb0a30e, 0x26e83b2a, 0xc5b9e29e, 0x1b161e5c, 0x1fa7425e, 0x73043362, 0x938b9824])"
  "hex_bytes ''e3b0c44298fc1c149afbf4c8996fb92427ae41e4649b934ca495991b7852b855''
   = concat (map word_to4 [0xe3b0c442, 0x98fc1c14, 0x9afbf4c8, 0x996fb924, 0x27ae41e4, 0x649b934c, 0xa495991b, 0x7852b855])"
  "hex_bytes ''ba7816bf8f01cfea414140de5dae2223b00361a396177a9cb410ff61f20015ad''
   = concat (map word_to4 [0xba7816bf, 0x8f01cfea, 0x414140de, 0x5dae2223, 0xb00361a3, 0x96177a9c, 0xb410ff61, 0xf20015ad])"
  "hex_bytes ''248d6a61d20638b8e5c026930c3e6039a33ce45964ff2167f6ecedd419db06c1''
   = concat (map word_to4 [0x248d6a61, 0xd20638b8, 0xe5c02693, 0x0c3e6039, 0xa33ce459, 0x64ff2167, 0xf6ecedd4, 0x19db06c1])"
  "hex_bytes ''cf5b16a778af8380036ce59e7b0492370b249b11e8f07a51afac45037afee9d1''
   = concat (map word_to4 [0xcf5b16a7, 0x78af8380, 0x036ce59e, 0x7b049237, 0x0b249b11, 0xe8f07a51, 0xafac4503, 0x7afee9d1])"
  by code_simp+

section \<open>Properties\<close>

lemma sha256_test_passes:
  assumes "fips_sha256 input = expected" and "8 * length input \<le> usize_max"
  shows "sha256_test input expected = (Ok () :: ('e, unit) outcome)"
proof -
  have "obind (context_update context_new input) context_finish = (digest_from [input] :: ('e, digest) outcome)"
    by (simp add: digest_from_def obind_assoc)
  moreover have "obind (feed context_update context_new (map (\<lambda>byte. [byte]) input)) context_finish
      = (digest_from (map (\<lambda>byte. [byte]) input) :: ('e, digest) outcome)"
    by (simp add: digest_from_def)
  moreover have "concat (map (\<lambda>byte. [byte]) input) = input" by (induction input) auto
  ultimately show ?thesis using assms by (simp add: digest_from_eq sha256_outcome_def assert_that_def)
qed

text \<open>The long test computes the reference digest of the reference digests.\<close>

lemma inner_digest_eq: "len \<le> 1024 \<Longrightarrow> inner_digest len = Ok (fips_sha256 (replicate len (of_nat len)))"
proof -
  assume "len \<le> 1024"
  then have "8 * len \<le> usize_max" by (simp add: usize_max_def)
  moreover have "concat (replicate n [b]) = replicate n b" for n and b :: u8 by (induction n) auto
  ultimately show ?thesis by (simp add: inner_digest_def sha.feed_fin sha256_outcome_def)
qed

lemma all_lengths_digest:
  "(sha256_all_lengths :: ('e, digest) outcome) = Ok (fips_sha256 (concat (map (\<lambda>len. fips_sha256 (replicate len (of_nat len))) [0..<1024])))"
proof -
  let ?D = "\<lambda>len. fips_sha256 (replicate len (of_nat len))"
  have loop: "\<exists>c. fold (\<lambda>len acc. obind acc (\<lambda>outer. obind (inner_digest len) (context_update outer))) [0..<n] (Ok context_new)
      = (Ok c :: ('e, sha_context) outcome) \<and> ctx_represents c (concat (map ?D [0..<n]))" if "n \<le> 1024" for n
    using that
  proof (induction n)
    case 0
    show ?case using sha.represents_init by simp
  next
    case (Suc n)
    then obtain c where "fold (\<lambda>len acc. obind acc (\<lambda>outer. obind (inner_digest len) (context_update outer))) [0..<n] (Ok context_new)
        = (Ok c :: ('e, sha_context) outcome)" "ctx_represents c (concat (map ?D [0..<n]))" by auto
    with sha.represents_upd [OF this(2), of "?D n"] Suc.prems show ?case by (auto simp: inner_digest_eq)
  qed
  from loop [of 1024] obtain c where
    "fold (\<lambda>len acc. obind acc (\<lambda>outer. obind (inner_digest len) (context_update outer))) [0..<1024] (Ok context_new)
      = (Ok c :: ('e, sha_context) outcome)" "ctx_represents c (concat (map ?D [0..<1024]))" by blast
  moreover have "length (concat (map ?D [0..<1024])) = 1024 * 32"
    by (subst length_concat_fixed [where w = 32]) (simp_all add: length_fips_sha256)
  ultimately show ?thesis by (simp add: sha256_all_lengths_def sha.fin_spec sha256_outcome_def usize_max_def)
qed

text \<open>
  The test vectors of the hash pass on the model: the digests of five messages, computed in one
  piece, through a context and byte by byte, are the published ones.
\<close>

lemma test_vectors_pass: "test_vectors = Ok ()"
  unfolding test_vectors_def
  by (simp add: sha256_test_passes digests expected_digests usize_max_def del: sha256_test.simps hex_bytes.simps)

end
