(* ===== verification/Windows.thy ===== *)
theory Windows
  imports Config
begin

text \<open>
  The Windows \<open>platform\<close> module of \<open>upki/src/lib.rs\<close>. Paths are Windows paths here, so \<open>PathBuf::join\<close> has
  its own definition for them; \<open>program_data\<close> is the variable of the environment, when it is set. A
  verbatim path (one that starts with \<open>\\?\\<close>) is not covered.
\<close>

abbreviation backslash :: char where
  "backslash \<equiv> CHR 0x5C"

definition VENDOR :: string where
  "VENDOR = ''rustls''"

text \<open>A drive without a root, like \<open>C:\<close>, is followed by a relative path without a separator.\<close>

fun drive_only :: "path \<Rightarrow> bool" where
  "drive_only [c, d] = (d = CHR '':'' \<and> (in_range 0x41 0x5A (of_char c) \<or> in_range 0x61 0x7A (of_char c)))"
| "drive_only _ = False"

text \<open>\<open>PathBuf::join\<close> with a relative path that has no drive.\<close>

definition windows_join :: "path \<Rightarrow> path \<Rightarrow> path" where
  "windows_join a b =
     (if a = [] \<or> last a \<in> {backslash, CHR ''/''} \<or> drive_only a then a @ b else a @ [backslash] @ b)"

definition program_data_dir :: "string option \<Rightarrow> path" where
  "program_data_dir program_data =
     (case program_data of Some base \<Rightarrow> base | None \<Rightarrow> ''C:'' @ [backslash] @ ''ProgramData'')"

definition windows_system_config_dir :: "string option \<Rightarrow> (upki_error, path) outcome" where
  "windows_system_config_dir program_data =
     Ok (windows_join (windows_join (program_data_dir program_data) VENDOR) PREFIX)"

definition windows_system_cache_dir :: "string option \<Rightarrow> (upki_error, path) outcome" where
  "windows_system_cache_dir program_data =
     Ok (windows_join (windows_join (windows_join (program_data_dir program_data) VENDOR) PREFIX) ''cache'')"

text \<open>
  The cache is a directory inside the one of the configuration, so that a configuration file there
  is never taken for a cache file; without the variable the location is below \<open>C:\ProgramData\<close>.
\<close>

lemma windows_dirs:
  "windows_system_cache_dir program_data = map_ok (\<lambda>dir. dir @ [backslash] @ ''cache'') (windows_system_config_dir program_data)"
  "windows_system_config_dir None
   = Ok (''C:'' @ [backslash] @ ''ProgramData'' @ [backslash] @ ''rustls'' @ [backslash] @ ''upki'')"
proof -
  have drive: "\<not> drive_only (xs @ ''upki'')" for xs
    by (cases xs rule: drive_only.cases) auto
  have "windows_join (xs @ ''upki'') ''cache'' = (xs @ ''upki'') @ [backslash] @ ''cache''" for xs
    using drive [of xs] by (simp add: windows_join_def)
  moreover have "\<exists>xs. windows_join a PREFIX = xs @ ''upki''" for a by (auto simp: windows_join_def PREFIX_def)
  ultimately have "windows_join (windows_join a PREFIX) ''cache'' = windows_join a PREFIX @ [backslash] @ ''cache''" for a
    by metis
  then show "windows_system_cache_dir program_data
      = map_ok (\<lambda>dir. dir @ [backslash] @ ''cache'') (windows_system_config_dir program_data)"
    by (simp add: windows_system_cache_dir_def windows_system_config_dir_def)
  show "windows_system_config_dir None
      = Ok (''C:'' @ [backslash] @ ''ProgramData'' @ [backslash] @ ''rustls'' @ [backslash] @ ''upki'')"
    by (simp add: windows_system_config_dir_def program_data_dir_def windows_join_def VENDOR_def PREFIX_def)
qed

end
