(* ===== verification/Spec2Isabelle.thy ===== *)
theory Spec2Isabelle
  imports Index_Writer Index_Reuse Index_Tests Fetch_Live Cli Openssl Rustls_Client Mirror Collector Sha256_Vectors Windows
begin

text \<open>
  \<^bold>\<open>A verification of upki, a certificate revocation library.\<close>

  \<^bold>\<open>The program.\<close> A mirror (\<open>upki-mirror\<close>) publishes CRLite filters with a manifest. The fetcher
  (\<open>upki/src/revocation/fetch.rs\<close>) synchronises a cache directory with such a server: it compares the
  manifest with the directory, downloads what differs, writes an index over the filters, saves the
  manifest and deletes stale filters. A check (\<open>revocation/mod.rs\<close>, \<open>index.rs\<close>) turns a certificate
  chain into an input, loads the index, finds the filters that cover the timestamps of the
  certificate and combines their answers into a verdict. Four front ends use it: the command-line
  tool (\<open>upki-cli\<close>), the C interface (\<open>upki/src/ffi.rs\<close>), OpenSSL on top of the C interface
  (\<open>upki-openssl\<close>) and rustls (\<open>rustls-upki\<close>). \<open>revoke-test\<close> collects certificates of test sites.

  \<^bold>\<open>Theories and sources.\<close>
  \<^item> \<open>Prelude\<close>: outcomes (\<open>Ok\<close>, \<open>Err\<close>, \<open>Panic\<close>) with the \<open>?\<close> operator as \<open>obind\<close>, slices that panic out
    of range, big-endian integers.
  \<^item> \<open>Std_Fs\<close>: what is used of the standard library: UTF-8, Unix paths, a file system whose operations may
    each fail (\<open>fs_fault\<close>), open files.
  \<^item> \<open>Sha256\<close>: \<open>sha256.rs\<close>. The streaming hash equals the digest of FIPS 180-4 written as a plain
    function of the message (padding, schedule, rounds); an interface (locale) for incremental hashing
    carries the proof. \<open>Sha256_Vectors\<close>: the unit tests of the file; its vectors are computed in the kernel.
  \<^item> \<open>Revocation\<close>: \<open>revocation/mod.rs\<close> but for the two manifest operations that need the fetcher: errors,
    manifests, verdicts, textual inputs, \<open>RevocationCheckInput\<close>.
  \<^item> \<open>Config\<close>: \<open>lib.rs\<close>: search and loading of the configuration. \<open>Windows\<close>: its Windows \<open>platform\<close> module.
  \<^item> \<open>Index\<close>: \<open>index.rs\<close>: \<open>from_cache\<close>, \<open>check\<close> (binary search, entries, filter queries), \<open>write\<close>.
    \<open>Samples\<close> is a small concrete system for witnesses. \<open>Index_Safety\<close> (fixed-width codecs as a locale,
    no panic on any bytes, verdicts are justified by a filter the index names), \<open>Index_Correct\<close> (binary
    search is linear search; what \<open>from_cache\<close> does on a header with any counts; loading and checking an
    encoded index refines an abstract check over its entries), \<open>Index_Reuse\<close> (\<open>check\<close> as a method that returns
    the changed index on every path, failures included, and sequences of such calls) and \<open>Index_Writer\<close>
    (what \<open>write\<close> wrote is read back, so a check consults all filters of the manifest).
    \<open>Index_Tests\<close>: the unit tests of \<open>index.rs\<close> as definitions, all proved to pass, and the equality of
    their index encoder with \<open>write\<close>.
  \<^item> \<open>Fetch\<close>: \<open>fetch.rs\<close> with \<open>Manifest::from_config\<close> and \<open>Manifest::verify\<close>. \<open>Fetch_Correct\<close>: atomic
    replacement of a file as an interface, frames of each step, runs of plans. \<open>Fetch_Properties\<close>: what a
    fetch guarantees, also when it fails half way. \<open>Fetch_Live\<close>: a fetch succeeds when the server answers and
    no file operation fails; progress and preservation over the plan are an interface (locale).
  \<^item> \<open>Ffi\<close>: \<open>ffi.rs\<close> over an explicit memory; handles as an interface (locale) that \<open>Openssl\<close> uses too. The
    calls a client may make are a relation that also has undefined outcomes; a step is a call that is
    defined, and no call is undefined in a state that steps lead to.
  \<^item> \<open>Cli\<close>: \<open>upki.rs\<close>, from arguments to the exit status.
  \<^item> \<open>Openssl\<close>: \<open>upki-openssl/src/lib.rs\<close>: the callback as a client of the C interface, and the ownership of
    configurations as a step relation with an invariant, again over calls that may be undefined.
    \<open>ssl_ctx_free\<close> there is OpenSSL's event that runs the registered callback, and no code of the crate.
  \<^item> \<open>Rustls\<close>: \<open>rustls-upki/src/lib.rs\<close>: policy, verifier, translation of errors. \<open>Rustls_Client\<close>:
    the other methods of the verifier, and \<open>examples/simpleclient.rs\<close> as a client of it.
  \<^item> \<open>Mirror\<close>: \<open>mozilla-crlite.rs\<close> and \<open>intermediates.rs\<close>: the walk over records, publication of files.
  \<^item> \<open>Revoke_Test\<close>: \<open>revoke-test/src/lib.rs\<close>: DER lengths and octet strings, SCT lists, chain details.
  \<^item> \<open>Collector\<close>: \<open>revoke-test/src/bin/fetch.rs\<close>: one record for each test site, written as a sorted list.
  \<^item> This theory: the properties that span components: a fetch followed by a check, and the agreement of
    the front ends.

  \<^bold>\<open>How code is modelled.\<close> Structs are records, enums datatypes, functions definitions of the same name
  where possible. \<open>u8\<close> to \<open>u64\<close> are machine words; \<open>usize\<close> is \<open>nat\<close> on a 64-bit target, with overflow
  written out where the source checks it, where it may panic, and where it wraps (\<open>download_bytes\<close> sums
  as a release build does). Debug assertions are panics. Every operation on files returns the new
  state also when it fails; which operations fail is a function of the operation and the path, and the
  answers of the server, temporary names, short reads and the extent of failed writes are an
  environment given anew to each step, so theorems hold for all of them. Paths have no symbolic links.
  In \<open>Ffi\<close> and \<open>Openssl\<close> undefined behaviour is the value \<open>Undefined\<close>, so that safety is a statement.
  Temporary files are modelled by the file-system operations behind the \<open>tempfile\<close> crate: exclusive
  creation, removal on drop, and rename. All other crates are arguments: \<open>webpki\<close>, \<open>x509_parser\<close>, the
  CRLite filters (\<open>clubcard\<close>), HTTP, JSON, TOML, CSV, PEM, base64, dates, OpenSSL, the crypto provider. Laws
  assumed of them are named: \<open>crlite_universe_ok\<close> and \<open>crlite_covered_ok\<close> (a filter lists
  each log once, by a 32-byte identifier, and answers \<open>NotCovered\<close> unless a timestamp is in an interval it
  lists), \<open>clubcard_ok\<close> (the filters of the unit tests can be built and answer for the certificates put into
  them), \<open>handshake_ok\<close> (\<open>rustls\<close> completes a handshake only when the verifier accepted the certificates it
  records for the peer and the signature under them), \<open>ex_data_ok\<close>, \<open>encodings_ok\<close> (an encoding is as long as
  OpenSSL says), \<open>allocator_ok\<close>, \<open>vectors_ok\<close>.

  \<^bold>\<open>Loops and fuel.\<close> No fuel is used. The loops of \<open>sha256.rs\<close>, the binary search, the scans, \<open>hash_file\<close>
  and the SCT parser are total functions with measures. \<open>c_str\<close> and the walk of the mirror may run for
  ever and are partial functions; the walk is proved to end for distinct identifiers
  (\<open>walk_follows_deltas\<close>), and not to end in general (\<open>walk_may_not_end\<close>).

  \<^bold>\<open>Bounds.\<close> An index format counts files in 16 bits, so the theorems on writing assume fewer than
  65536 files and \<open>header_count_wraps\<close> shows what happens beyond; the writer's 64-bit offsets and 32-bit
  counts are covered by a size below \<open>2\<^sup>3\<^sup>2\<close>. The theorems that fetching is confined assume plain names in
  the manifest (\<open>manifest_ok\<close>), because the code does not check them.

  \<^bold>\<open>Not modelled.\<close> Logging, \<open>Debug\<close> and serde code, argument parsing, permissions of created files,
  concurrent changes of the cache during a check, Windows paths outside the \<open>platform\<close> module, the
  integration tests, code generation tests and benchmarks, which run built programs or servers. Of the
  unit tests, the JSON text that hands a coverage to the filter builder and the comparison at the end of
  \<open>sha256_all_lengths\<close> (thousands of compressions) are left out; that its inner hashes are the digests of
  FIPS 180-4 is proved instead. The
  specification of SHA-256 shares the round functions with the model; constants and initial values are
  checked against the roots of primes they stand for.
\<close>

lemma readable_file_at:
  assumes "node_at s (path_key p) = Some (File b)"
    and "fs_fault s OpOpen (path_key p) = None" "fs_fault s OpRead (path_key p) = None" "fs_fault s OpStat (path_key p) = None"
  shows "readable_file s p b"
  using assms by (simp add: readable_file_def file_open_def)

text \<open>
  C1: fetching and checking together. After a successful fetch, provided that the filters in the cache
  could be indexed (\<open>Index::write\<close> gives an index for them, small enough for its fields), loading the index
  from the cache and checking a certificate gives the verdict over the answers of all filters the
  server's manifest lists: revoked if any filter says so, else not revoked if any says good, else not
  covered. When a filter cannot be indexed, the fetch succeeds as well and leaves the index as it
  was; nothing is claimed of that case. The other hypotheses on the manifest are that its names denote
  entries of the cache directory; those on the file system, that the index can be read.
\<close>

theorem fetch_then_check:
  assumes "crlite_universe_ok cl" "crlite_covered_ok cl"
    and "fetch cl ex envs order False config s = (Ok out, s')"
    and "fetch_plan ex (envs 0) order config s = Ok (m, plan)"
    and "\<forall>xs. set (order xs) = set xs" and "manifest_ok m" and "temps_ok envs" and "fs_wf s"
    and "index_write cl s' m (revocation_cache_dir config) = Some b"
    and "length (m_files m) < 2 ^ 16" and "length b < 2 ^ 32"
    and "\<forall>f \<in> set (m_files m). rust_str (mf_filename f) \<and> 0 \<notin> set (as_bytes (mf_filename f))"
    and "\<forall>op \<in> {OpOpen, OpRead, OpStat}. fs_fault s op (path_key (revocation_cache_dir config) @ [INDEX_BIN]) = None"
  shows "\<exists>answers. map (\<lambda>f. query_filter cl s' (revocation_cache_dir config) input (mf_filename f)) (m_files m)
       = map Ok answers
     \<and> map_ok fst (obind (from_cache config s') (\<lambda>ix. check cl s' ix input)) = Ok (overall answers)"
proof -
  let ?dir = "revocation_cache_dir config"
  have order: "\<And>xs. set (order xs) = set xs" using assms(5) by blast
  from fetch_runs [OF assms(3,4)] have run: "run_steps cl ex envs 1 (pl_steps plan) s = (Ok (), s')" by auto
  have "node_at s' (path_key ?dir @ [INDEX_BIN]) = Some (File b)"
    by (rule run_plan_index [OF fetch_planD(2) [OF assms(4)] run order assms(6-9)])
  then have "readable_file s' (path_join ?dir INDEX_BIN) b"
    using assms(13) run_steps_fault [OF run]
    by (intro readable_file_at) (simp_all add: path_key_join fixed_names)
  from index_check_all [OF assms(1,2,9-12) this] show ?thesis by simp
qed

theorem fetch_then_check_witness:
  "\<exists>answers. map (\<lambda>f. query_filter sample_crlite demo_final (revocation_cache_dir sample_config) sample_input (mf_filename f))
        (m_files demo_manifest) = map Ok answers
     \<and> map_ok fst (obind (from_cache sample_config demo_final) (\<lambda>ix. check sample_crlite demo_final ix sample_input))
        = Ok (overall answers)"
proof (rule fetch_then_check [OF sample_crlite_laws demo_fetch demo_fetch_plan _ demo_ok])
  show "\<forall>xs. set xs = set xs" by simp
  have "fs_read demo_final ''/c/revocation/a.filter'' = Ok [2]"
    by (simp add: fs_read_def demo_keys demo_final_def demo_nodes_def node_at_def)
  then show "index_write sample_crlite demo_final demo_manifest (revocation_cache_dir sample_config) = Some demo_index"
    unfolding sample_revocation_dir by (rule demo_index_write)
  show "length (m_files demo_manifest) < 2 ^ 16" by (simp add: demo_manifest_def)
  show "length demo_index < 2 ^ 32" using demo_index_bytes(2) by simp
  have "rust_str ''a.filter'' \<and> 0 \<notin> set (as_bytes ''a.filter'')" by code_simp
  then show "\<forall>f \<in> set (m_files demo_manifest). rust_str (mf_filename f) \<and> 0 \<notin> set (as_bytes (mf_filename f))"
    by (simp add: demo_manifest_def demo_file_def)
  show "\<forall>op \<in> {OpOpen, OpRead, OpStat}. fs_fault demo_fs op (path_key (revocation_cache_dir sample_config) @ [INDEX_BIN]) = None"
    by (simp add: demo_fs_def)
qed

text \<open>
  C6: the command-line tool and the C interface agree. For the same configuration, certificates and
  file system, the exit status of \<open>upki revocation check\<close> and the result of
  \<open>upki_check_revocation\<close> tell the same: 2 for revoked, 0 for not covered or not revoked, 1 for an error
  code, as long as serials and key information are short enough to be hashed.
\<close>

theorem cli_and_ffi_agree:
  assumes "in_args inp = Inr args" and "arg_command args = CmdRevocation Check" and "in_filter inp = Inr ()"
    and "cli_config env s args = Ok config" and "in_pem inp = map Inr certs"
    and "h \<noteq> NULL" and "p \<noteq> NULL" and "live_config mem h = Some config" and "der_slices mem p n = Some certs"
    and "\<forall>ee. 8 * (32 + length (wp_serial wp ee)) \<le> usize_max" and "\<forall>ta. 8 * length (wp_spki wp ta) \<le> usize_max"
  shows "\<exists>code r. process env wp cl ex envs inp s = (code, s) \<and> upki_check_revocation wp cl s mem h p n = Defined r
    \<and> (code = 2 \<longleftrightarrow> r = UPKI_REVOCATION_REVOKED)
    \<and> (code = 0 \<longleftrightarrow> r = UPKI_REVOCATION_NOT_COVERED \<or> r = UPKI_REVOCATION_NOT_REVOKED)
    \<and> (code = 1 \<longleftrightarrow> 16 \<le> upki_result_code r)"
proof -
  have certs: "read_certs (in_pem inp) = Ok certs" using assms(5) by (simp add: read_certs_Ok_iff)
  have ffi: "upki_check_revocation wp cl s mem h p n = Defined (catch_unwind (\<lambda>e. upki_result_from (RevocationError e))
      (map_ok status_result (chain_status wp cl s config certs)))"
    using assms(6-9) by (simp add: upki_check_revocation_def)
  show ?thesis
  proof (cases "chain_status wp cl s config certs")
    case (Ok st)
    then show ?thesis
      using ffi certs assms(3,4) by (cases st) (simp_all add: process_check [OF assms(1,2)] to_cli_def EXIT_SUCCESS_def
          EXIT_CODE_REVOCATION_REVOKED_def)
  next
    case (Err e)
    have "r \<noteq> UPKI_REVOCATION_REVOKED \<and> r \<noteq> UPKI_REVOCATION_NOT_COVERED \<and> r \<noteq> UPKI_REVOCATION_NOT_REVOKED"
      if "16 \<le> upki_result_code r" for r using that by auto
    with Err show ?thesis
      using ffi certs assms(3,4) result_from_error [of "RevocationError e"] by (simp add: process_check [OF assms(1,2)])
  next
    case Panic
    then show ?thesis using chain_status_no_panic [of wp cl s config certs] assms(10,11) by simp
  qed
qed

theorem cli_and_ffi_agree_witness:
  "\<exists>code r. process sample_env sample_webpki sample_crlite demo_externals demo_envs sample_cli sample_fs = (code, sample_fs)
    \<and> upki_check_revocation sample_webpki sample_crlite sample_fs sample_created 1 32 2 = Defined r
    \<and> (code = 2 \<longleftrightarrow> r = UPKI_REVOCATION_REVOKED)
    \<and> (code = 0 \<longleftrightarrow> r = UPKI_REVOCATION_NOT_COVERED \<or> r = UPKI_REVOCATION_NOT_REVOKED)
    \<and> (code = 1 \<longleftrightarrow> 16 \<le> upki_result_code r)"
proof (rule cli_and_ffi_agree [OF _ _ _ _ _ _ _ _ sample_ders])
  let ?args = "\<lparr>arg_command = CmdRevocation Check, arg_config_file = None, arg_verbose = False\<rparr>"
  let ?config = "\<lparr>cfg_cache_dir = ''/home/u/cache'', cfg_revocation = revocation_config_default\<rparr>"
  show "in_args sample_cli = Inr ?args" "arg_command ?args = CmdRevocation Check" "in_filter sample_cli = Inr ()"
    "in_pem sample_cli = map Inr [[1], [2]]" by (simp_all add: sample_cli_def)
  show "cli_config sample_env sample_fs ?args = Ok ?config"
    using sample_default_config by (simp add: cli_config_def)
  show "live_config sample_created 1 = Some ?config" by (simp add: sample_created_def)
qed (simp_all add: sample_webpki_short [simplified])

text \<open>
  C7: when the verifier for rustls gives the verdict of the other front ends. Suppose that \<open>webpki\<close>
  presents the same serial and SCTs in both interfaces, that the issuer that the other front ends find
  by its name has the key of the issuer on the verified path, and that the provider's hash is SHA-256.
  Then for a certificate with SCTs the revocation status is the one the C interface and the
  command-line tool compute from the chain, with an error given as its text. For one without SCTs
  it is what the policy says for this case, and no index is loaded.
\<close>

theorem rustls_agrees:
  assumes "wp_end_entity wp ee_der = Inr ee" and "find_issuer wp (wp_issuer wp ee) rest = Ok issuer"
    and "wp_spki wp issuer = pv_issuer_spki pv path" and "wp_serial wp ee = pv_serial pv (pv_path_end_entity pv path)"
    and "wp_scts wp ee = Inr (map Inr scts)" and "pv_scts pv (pv_path_end_entity pv path) = Inr (map Inr scts)"
    and "sv_sha256 sv = fips_sha256"
    and "8 * (32 + length (wp_serial wp ee)) \<le> usize_max" and "8 * length (wp_spki wp issuer) \<le> usize_max"
  shows "check_revocation_status dbg pv cl s sv path =
    (if scts = [] then as_result (cert_has_no_scts (sv_policy sv))
     else map_err (\<lambda>e. General (error_display dbg e)) (chain_status wp cl s (sv_config sv) (ee_der # rest)))"
proof -
  have "collect_scts (map Inr scts) = Ok scts" by (simp add: collect_scts_Ok_iff)
  with assms have "from_certificates wp (ee_der # rest) = Ok (path_input pv sv path scts)"
    by (simp add: from_certificates_def digest_from_eq sha256_outcome_def input_new_eq length_fips_sha256 path_input_def Let_def)
  moreover have "hashes_fit pv sv path" using assms(4,7,8) by (simp add: hashes_fit_def length_fips_sha256)
  ultimately show ?thesis
    using check_revocation_status_eq [of pv sv path scts dbg cl s] assms(6) by (simp add: chain_status_def)
qed

theorem rustls_agrees_witness:
  "check_revocation_status (\<lambda>p. p) sample_pv sample_crlite sample_fs sample_sv [1] =
    map_err (\<lambda>e. General (error_display (\<lambda>p. p) e)) (chain_status sample_webpki sample_crlite sample_fs (sv_config sample_sv) [[1], [1]])"
proof -
  let ?scts = "[\<lparr>ct_log_id = sample_log, ct_time = 15\<rparr>]"
  have "wp_end_entity sample_webpki [1] = Inr [1]" "wp_spki sample_webpki [1] = pv_issuer_spki sample_pv [1]"
    "wp_serial sample_webpki [1] = pv_serial sample_pv (pv_path_end_entity sample_pv [1])"
    "wp_scts sample_webpki [1] = Inr (map Inr ?scts)" "pv_scts sample_pv (pv_path_end_entity sample_pv [1]) = Inr (map Inr ?scts)"
    "sv_sha256 sample_sv = fips_sha256" by (simp_all add: sample_webpki_def sample_pv_def sample_sv_def)
  note facts = this
  have "find_issuer sample_webpki (wp_issuer sample_webpki [1]) [[1]] = Ok [1]" by (simp add: sample_webpki_def find_issuer_def)
  from rustls_agrees [OF facts(1) this facts(2-6), of "\<lambda>p. p" sample_crlite sample_fs] sample_webpki_short
  show ?thesis by simp
qed

end
